(* ===== verification/Prelude.thy ===== *)
theory Prelude
  imports Main "HOL-Library.Word" "HOL-Library.Sublist"
begin

text \<open>
  Shared vocabulary of the development: the machine integer types of the C++ sources, the
  bytes of a \<open>std::string\<close>, and the members of \<open>std::string\<close> and \<open>std::vector\<close> the
  sources call (\<open>find\<close>, \<open>rfind\<close>, \<open>substr\<close>, \<open>std::isspace\<close>, \<open>std::getline\<close>,
  \<open>std::to_string\<close>). A \<open>std::string\<close> is a HOL \<open>string\<close> whose characters are its
  bytes, a \<open>std::vector<uint8_t>\<close> a \<open>byte list\<close>. The collection \<open>bytes_simps\<close> gathers
  the facts the components share for moving between the two.
\<close>

unbundle bit_operations_syntax

named_theorems bytes_simps \<open>conversions between strings and byte vectors\<close>

type_synonym byte = "8 word"
type_synonym u16 = "16 word"
type_synonym u32 = "32 word"
type_synonym u64 = "64 word"

section \<open>Bytes and characters\<close>

definition byte_of_char :: "char \<Rightarrow> byte" where
  "byte_of_char c = of_char c"

definition char_of_byte :: "byte \<Rightarrow> char" where
  "char_of_byte b = char_of (unat b)"

abbreviation bytes_of :: "string \<Rightarrow> byte list" where
  "bytes_of s \<equiv> map byte_of_char s"

abbreviation string_of :: "byte list \<Rightarrow> string" where
  "string_of bs \<equiv> map char_of_byte bs"

lemma unat_byte_of_char: "unat (byte_of_char c) = of_char c"
proof -
  have "byte_of_char c = word_of_nat (of_char c)"
    by (simp add: byte_of_char_def of_nat_of_char)
  then show ?thesis
    using nat_of_char_less_256 [of c] by (simp add: unat_of_nat take_bit_nat_eq_self)
qed

lemma char_of_byte_of_char [simp, bytes_simps]: "char_of_byte (byte_of_char c) = c"
  by (simp add: char_of_byte_def unat_byte_of_char)

lemma byte_of_char_of_byte [simp, bytes_simps]: "byte_of_char (char_of_byte b) = b"
proof -
  have "unat b < 256" using unsigned_less [of b] by simp
  then have "unat (byte_of_char (char_of_byte b)) = unat b"
    by (simp add: unat_byte_of_char char_of_byte_def)
  then show ?thesis by (simp only: word_unat_eq_iff)
qed

lemma char_byte_comp [simp, bytes_simps]:
  "char_of_byte \<circ> byte_of_char = id" "byte_of_char \<circ> char_of_byte = id"
  by (simp_all add: fun_eq_iff)

lemma string_of_bytes_of [simp, bytes_simps]: "string_of (bytes_of s) = s"
  by (induction s) auto

lemma bytes_of_string_of [simp, bytes_simps]: "bytes_of (string_of bs) = bs"
  by (induction bs) auto

lemma bytes_of_inject [simp]: "bytes_of s = bytes_of t \<longleftrightarrow> s = t"
  by (metis string_of_bytes_of)

section \<open>Searching and cutting strings\<close>

text \<open>\<open>npos\<close> is \<open>None\<close>; \<open>rfind(p, 0) == 0\<close>, the sources' prefix test, is \<open>prefix p s\<close>.\<close>

fun find_char :: "char \<Rightarrow> string \<Rightarrow> nat option" where
  "find_char x [] = None"
| "find_char x (c # cs) = (if c = x then Some 0 else map_option Suc (find_char x cs))"

fun rfind_char :: "char \<Rightarrow> string \<Rightarrow> nat option" where
  "rfind_char x [] = None"
| "rfind_char x (c # cs) =
     (case rfind_char x cs of
        Some i \<Rightarrow> Some (Suc i)
      | None \<Rightarrow> if c = x then Some 0 else None)"

fun find_sub :: "string \<Rightarrow> string \<Rightarrow> nat option" where
  "find_sub p [] = (if p = [] then Some 0 else None)"
| "find_sub p (c # cs) =
     (if prefix p (c # cs) then Some 0 else map_option Suc (find_sub p cs))"

definition substr :: "string \<Rightarrow> nat \<Rightarrow> nat \<Rightarrow> string" where
  "substr s pos len = take len (drop pos s)"

lemma find_char_None: "find_char x s = None \<longleftrightarrow> x \<notin> set s"
  by (induction s) auto

lemma find_char_append:
  "find_char x (s @ t) =
     (case find_char x s of Some i \<Rightarrow> Some i
      | None \<Rightarrow> map_option (\<lambda>i. i + length s) (find_char x t))"
  by (induction s) (auto simp: option.map_comp comp_def option.map_ident split: option.splits)

lemma rfind_char_None: "rfind_char x s = None \<longleftrightarrow> x \<notin> set s"
  by (induction s) (auto split: option.splits)

lemma rfind_char_append:
  "rfind_char x (s @ t) =
     (case rfind_char x t of Some i \<Rightarrow> Some (length s + i) | None \<Rightarrow> rfind_char x s)"
  by (induction s) (auto split: option.splits)

text \<open>The C locale's \<open>std::isspace\<close>: space and the control characters 9 to 13.\<close>

definition isspace :: "char \<Rightarrow> bool" where
  "isspace c \<longleftrightarrow> c = CHR '' '' \<or> (9 \<le> (of_char c :: nat) \<and> (of_char c :: nat) \<le> 13)"

text \<open>Dropping a class of characters at both ends, the shape every trimming loop has.\<close>

definition trim_by :: "(char \<Rightarrow> bool) \<Rightarrow> string \<Rightarrow> string" where
  "trim_by P s = rev (dropWhile P (rev (dropWhile P s)))"

lemma dropWhile_id: "(s = [] \<or> \<not> P (hd s)) \<Longrightarrow> dropWhile P s = s"
  by (cases s) auto

lemma dropWhile_result: "dropWhile P s = [] \<or> \<not> P (hd (dropWhile P s))"
  using hd_dropWhile [of P s] by (auto simp: dropWhile_eq_Nil_conv)

lemma trim_by_ends:
  "trim_by P s = [] \<or> (\<not> P (hd (trim_by P s)) \<and> \<not> P (last (trim_by P s)))"
proof (cases "trim_by P s = []")
  case False
  define t where "t = dropWhile P s"
  define u where "u = dropWhile P (rev t)"
  have tr: "trim_by P s = rev u" by (simp add: trim_by_def u_def t_def)
  with False have ne: "u \<noteq> []" by simp
  then have l: "\<not> P (last (trim_by P s))"
    unfolding tr last_rev using hd_dropWhile [of P "rev t"] by (simp add: u_def)
  have "takeWhile P (rev t) @ u = rev t" by (simp add: u_def)
  then have t: "t = rev u @ rev (takeWhile P (rev t))" by (metis rev_append rev_rev_ident)
  from t ne have "t \<noteq> []" by auto
  moreover have "hd t = hd (rev u)" using ne by (subst t) simp
  ultimately have "\<not> P (hd (trim_by P s))"
    using dropWhile_result [of P s] unfolding tr t_def [symmetric] by metis
  with l show ?thesis by simp
qed simp

lemma trim_by_id:
  "s = [] \<or> (\<not> P (hd s) \<and> \<not> P (last s)) \<Longrightarrow> trim_by P s = s"
  by (auto simp: trim_by_def dropWhile_id hd_rev)

lemma trim_by_idem [simp]: "trim_by P (trim_by P s) = trim_by P s"
  using trim_by_ends [of P s] by (rule trim_by_id)

lemma trim_surrounded:
  assumes "list_all P ind" "list_all P gap" "b = [] \<or> \<not> P (hd b) \<and> \<not> P (last b)"
  shows "trim_by P (ind @ b @ gap) = b"
proof (cases "b = []")
  case True
  then show ?thesis using assms
    by (auto simp: trim_by_def dropWhile_append2 list_all_iff dropWhile_eq_Nil_conv dest: set_dropWhileD)
next
  case False
  then have "dropWhile P (b @ gap) = b @ gap" "dropWhile P (rev b) = rev b"
    using assms by (simp_all add: dropWhile_id hd_rev)
  then have "dropWhile P (ind @ b @ gap) = b @ gap" "dropWhile P (rev gap @ rev b) = rev b"
    using assms dropWhile_append2 [of "rev gap" P "rev b"] by (simp_all add: dropWhile_append2 list_all_iff)
  then show ?thesis by (simp add: trim_by_def)
qed

text \<open>
  A line of a source that holds \<open>body\<close>: indentation, the body, blanks, a comment. \<open>P\<close> says which
  characters are blanks.
\<close>

definition decorated_by :: "(char \<Rightarrow> bool) \<Rightarrow> string \<Rightarrow> string \<Rightarrow> bool" where
  "decorated_by P body raw \<longleftrightarrow>
     (let line = dropWhile P raw; rest = dropWhile P (drop (length body) line)
      in prefix body line \<and> (rest = [] \<or> prefix ''//'' rest))"

lemma decorated_by_parts:
  assumes "decorated_by P body raw"
  obtains ind gap com where "raw = ind @ body @ gap @ com" "list_all P ind" "list_all P gap"
    "com = [] \<or> prefix ''//'' com"
proof -
  define ind gap com where "ind = takeWhile P raw"
    and "gap = takeWhile P (drop (length body) (dropWhile P raw))"
    and "com = dropWhile P (drop (length body) (dropWhile P raw))"
  have "raw = ind @ dropWhile P raw" by (simp add: ind_def)
  also have "dropWhile P raw = body @ drop (length body) (dropWhile P raw)"
  proof -
    have "prefix body (dropWhile P raw)" using assms by (simp add: decorated_by_def Let_def)
    then obtain r where "dropWhile P raw = body @ r" unfolding prefix_def by blast
    then show ?thesis by simp
  qed
  also have "drop (length body) (dropWhile P raw) = gap @ com" by (simp add: gap_def com_def)
  finally have "raw = ind @ body @ gap @ com" .
  moreover have "list_all P ind" "list_all P gap"
    by (auto simp: ind_def gap_def list_all_iff dest: set_takeWhileD)
  moreover have "com = [] \<or> prefix ''//'' com"
    using assms by (auto simp: decorated_by_def Let_def com_def)
  ultimately show thesis by (rule that)
qed

section \<open>Lines of a text file\<close>

text \<open>
  What a \<open>while (std::getline(in, line))\<close> loop sees: the text cut at each newline; a last
  line without newline counts when it has a character.
\<close>

fun getlines_from :: "string \<Rightarrow> string \<Rightarrow> string list" where
  "getlines_from cur [] = (if cur = [] then [] else [rev cur])"
| "getlines_from cur (c # cs) =
     (if c = CHR 0x0A then rev cur # getlines_from [] cs
      else getlines_from (c # cur) cs)"

definition getlines :: "string \<Rightarrow> string list" where
  "getlines s = getlines_from [] s"

definition unlines :: "string list \<Rightarrow> string" where
  "unlines ls = concat (map (\<lambda>l. l @ [CHR 0x0A]) ls)"

lemma getlines_from_line:
  "CHR 0x0A \<notin> set l \<Longrightarrow>
   getlines_from cur (l @ CHR 0x0A # rest) = (rev cur @ l) # getlines_from [] rest"
  by (induction l arbitrary: cur) auto

lemma getlines_unlines:
  "\<forall>l \<in> set ls. CHR 0x0A \<notin> set l \<Longrightarrow> getlines (unlines ls) = ls"
  by (induction ls) (auto simp: unlines_def getlines_def getlines_from_line)

section \<open>Decimal and hexadecimal rendering\<close>

definition digit_char :: "nat \<Rightarrow> char" where
  "digit_char d = ''0123456789abcdef'' ! d"

fun nat_to_string :: "nat \<Rightarrow> string" where
  "nat_to_string n =
     (if n < 10 then [digit_char n] else nat_to_string (n div 10) @ [digit_char (n mod 10)])"

declare nat_to_string.simps [simp del]

definition int_to_string :: "int \<Rightarrow> string" where
  "int_to_string i = (if i < 0 then CHR ''-'' # nat_to_string (nat (- i))
                      else nat_to_string (nat i))"

lemma nat_to_string_nonempty [simp]: "nat_to_string n \<noteq> []"
  by (subst nat_to_string.simps) simp

section \<open>Facts on lists the components share\<close>

lemma nth_take_drop_shift: "drop (length xs) (xs @ ys) = ys"
  by simp

lemma take_drop_middle: "take (length ys) (drop (length xs) (xs @ ys @ zs)) = ys"
  by simp

lemma list_update_middle: "(xs @ y # ys)[length xs := z] = xs @ z # ys"
  by simp

lemma foldl_snoc: "foldl f a (xs @ [x]) = f (foldl f a xs) x"
  by simp

section \<open>Coding and decoding\<close>

text \<open>
  The contract of a format: what \<open>enc\<close> writes, \<open>dec\<close> reads back. It is interpreted on every
  encoder of the program.
\<close>

locale codec =
  fixes enc :: "'a \<Rightarrow> 'b" and dec :: "'b \<Rightarrow> 'a option"
  assumes dec_enc: "dec (enc x) = Some x"
begin

lemma enc_inject: "enc x = enc y \<longleftrightarrow> x = y"
  by (metis dec_enc option.inject)

lemma dec_image: "b \<in> range enc \<Longrightarrow> \<exists>x. dec b = Some x \<and> enc x = b"
  by (auto simp: dec_enc)

end

section \<open>Transition systems\<close>

text \<open>
  The states that labelled steps lead to, and the contract of an invariant: every step keeps it.
  The state machines of the program interpret it, and so do the loops that fold an operation over
  a list, whose steps are functions.
\<close>

definition reaches :: "('e \<Rightarrow> 's \<Rightarrow> 's \<Rightarrow> bool) \<Rightarrow> 's \<Rightarrow> 's \<Rightarrow> bool" where
  "reaches move = rtranclp (\<lambda>s t. \<exists>e. move e s t)"

lemma reaches_refl [simp, intro]: "reaches move s s"
  by (simp add: reaches_def)

lemma reaches_step: "reaches move s t \<Longrightarrow> move e t u \<Longrightarrow> reaches move s u"
  unfolding reaches_def by (blast intro: rtranclp.rtrancl_into_rtrancl)

locale invariant =
  fixes move :: "'e \<Rightarrow> 's \<Rightarrow> 's \<Rightarrow> bool" and inv :: "'s \<Rightarrow> bool"
  assumes keep: "move e s t \<Longrightarrow> inv s \<Longrightarrow> inv t"
begin

lemma reach: "reaches move s t \<Longrightarrow> inv s \<Longrightarrow> inv t"
  unfolding reaches_def by (induction rule: rtranclp_induct) (auto intro: keep)

lemma run_ops: "(\<And>e s. move e s (f e s)) \<Longrightarrow> inv s \<Longrightarrow> inv (fold f es s)"
proof (induction es arbitrary: s)
  case (Cons e es)
  show ?case using Cons.IH [OF Cons.prems(1) keep [OF Cons.prems]] by simp
qed simp

lemma run_ops_left: "(\<And>e s. move e s (f s e)) \<Longrightarrow> inv s \<Longrightarrow> inv (foldl f s es)"
  using run_ops [of "\<lambda>e s. f s e" s es] by (simp add: foldl_conv_fold)

end

end
