(* ===== verification/Little_Endian.thy ===== *)
theory Little_Endian
  imports Prelude
begin

text \<open>
  The little-endian helpers of \<open>src/nanlang_cpp.cpp\<close> (\<open>append_u16_le\<close>, \<open>append_u32_le\<close>,
  \<open>append_u64_le\<close>, \<open>patch_i32_le\<close>, \<open>read_u32_le_ptr\<close>), which every binary format of the
  program is written with, and the readers \<open>le16\<close>, \<open>le32\<close>, \<open>le64\<close> that its formats promise
  to their consumers. Each \<open>append\<close> returns the grown vector.
\<close>

section \<open>Writing\<close>

definition append_u16_le :: "byte list \<Rightarrow> u16 \<Rightarrow> byte list" where
  "append_u16_le out v =
     out @ [ucast (v AND 0xFF)] @ [ucast (drop_bit 8 v AND 0xFF)]"

definition append_u32_le :: "byte list \<Rightarrow> u32 \<Rightarrow> byte list" where
  "append_u32_le out v =
     out @ [ucast (v AND 0xFF)] @ [ucast (drop_bit 8 v AND 0xFF)]
         @ [ucast (drop_bit 16 v AND 0xFF)] @ [ucast (drop_bit 24 v AND 0xFF)]"

definition append_u64_le :: "byte list \<Rightarrow> u64 \<Rightarrow> byte list" where
  "append_u64_le out v =
     append_u32_le (append_u32_le out (ucast (v AND 0xFFFFFFFF)))
                   (ucast (drop_bit 32 v AND 0xFFFFFFFF))"

text \<open>\<open>code[offset + k] = \<dots>\<close>: the caller guarantees the four positions exist.\<close>

definition patch_i32_le :: "byte list \<Rightarrow> nat \<Rightarrow> u32 \<Rightarrow> byte list" where
  "patch_i32_le code off v =
     code[off + 0 := ucast (v AND 0xFF),
          off + 1 := ucast (drop_bit 8 v AND 0xFF),
          off + 2 := ucast (drop_bit 16 v AND 0xFF),
          off + 3 := ucast (drop_bit 24 v AND 0xFF)]"

section \<open>Reading\<close>

text \<open>\<open>read_u32_le_ptr\<close> dereferences four bytes; with fewer left the C++ is undefined.\<close>

fun read_u32_le_ptr :: "byte list \<Rightarrow> u32 option" where
  "read_u32_le_ptr (p0 # p1 # p2 # p3 # _) =
     Some (ucast p0 OR push_bit 8 (ucast p1) OR push_bit 16 (ucast p2) OR push_bit 24 (ucast p3))"
| "read_u32_le_ptr _ = None"

definition le16 :: "byte list \<Rightarrow> u16" where
  "le16 bs = ucast (bs ! 0) OR push_bit 8 (ucast (bs ! 1))"

definition le32 :: "byte list \<Rightarrow> u32" where
  "le32 bs = ucast (bs ! 0) OR push_bit 8 (ucast (bs ! 1))
     OR push_bit 16 (ucast (bs ! 2)) OR push_bit 24 (ucast (bs ! 3))"

definition le64 :: "byte list \<Rightarrow> u64" where
  "le64 bs = ucast (le32 bs) OR push_bit 32 (ucast (le32 (drop 4 bs)))"

section \<open>Round trips\<close>

lemma read_u32_le_ptr_le32: "4 \<le> length bs \<Longrightarrow> read_u32_le_ptr bs = Some (le32 bs)"
  by (auto simp: le32_def numeral_eq_Suc Suc_le_length_iff)

lemma read_u32_le_ptr_None: "length bs < 4 \<Longrightarrow> read_u32_le_ptr bs = None"
  by (rule read_u32_le_ptr.cases [of bs]) auto

text \<open>The little-endian bytes of a value, which each \<open>append\<close> puts at the end.\<close>

definition le_u16 :: "u16 \<Rightarrow> byte list" where
  "le_u16 v = [ucast v, ucast (drop_bit 8 v)]"

definition le_u32 :: "u32 \<Rightarrow> byte list" where
  "le_u32 v = [ucast v, ucast (drop_bit 8 v), ucast (drop_bit 16 v), ucast (drop_bit 24 v)]"

definition le_u64 :: "u64 \<Rightarrow> byte list" where
  "le_u64 v = le_u32 (ucast v) @ le_u32 (ucast (drop_bit 32 v))"

text \<open>The \<open>& 0xFF\<close> before a narrowing cast changes nothing.\<close>

lemma ucast_and_FF [bytes_simps]: "(ucast (v AND 0xFF) :: byte) = ucast v"
proof -
  have m: "(0xFF :: 'a word) = mask 8" by (simp add: mask_eq_exp_minus_1)
  show ?thesis unfolding m by (rule bit_word_eqI) (auto simp: bit_simps dest: bit_imp_le_length)
qed

lemma ucast_and_FFFFFFFF [bytes_simps]: "(ucast (v AND 0xFFFFFFFF) :: u32) = ucast v"
proof -
  have m: "(0xFFFFFFFF :: 'a word) = mask 32" by (simp add: mask_eq_exp_minus_1)
  show ?thesis unfolding m by (rule bit_word_eqI) (auto simp: bit_simps dest: bit_imp_le_length)
qed

lemma append_u16_le [simp]: "append_u16_le out v = out @ le_u16 v"
  by (simp add: append_u16_le_def le_u16_def ucast_and_FF)

lemma append_u32_le [simp]: "append_u32_le out v = out @ le_u32 v"
  by (simp add: append_u32_le_def le_u32_def ucast_and_FF)

lemma append_u64_le [simp]: "append_u64_le out v = out @ le_u64 v"
  by (simp add: append_u64_le_def le_u64_def ucast_and_FFFFFFFF)

lemma length_le_u16 [simp]: "length (le_u16 v) = 2"
  by (simp add: le_u16_def)

lemma length_le_u32 [simp]: "length (le_u32 v) = 4"
  by (simp add: le_u32_def)

lemma length_le_u64 [simp]: "length (le_u64 v) = 8"
  by (simp add: le_u64_def)

lemma le16_le_u16 [simp]: "le16 (le_u16 v @ rest) = v"
  unfolding le16_def le_u16_def
  by (rule bit_word_eqI) (auto simp: bit_simps)

lemma le32_le_u32 [simp]: "le32 (le_u32 v @ rest) = v"
proof (rule bit_word_eqI)
  fix n assume "n < LENGTH(32)"
  then show "bit (le32 (le_u32 v @ rest)) n = bit v n"
    unfolding le32_def le_u32_def
    by (cases "n < 8"; cases "n < 16"; cases "n < 24") (auto simp: bit_simps nth_Cons')
qed

lemma le64_le_u64 [simp]: "le64 (le_u64 v @ rest) = v"
proof -
  have "le64 (le_u64 v @ rest) =
      ucast (ucast v :: u32) OR push_bit 32 (ucast (ucast (drop_bit 32 v) :: u32))"
    by (simp add: le_u64_def le64_def)
  also have "\<dots> = v"
    by (rule bit_word_eqI) (auto simp: bit_simps)
  finally show ?thesis .
qed

lemma le_u32_le32:
  assumes "4 \<le> length bs"
  shows "le_u32 (le32 bs) = take 4 bs"
proof -
  obtain a b c d r where bs: "bs = a # b # c # d # r"
    using assms by (auto simp: numeral_eq_Suc Suc_le_length_iff)
  have "ucast (le32 bs) = a" "ucast (drop_bit 8 (le32 bs)) = b"
    "ucast (drop_bit 16 (le32 bs)) = c" "ucast (drop_bit 24 (le32 bs)) = d"
    by (rule bit_word_eqI; auto simp: bs le32_def bit_simps dest: bit_imp_le_length)+
  then show ?thesis by (simp add: le_u32_def bs)
qed

lemma read_u32_le_ptr_le_u32 [simp]: "read_u32_le_ptr (le_u32 v @ rest) = Some v"
  by (simp add: read_u32_le_ptr_le32)

lemma le_u32_inject: "le_u32 v = le_u32 w \<longleftrightarrow> v = w"
  by (metis append_Nil2 le32_le_u32)

lemma le_u64_inject: "le_u64 v = le_u64 w \<longleftrightarrow> v = w"
  by (metis append_Nil2 le64_le_u64)

text \<open>Patching a four-byte hole writes exactly the little-endian bytes of the value.\<close>

lemma patch_i32_le_hole:
  "length hole = 4 \<Longrightarrow>
   patch_i32_le (pre @ hole @ post) (length pre) v = pre @ le_u32 v @ post"
  by (auto simp: patch_i32_le_def le_u32_def bytes_simps numeral_eq_Suc length_Suc_conv list_update_append)

lemma length_patch_i32_le [simp]: "length (patch_i32_le code off v) = length code"
  by (simp add: patch_i32_le_def)

end
