(* ===== verification/Aot_Codegen.thy ===== *)
theory Aot_Codegen
  imports Aot_Parser Little_Endian
begin

text \<open>
  The code generator \<open>x86_64Generator\<close> of \<open>src/nan_aot_compiler.cpp\<close>: the emission helpers,
  \<open>generate_instruction\<close>, \<open>generate_basic_block\<close>, \<open>generate_function\<close> and \<open>generate\<close>
  with its string pool and RIP-relative fixups. Each member function takes the generator's
  state and returns it updated; \<open>gen_log\<close> collects what is written to \<open>std::cout\<close>.
\<close>

section \<open>State and register numbers\<close>

record x86_64Generator =
  code :: "byte list"
  label_positions :: "string \<rightharpoonup> nat"
  label_fixups :: "(nat \<times> string) list"
  string_pool :: "string list"
  string_pool_offsets :: "nat list"
  print_fixups :: "(nat \<times> nat) list"
  gen_log :: string

definition generator_init :: x86_64Generator where
  "generator_init = \<lparr>code = [], label_positions = Map.empty, label_fixups = [],
     string_pool = [], string_pool_offsets = [], print_fixups = [], gen_log = []\<rparr>"

text \<open>\<open>RegisterAllocator\<close>'s register numbers.\<close>

definition RAX :: byte where "RAX = 0"
definition RCX :: byte where "RCX = 1"
definition RDX :: byte where "RDX = 2"
definition RBX :: byte where "RBX = 3"
definition RSP :: byte where "RSP = 4"
definition RBP :: byte where "RBP = 5"
definition RSI :: byte where "RSI = 6"
definition RDI :: byte where "RDI = 7"

section \<open>Emission helpers\<close>

definition emit_u8 :: "byte \<Rightarrow> x86_64Generator \<Rightarrow> x86_64Generator" where
  "emit_u8 b g = g\<lparr>code := code g @ [b]\<rparr>"

definition emit_u32 :: "u32 \<Rightarrow> x86_64Generator \<Rightarrow> x86_64Generator" where
  "emit_u32 dword g =
     emit_u8 (ucast (drop_bit 24 dword AND 0xFF))
      (emit_u8 (ucast (drop_bit 16 dword AND 0xFF))
        (emit_u8 (ucast (drop_bit 8 dword AND 0xFF))
          (emit_u8 (ucast (dword AND 0xFF)) g)))"

definition emit_u64 :: "u64 \<Rightarrow> x86_64Generator \<Rightarrow> x86_64Generator" where
  "emit_u64 qword g =
     emit_u32 (ucast (drop_bit 32 qword AND 0xFFFFFFFF))
      (emit_u32 (ucast (qword AND 0xFFFFFFFF)) g)"

definition emit_bytes :: "byte list \<Rightarrow> x86_64Generator \<Rightarrow> x86_64Generator" where
  "emit_bytes bytes g = g\<lparr>code := code g @ bytes\<rparr>"

definition emit_mov_reg_imm64 :: "byte \<Rightarrow> u64 \<Rightarrow> x86_64Generator \<Rightarrow> x86_64Generator" where
  "emit_mov_reg_imm64 reg imm g =
     (let rex_byte = (if 8 \<le> reg then 0x48 OR 0x01 else 0x48)
      in emit_u64 imm (emit_u8 (0xB8 + (reg AND 0x7)) (emit_u8 rex_byte g)))"

definition emit_add_reg_imm32 :: "byte \<Rightarrow> u32 \<Rightarrow> x86_64Generator \<Rightarrow> x86_64Generator" where
  "emit_add_reg_imm32 reg imm g =
     (let rex_byte = (if 8 \<le> reg then 0x48 OR 0x01 else 0x48)
      in emit_u32 imm (emit_u8 (0xC0 OR (reg AND 0x7)) (emit_u8 0x81 (emit_u8 rex_byte g))))"

definition emit_mov_reg_reg :: "byte \<Rightarrow> byte \<Rightarrow> x86_64Generator \<Rightarrow> x86_64Generator" where
  "emit_mov_reg_reg dst src g =
     (let rex_byte = (if 8 \<le> dst then 0x48 OR 0x01 else 0x48);
          rex_byte = (if 8 \<le> src then rex_byte OR 0x04 else rex_byte)
      in emit_u8 (0xC0 OR push_bit 3 (src AND 0x7) OR (dst AND 0x7))
           (emit_u8 0x89 (emit_u8 rex_byte g)))"

definition emit_call_near :: "u32 \<Rightarrow> x86_64Generator \<Rightarrow> x86_64Generator" where
  "emit_call_near offset g = emit_u32 offset (emit_u8 0xE8 g)"

definition emit_ret :: "x86_64Generator \<Rightarrow> x86_64Generator" where
  "emit_ret g = emit_u8 0xC3 g"

definition emit_syscall :: "x86_64Generator \<Rightarrow> x86_64Generator" where
  "emit_syscall g = emit_u8 0x05 (emit_u8 0x0F g)"

definition emit_lea_rsi_rip_placeholder :: "x86_64Generator \<Rightarrow> nat \<times> x86_64Generator" where
  "emit_lea_rsi_rip_placeholder g =
     (let g = emit_u8 0x35 (emit_u8 0x8D (emit_u8 0x48 g));
          disp_pos = length (code g)
      in (disp_pos, emit_u32 0 g))"

section \<open>Instructions, blocks, functions\<close>

definition generate_instruction :: "IRInstruction \<Rightarrow> x86_64Generator \<Rightarrow> x86_64Generator" where
  "generate_instruction instr g =
     (case in_op instr of
        IR_MOV \<Rightarrow>
          (if iv_kind (in_src1 instr) = Some Immediate
           then emit_mov_reg_imm64 (ucast (iv_value (in_dst instr))) (iv_value (in_src1 instr)) g
           else g)
      | IR_PRINT \<Rightarrow>
          (let text = in_label instr;
               text_len = word_of_nat (length text);
               pool_index = length (string_pool g);
               g = g\<lparr>string_pool := string_pool g @ [text],
                     string_pool_offsets := string_pool_offsets g @ [0]\<rparr>;
               g = emit_mov_reg_imm64 RAX 1 g;
               g = emit_mov_reg_imm64 RDI 1 g;
               (disp_pos, g) = emit_lea_rsi_rip_placeholder g;
               g = g\<lparr>print_fixups := print_fixups g @ [(disp_pos, pool_index)]\<rparr>;
               g = emit_mov_reg_imm64 RDX text_len g
           in emit_syscall g)
      | IR_HALT \<Rightarrow>
          emit_syscall (emit_mov_reg_imm64 RDI 0 (emit_mov_reg_imm64 RAX 60 g))
      | _ \<Rightarrow> emit_u8 0x90 g)"

definition generate_basic_block :: "IRBasicBlock \<Rightarrow> x86_64Generator \<Rightarrow> x86_64Generator" where
  "generate_basic_block block g = fold generate_instruction (bb_instructions block) g"

definition generate_function :: "IRFunction \<Rightarrow> x86_64Generator \<Rightarrow> x86_64Generator" where
  "generate_function func g =
     (let g = g\<lparr>gen_log := gen_log g @ ''[AOT] Generating function: '' @ fn_name func @ [CHR 0x0A]\<rparr>;
          is_main = (fn_name func = ''main'');
          g = (if \<not> is_main then
                 (let g = emit_u8 0xE5 (emit_u8 0x89 (emit_u8 0x48 (emit_u8 0x55 g)))
                  in if 0 < fn_stack_size func
                     then emit_add_reg_imm32 RSP (- ucast (fn_stack_size func)) g else g)
               else g);
          g = fold (\<lambda>block g. generate_basic_block block
                 (g\<lparr>label_positions := (label_positions g)(bb_label block \<mapsto> length (code g))\<rparr>))
                (fn_blocks func) g;
          g = (if \<not> is_main then emit_u8 0x5D (emit_u8 0xEC (emit_u8 0x89 (emit_u8 0x48 g))) else g)
      in emit_ret g)"

section \<open>Pool layout and fixups\<close>

fun pool_offsets :: "nat \<Rightarrow> string list \<Rightarrow> nat list" where
  "pool_offsets running_offset [] = []"
| "pool_offsets running_offset (s # ss) =
     running_offset # pool_offsets (running_offset + length s) ss"

text \<open>The patch of one fixup: \<open>disp = str_off - instr_end\<close>, truncated to 32 bits.\<close>

definition patch_fixup :: "nat \<Rightarrow> nat list \<Rightarrow> nat \<times> nat \<Rightarrow> byte list \<Rightarrow> byte list" where
  "patch_fixup pool_base_in_code offsets fix bytes =
     (let disp_pos = fst fix;
          str_idx = snd fix;
          instr_end = disp_pos + 4;
          str_off = pool_base_in_code + offsets ! str_idx;
          disp = int str_off - int instr_end;
          disp32 = (word_of_int disp :: u32)
      in bytes[disp_pos + 0 := ucast (disp32 AND 0xFF),
               disp_pos + 1 := ucast (drop_bit 8 disp32 AND 0xFF),
               disp_pos + 2 := ucast (drop_bit 16 disp32 AND 0xFF),
               disp_pos + 3 := ucast (drop_bit 24 disp32 AND 0xFF)])"

definition generate :: "IRFunction list \<Rightarrow> x86_64Generator \<Rightarrow> byte list \<times> x86_64Generator" where
  "generate functions g =
     (let g = g\<lparr>code := [], label_positions := Map.empty, label_fixups := [],
               print_fixups := [], string_pool := [], string_pool_offsets := []\<rparr>;
          g = fold generate_function functions g;
          pool_base_in_code = length (code g);
          g = g\<lparr>string_pool_offsets := pool_offsets 0 (string_pool g)\<rparr>;
          g = g\<lparr>code := fold (patch_fixup pool_base_in_code (string_pool_offsets g))
                             (print_fixups g) (code g)\<rparr>;
          g = g\<lparr>code := code g @ concat (map bytes_of (string_pool g))\<rparr>
      in (code g, g))"

end
