(* ===== verification/X86_Machine.thy ===== *)
theory X86_Machine
  imports Little_Endian
begin

text \<open>
  The reference machine the code generators are judged against: the few x86-64 instructions
  they emit, decoded from the bytes of the loaded image as the instruction set manual
  documents them, and the two Linux system calls \<open>write\<close> (to standard output) and
  \<open>exit\<close>. It specifies what emitted bytes mean and translates no source file. An
  instruction outside the subset, a fetch or a read outside the image, or any other system
  call is a \<open>Fault\<close>. A \<open>write\<close> is taken to transfer the whole buffer.
\<close>

datatype x86_instr =
    MovImm64 nat u64
  | MovImm32 nat u32
  | LeaRsiRip u32
  | XorRdiRdi
  | Syscall
  | Ret
  | Nop

text \<open>\<open>decode\<close> returns the instruction at the head of the bytes and its length.\<close>

definition decode :: "byte list \<Rightarrow> (x86_instr \<times> nat) option" where
  "decode bs =
     (if take 1 bs = [0x90] then Some (Nop, 1)
      else if take 1 bs = [0xC3] then Some (Ret, 1)
      else if take 2 bs = [0x0F, 0x05] then Some (Syscall, 2)
      else if 10 \<le> length bs \<and> bs ! 0 = 0x48 \<and> bs ! 1 AND 0xF8 = 0xB8
        then Some (MovImm64 (unat (bs ! 1 AND 0x07)) (le64 (drop 2 bs)), 10)
      else if 7 \<le> length bs \<and> take 2 bs = [0x48, 0xC7] \<and> bs ! 2 AND 0xF8 = 0xC0
        then Some (MovImm32 (unat (bs ! 2 AND 0x07)) (le32 (drop 3 bs)), 7)
      else if 7 \<le> length bs \<and> take 3 bs = [0x48, 0x8D, 0x35]
        then Some (LeaRsiRip (le32 (drop 3 bs)), 7)
      else if take 3 bs = [0x48, 0x31, 0xFF] then Some (XorRdiRdi, 3)
      else None)"

record machine =
  m_base :: u64
  m_image :: "byte list"
  m_regs :: "nat \<Rightarrow> u64"
  m_rip :: u64
  m_out :: "byte list"

datatype outcome = Running machine | Exited u64 "byte list" | Fault

definition read_mem :: "machine \<Rightarrow> u64 \<Rightarrow> nat \<Rightarrow> byte list option" where
  "read_mem m addr n =
     (let k = unat (addr - m_base m)
      in if k + n \<le> length (m_image m) then Some (take n (drop k (m_image m))) else None)"

definition set_reg :: "nat \<Rightarrow> u64 \<Rightarrow> machine \<Rightarrow> machine" where
  "set_reg r v m = m\<lparr>m_regs := (m_regs m)(r := v)\<rparr>"

text \<open>System call numbers and arguments: 0 is rax, 1 rcx, 2 rdx, 6 rsi, 7 rdi.\<close>

definition sys_call :: "machine \<Rightarrow> outcome" where
  "sys_call m =
     (if m_regs m 0 = 60 then Exited (m_regs m 7) (m_out m)
      else if m_regs m 0 = 1 \<and> m_regs m 7 = 1 then
        (case read_mem m (m_regs m 6) (unat (m_regs m 2)) of
           Some bs \<Rightarrow> Running (set_reg 1 (m_rip m) (set_reg 0 (m_regs m 2) (m\<lparr>m_out := m_out m @ bs\<rparr>)))
         | None \<Rightarrow> Fault)
      else Fault)"

fun exec_instr :: "x86_instr \<Rightarrow> machine \<Rightarrow> outcome" where
  "exec_instr (MovImm64 r v) m = Running (set_reg r v m)"
| "exec_instr (MovImm32 r v) m = Running (set_reg r (scast v) m)"
| "exec_instr (LeaRsiRip d) m = Running (set_reg 6 (m_rip m + scast d) m)"
| "exec_instr XorRdiRdi m = Running (set_reg 7 0 m)"
| "exec_instr Syscall m = sys_call m"
| "exec_instr Ret m = Fault"
| "exec_instr Nop m = Running m"

text \<open>One step: fetch at the instruction pointer, advance it, execute.\<close>

definition step :: "machine \<Rightarrow> outcome" where
  "step m =
     (let k = unat (m_rip m - m_base m)
      in case decode (drop k (m_image m)) of
           None \<Rightarrow> Fault
         | Some (i, len) \<Rightarrow> exec_instr i (m\<lparr>m_rip := m_rip m + word_of_nat len\<rparr>))"

fun run :: "nat \<Rightarrow> machine \<Rightarrow> outcome" where
  "run 0 m = Running m"
| "run (Suc n) m = (case step m of Running m' \<Rightarrow> run n m' | r \<Rightarrow> r)"

lemma run_add:
  "run (a + b) m = (case run a m of Running m' \<Rightarrow> run b m' | r \<Rightarrow> r)"
proof (induction a arbitrary: m)
  case (Suc a)
  then show ?case by (cases "step m") auto
qed simp

section \<open>Decoding emitted instructions\<close>

lemma decode_syscall [simp]: "decode (0x0F # 0x05 # rest) = Some (Syscall, 2)"
  by (simp add: decode_def)

lemma decode_mov_imm64:
  "r AND 0xF8 = 0xB8 \<Longrightarrow>
   decode (0x48 # r # le_u64 v @ rest) = Some (MovImm64 (unat (r AND 0x07)) v, 10)"
  by (simp add: decode_def)

lemma decode_mov_imm32:
  "r AND 0xF8 = 0xC0 \<Longrightarrow>
   decode (0x48 # 0xC7 # r # le_u32 v @ rest) = Some (MovImm32 (unat (r AND 0x07)) v, 7)"
  by (simp add: decode_def)

lemma decode_lea [simp]:
  "decode (0x48 # 0x8D # 0x35 # le_u32 d @ rest) = Some (LeaRsiRip d, 7)"
  by (simp add: decode_def)

lemma decode_xor [simp]:
  "decode (0x48 # 0x31 # 0xFF # rest) = Some (XorRdiRdi, 3)"
  by (simp add: decode_def)

text \<open>
  Where execution stands in the image: the pointer is \<open>length pre\<close> bytes into it.
\<close>

definition at :: "machine \<Rightarrow> byte list \<Rightarrow> byte list \<Rightarrow> bool" where
  "at m pre rest \<longleftrightarrow>
     m_image m = pre @ rest \<and> m_rip m = m_base m + word_of_nat (length pre) \<and>
     length (pre @ rest) < 2 ^ 63"

lemma unat_of_nat_small: "k < 2 ^ 63 \<Longrightarrow> unat (word_of_nat k :: u64) = k"
  by (simp add: unat_of_nat take_bit_nat_eq_self)

lemma step_at:
  assumes "at m pre (ins @ rest)" and "decode (ins @ rest) = Some (i, length ins)"
  shows "step m = exec_instr i (m\<lparr>m_rip := m_base m + word_of_nat (length (pre @ ins))\<rparr>)"
proof -
  have k: "unat (m_rip m - m_base m) = length pre"
    using assms(1) by (simp add: at_def unat_of_nat_small)
  show ?thesis
    using assms unfolding step_def k by (simp add: at_def algebra_simps)
qed

section \<open>Straight-line blocks\<close>

text \<open>
  An instruction that only sets register \<open>k\<close> to \<open>v\<close>: \<open>sets k v ins\<close> holds of its bytes.
\<close>

definition sets :: "nat \<Rightarrow> u64 \<Rightarrow> byte list \<Rightarrow> bool" where
  "sets k v ins \<longleftrightarrow>
     (\<exists>i. (\<forall>rest. decode (ins @ rest) = Some (i, length ins)) \<and>
          (\<forall>m. exec_instr i m = Running (set_reg k v m)))"

definition after :: "machine \<Rightarrow> nat \<Rightarrow> nat \<Rightarrow> u64 \<Rightarrow> machine" where
  "after m pos k v = set_reg k v (m\<lparr>m_rip := m_base m + word_of_nat pos\<rparr>)"

lemma after_simps [simp]:
  "m_base (after m pos k v) = m_base m" "m_image (after m pos k v) = m_image m"
  "m_out (after m pos k v) = m_out m" "m_rip (after m pos k v) = m_base m + word_of_nat pos"
  "m_regs (after m pos k v) r = (if r = k then v else m_regs m r)"
  by (simp_all add: after_def set_reg_def)

lemma at_after:
  "at m pre (ins @ rest) \<Longrightarrow> at (after m (length pre + length ins) k v) (pre @ ins) rest"
  by (auto simp: at_def)

lemma step_sets:
  assumes "at m pre (ins @ rest)" and "sets k v ins"
  shows "step m = Running (after m (length pre + length ins) k v)"
  using step_at [OF assms(1)] assms(2) by (auto simp: sets_def after_def)

lemma step_lea:
  assumes "at m pre (([0x48, 0x8D, 0x35] @ le_u32 d) @ rest)"
  shows "step m = Running (after m (length pre + 7) 6 (m_base m + word_of_nat (length pre + 7) + scast d))"
  using step_at [OF assms] by (simp add: after_def add.commute)

lemma step_syscall:
  assumes "at m pre ([0x0F, 0x05] @ rest)"
  shows "step m = sys_call (m\<lparr>m_rip := m_base m + word_of_nat (length pre + 2)\<rparr>)"
  using step_at [OF assms] by (simp add: add.commute)

text \<open>\<open>write(1, text, n)\<close>: the shape of both generators' print blocks.\<close>

definition write_block :: "byte list \<Rightarrow> byte list \<Rightarrow> u32 \<Rightarrow> byte list \<Rightarrow> byte list" where
  "write_block set_rax set_rdi d set_rdx =
     set_rax @ set_rdi @ ([0x48, 0x8D, 0x35] @ le_u32 d) @ set_rdx @ [0x0F, 0x05]"

lemma run_write_block:
  assumes a: "at m pre (write_block i1 i2 d i3 @ rest)"
    and sets: "sets 0 1 i1" "sets 7 1 i2" "sets 2 n i3" and n: "unat n = length bs"
    and rd: "read_mem m (m_base m + word_of_nat (length pre + length i1 + length i2 + 7) + scast d)
               (length bs) = Some bs"
  shows "\<exists>m'. run 5 m = Running m' \<and> at m' (pre @ write_block i1 i2 d i3) rest \<and>
              m_base m' = m_base m \<and> m_out m' = m_out m @ bs"
proof -
  let ?lea = "[0x48, 0x8D, 0x35] @ le_u32 d"
  let ?p = "length pre + length i1 + length i2"
  define buf where "buf = m_base m + word_of_nat (?p + 7) + scast d"
  define m1 where "m1 = after m (length pre + length i1) 0 1"
  define m2 where "m2 = after m1 ?p 7 1"
  define m3 where "m3 = after m2 (?p + 7) 6 buf"
  define m4 where "m4 = after m3 (?p + 7 + length i3) 2 n"
  have a0: "at m pre (i1 @ i2 @ ?lea @ i3 @ [0x0F, 0x05] @ rest)"
    using a by (simp add: write_block_def)
  have a1: "at m1 (pre @ i1) (i2 @ ?lea @ i3 @ [0x0F, 0x05] @ rest)"
    unfolding m1_def by (rule at_after [OF a0])
  have a2: "at m2 (pre @ i1 @ i2) (?lea @ i3 @ [0x0F, 0x05] @ rest)"
    using at_after [OF a1, of 7 1] by (simp add: m2_def add.assoc)
  have a3: "at m3 (pre @ i1 @ i2 @ ?lea) (i3 @ [0x0F, 0x05] @ rest)"
    using at_after [of m2 "pre @ i1 @ i2" ?lea] a2 by (simp add: m3_def add.assoc)
  have a4: "at m4 (pre @ i1 @ i2 @ ?lea @ i3) ([0x0F, 0x05] @ rest)"
    using at_after [OF a3, of 2 n] by (simp add: m4_def add.assoc)
  have steps: "step m = Running m1" "step m1 = Running m2" "step m2 = Running m3" "step m3 = Running m4"
    using step_sets [OF a0 sets(1)] step_sets [OF a1 sets(2)] step_lea [of m2 _ d, OF a2] step_sets [OF a3 sets(3)]
    by (simp_all add: m1_def m2_def m3_def m4_def buf_def add.assoc)
  define m4' where "m4' = m4\<lparr>m_rip := m_base m + word_of_nat (?p + 7 + length i3 + 2)\<rparr>"
  have fields: "m_image m4' = m_image m" "m_base m4' = m_base m" "m_out m4' = m_out m" "m_base m4 = m_base m"
    "m_regs m4' 0 = 1" "m_regs m4' 7 = 1" "m_regs m4' 6 = buf" "m_regs m4' 2 = n"
    by (simp_all add: m4'_def m4_def m3_def m2_def m1_def)
  have rd4: "read_mem m4' buf (unat n) = Some bs"
    using rd by (simp add: read_mem_def Let_def fields n buf_def split: if_splits)
  define m5 where "m5 = set_reg 1 (m_rip m4') (set_reg 0 n (m4'\<lparr>m_out := m_out m4' @ bs\<rparr>))"
  have "step m4 = sys_call m4'"
    using step_syscall [OF a4] by (simp add: m4'_def fields(4) add.assoc)
  also have "\<dots> = Running m5"
    using rd4 by (simp add: sys_call_def fields(5-8) m5_def)
  finally have s5: "step m4 = Running m5" .
  have "at m5 (pre @ write_block i1 i2 d i3) rest"
    using a4 by (simp add: at_def m5_def m4'_def set_reg_def fields(4) write_block_def add.assoc)
  moreover have "run 5 m = Running m5"
    by (simp add: numeral_eq_Suc steps s5)
  ultimately show ?thesis
    by (auto simp: m5_def set_reg_def fields)
qed

text \<open>\<open>exit(0)\<close>.\<close>

lemma run_exit_block:
  assumes a: "at m pre ((i1 @ i2 @ [0x0F, 0x05]) @ rest)" and sets: "sets 0 60 i1" "sets 7 0 i2"
  shows "run 3 m = Exited 0 (m_out m)"
proof -
  define m1 where "m1 = after m (length pre + length i1) 0 60"
  define m2 where "m2 = after m1 (length pre + length i1 + length i2) 7 0"
  have a0: "at m pre (i1 @ i2 @ [0x0F, 0x05] @ rest)" using a by simp
  have a1: "at m1 (pre @ i1) (i2 @ [0x0F, 0x05] @ rest)"
    unfolding m1_def by (rule at_after [OF a0])
  have a2: "at m2 (pre @ i1 @ i2) ([0x0F, 0x05] @ rest)"
    using at_after [OF a1, of 7 0] by (simp add: m2_def add.assoc)
  have "step m = Running m1" "step m1 = Running m2" "step m2 = Exited 0 (m_out m)"
    using step_sets [OF a0 sets(1)] step_sets [OF a1 sets(2)] step_syscall [OF a2]
    by (simp_all add: m1_def m2_def sys_call_def add.assoc)
  then show ?thesis by (simp add: numeral_eq_Suc)
qed

end
