(* ===== verification/Emitter.thy ===== *)
theory Emitter
  imports X86_Machine
begin

text \<open>
  The interface both code generators of the program (\<open>x86_64Generator\<close> and
  \<open>emit_native_payload\<close>) provide: a program is a list of items, each a text to print or the
  exit; its image is the items' code blocks, a tail, and the pool of all the texts, each
  print block reaching its text by a RIP-relative displacement. The locale \<open>emitter\<close> asks
  what a print block and the exit block do on the reference machine, and proves once that the
  whole image prints the texts up to the first exit and terminates with status 0.
\<close>

datatype item = Print string | Exit

fun item_pool :: "item list \<Rightarrow> string list" where
  "item_pool [] = []"
| "item_pool (Print t # is) = t # item_pool is"
| "item_pool (Exit # is) = item_pool is"

text \<open>The specification: the texts before the first exit; \<open>None\<close> when there is none.\<close>

fun item_output :: "item list \<Rightarrow> string option" where
  "item_output [] = None"
| "item_output (Exit # is) = Some []"
| "item_output (Print t # is) = map_option ((@) t) (item_output is)"

text \<open>
  \<open>lay pc xc dpos S off p items\<close>: the code of \<open>items\<close> at offset \<open>off\<close>, their texts at
  offset \<open>p\<close> of a pool that starts at \<open>S\<close>; \<open>dpos\<close> is where a print block holds its
  displacement.
\<close>

definition text_disp :: "nat \<Rightarrow> nat \<Rightarrow> nat \<Rightarrow> nat \<Rightarrow> u32" where
  "text_disp dpos S off p = word_of_int (int (S + p) - int (off + dpos + 4))"

fun lay :: "(u32 \<Rightarrow> nat \<Rightarrow> byte list) \<Rightarrow> byte list \<Rightarrow> nat \<Rightarrow> nat \<Rightarrow> nat \<Rightarrow> nat \<Rightarrow> item list \<Rightarrow> byte list" where
  "lay pc xc dpos S off p [] = []"
| "lay pc xc dpos S off p (Print t # is) =
     pc (text_disp dpos S off p) (length t) @
     lay pc xc dpos S (off + length (pc (text_disp dpos S off p) (length t))) (p + length t) is"
| "lay pc xc dpos S off p (Exit # is) = xc @ lay pc xc dpos S (off + length xc) p is"

definition pool_bytes :: "item list \<Rightarrow> byte list" where
  "pool_bytes is = concat (map bytes_of (item_pool is))"

lemma pool_bytes_simps [simp]:
  "pool_bytes [] = []"
  "pool_bytes (Print t # is) = bytes_of t @ pool_bytes is"
  "pool_bytes (Exit # is) = pool_bytes is"
  by (simp_all add: pool_bytes_def)

text \<open>With blocks of constant sizes the code's length does not depend on the layout.\<close>

fun code_size :: "nat \<Rightarrow> nat \<Rightarrow> item list \<Rightarrow> nat" where
  "code_size plen xlen [] = 0"
| "code_size plen xlen (Print t # is) = plen + code_size plen xlen is"
| "code_size plen xlen (Exit # is) = xlen + code_size plen xlen is"

lemma length_lay:
  "(\<And>d n. length (pc d n) = plen) \<Longrightarrow>
   length (lay pc xc dpos S off p is) = code_size plen (length xc) is"
proof (induction "is" arbitrary: off p)
  case (Cons i "is")
  then show ?case by (cases i) simp_all
qed simp

lemma item_output_append:
  "item_output (xs @ ys) =
     (case item_output xs of Some out \<Rightarrow> Some out
      | None \<Rightarrow> map_option ((@) (concat (item_pool xs))) (item_output ys))"
proof (induction xs rule: item_output.induct)
  case 1
  then show ?case by (cases "item_output ys") auto
next
  case (3 t xs)
  then show ?case by (cases "item_output ys") (auto split: option.splits)
qed simp

lemma scast_small: "0 \<le> d \<Longrightarrow> d < 2 ^ 31 \<Longrightarrow> scast (word_of_int d :: u32) = (word_of_int d :: u64)"
proof -
  assume "0 \<le> d" "d < 2 ^ 31"
  then have "sint (word_of_int d :: u32) = d"
    by (simp add: signed_take_bit_int_eq_self sint_sbintrunc')
  then show ?thesis by (simp add: scast_eq)
qed

lemma word_of_nat_plus_int:
  "int a + d = int b \<Longrightarrow> word_of_nat a + word_of_int d = (word_of_nat b :: u64)"
  by (metis of_int_add of_int_of_nat_eq)

lemma read_mem_middle:
  assumes "m_image m = a @ bs @ c" and "length (a @ bs @ c) < 2 ^ 63"
    and "addr = m_base m + word_of_nat (length a)"
  shows "read_mem m addr (length bs) = Some bs"
proof -
  have "unat (addr - m_base m) = length a"
    using assms(2) by (simp add: assms(3) unat_of_nat_small)
  then show ?thesis by (simp add: read_mem_def assms(1))
qed

locale emitter =
  fixes print_code :: "u32 \<Rightarrow> nat \<Rightarrow> byte list"
    and exit_code :: "byte list"
    and disp_at :: nat
  assumes disp_inside: "disp_at + 4 \<le> length (print_code d n)"
    and run_print:
      "at m pre (print_code d (length bs) @ rest) \<Longrightarrow> length bs < 2 ^ 31 \<Longrightarrow>
       read_mem m (m_base m + word_of_nat (length pre + disp_at + 4) + scast d) (length bs) = Some bs \<Longrightarrow>
       \<exists>m'. run 5 m = Running m' \<and> at m' (pre @ print_code d (length bs)) rest \<and>
            m_base m' = m_base m \<and> m_out m' = m_out m @ bs"
    and run_exit: "at m pre (exit_code @ rest) \<Longrightarrow> run 3 m = Exited 0 (m_out m)"
begin

lemma run_items:
  assumes "item_output is = Some out"
    and "at m (pre @ done) (lay print_code exit_code disp_at S (length done) p is @ tail @ texts @ pool_bytes is)"
    and "S = length done + length (lay print_code exit_code disp_at S (length done) p is) + length tail"
    and "p = length texts" and "S + p + length (pool_bytes is) < 2 ^ 31"
  shows "\<exists>n. run n m = Exited 0 (m_out m @ bytes_of out)"
  using assms
proof (induction "is" arbitrary: m "done" p texts out)
  case Nil
  then show ?case by simp
next
  case (Cons i "is")
  let ?lay = "lay print_code exit_code disp_at S"
  show ?case
  proof (cases i)
    case Exit
    then have "at m (pre @ done) (exit_code @ (?lay (length done + length exit_code) p is @ tail @ texts @ pool_bytes is))"
      using Cons.prems(2) by simp
    then have "run 3 m = Exited 0 (m_out m)" by (rule run_exit)
    moreover have "out = []" using Cons.prems(1) Exit by simp
    ultimately show ?thesis by auto
  next
    case (Print t)
    define d where "d = text_disp disp_at S (length done) p"
    define b where "b = print_code d (length t)"
    define rest where "rest = ?lay (length done + length b) (p + length t) is"
    have lay: "?lay (length done) p (i # is) = b @ rest"
      by (simp add: Print b_def d_def rest_def)
    from Cons.prems(1) Print obtain o' where o': "item_output is = Some o'" "out = t @ o'" by auto
    have S: "S = length done + length b + length rest + length tail"
      using Cons.prems(3) unfolding lay by simp
    have lb: "disp_at + 4 \<le> length b" unfolding b_def by (rule disp_inside)
    define delta where "delta = int (S + p) - int (length done + disp_at + 4)"
    have delta: "0 \<le> delta" "delta < 2 ^ 31"
      using S lb Cons.prems(5) by (auto simp: delta_def)
    have im: "m_image m = (pre @ done @ b @ rest @ tail @ texts) @ bytes_of t @ pool_bytes is"
      and small: "length ((pre @ done @ b @ rest @ tail @ texts) @ bytes_of t @ pool_bytes is) < 2 ^ 63"
      using Cons.prems(2) unfolding lay by (simp_all add: at_def Print)
    have "m_base m + word_of_nat (length (pre @ done) + disp_at + 4) + scast d =
        m_base m + word_of_nat (length (pre @ done @ b @ rest @ tail @ texts))"
    proof -
      have "scast d = (word_of_int delta :: u64)"
        unfolding d_def text_disp_def delta_def [symmetric] using delta by (rule scast_small)
      moreover have "int (length (pre @ done) + disp_at + 4) + delta =
          int (length (pre @ done @ b @ rest @ tail @ texts))"
        using S Cons.prems(4) by (simp add: delta_def)
      then have "word_of_nat (length (pre @ done) + disp_at + 4) + word_of_int delta =
          (word_of_nat (length (pre @ done @ b @ rest @ tail @ texts)) :: u64)"
        by (rule word_of_nat_plus_int)
      ultimately show ?thesis by (simp only: add.assoc)
    qed
    note e = this
    have rd: "read_mem m (m_base m + word_of_nat (length (pre @ done) + disp_at + 4) + scast d)
        (length (bytes_of t)) = Some (bytes_of t)"
      by (rule read_mem_middle [OF im small e])
    have at1: "at m (pre @ done) (print_code d (length (bytes_of t)) @ (rest @ tail @ texts @ pool_bytes (i # is)))"
      using Cons.prems(2) unfolding lay by (simp add: b_def)
    have lt: "length (bytes_of t) < 2 ^ 31" using Cons.prems(5) by (simp add: Print)
    from run_print [OF at1 lt rd] obtain m' where m': "run 5 m = Running m'"
      "at m' (pre @ done @ b) (rest @ tail @ texts @ pool_bytes (i # is))"
      "m_base m' = m_base m" "m_out m' = m_out m @ bytes_of t"
      by (auto simp: b_def)
    have "\<exists>n. run n m' = Exited 0 (m_out m' @ bytes_of o')"
    proof (rule Cons.IH [OF o'(1)])
      show "at m' (pre @ done @ b) (?lay (length (done @ b)) (p + length t) is @ tail @ (texts @ bytes_of t) @ pool_bytes is)"
        using m'(2) by (simp add: rest_def Print)
      show "S = length (done @ b) + length (?lay (length (done @ b)) (p + length t) is) + length tail"
        using S by (simp add: rest_def)
    qed (use Cons.prems(4,5) in \<open>simp_all add: Print\<close>)
    then obtain n where "run n m' = Exited 0 (m_out m' @ bytes_of o')" by blast
    then have "run (5 + n) m = Exited 0 (m_out m @ bytes_of out)"
      by (simp add: run_add m' o')
    then show ?thesis by blast
  qed
qed

text \<open>The image from its first block, behind any header \<open>pre\<close>.\<close>

lemma run_image:
  assumes out: "item_output is = Some out"
    and S: "S = length (lay print_code exit_code disp_at S 0 0 is @ tail)"
    and im: "m_image m = pre @ lay print_code exit_code disp_at S 0 0 is @ tail @ pool_bytes is"
    and rip: "m_rip m = m_base m + word_of_nat (length pre)"
    and small: "length (m_image m) < 2 ^ 31"
  shows "\<exists>n. run n m = Exited 0 (m_out m @ bytes_of out)"
proof -
  have "at m (pre @ []) (lay print_code exit_code disp_at S (length []) 0 is @ tail @ [] @ pool_bytes is)"
    using small unfolding at_def im by (simp add: rip)
  moreover have "S + 0 + length (pool_bytes is) < 2 ^ 31"
    using small S unfolding im by simp
  ultimately show ?thesis
    using run_items [OF out, of m pre "[]" S 0 tail "[]"] S by simp
qed

end

end
