(* ===== verification/Aot_Correct.thy ===== *)
theory Aot_Correct
  imports Aot_Codegen Emitter
begin

text \<open>
  The code generator of \<open>Aot_Codegen\<close> against the reference machine: the blocks it emits for
  \<open>PRINT\<close> and \<open>HALT\<close> interpret the locale \<open>emitter\<close>, its placeholders and fixups amount to
  the layout \<open>lay\<close>, and so the image \<open>generate\<close> returns prints what the IR says.
\<close>

section \<open>The emitted blocks\<close>

lemma code_emit [simp]:
  "code (emit_u8 b g) = code g @ [b]"
  "code (emit_u32 d g) = code g @ le_u32 d"
  "code (emit_u64 q g) = code g @ le_u64 q"
  by (simp_all add: emit_u8_def emit_u32_def emit_u64_def le_u64_def le_u32_def bytes_simps)

lemma emit_frame [simp]:
  "string_pool (emit_u8 b g) = string_pool g"
  "string_pool (emit_u32 d g) = string_pool g"
  "string_pool (emit_u64 q g) = string_pool g"
  "print_fixups (emit_u8 b g) = print_fixups g"
  "print_fixups (emit_u32 d g) = print_fixups g"
  "print_fixups (emit_u64 q g) = print_fixups g"
  by (simp_all add: emit_u8_def emit_u32_def emit_u64_def)

definition mov64 :: "byte \<Rightarrow> u64 \<Rightarrow> byte list" where
  "mov64 reg imm = 0x48 # (0xB8 + (reg AND 0x7)) # le_u64 imm"

lemma emit_mov_reg_imm64_frame [simp]:
  "reg < 8 \<Longrightarrow> code (emit_mov_reg_imm64 reg imm g) = code g @ mov64 reg imm"
  "string_pool (emit_mov_reg_imm64 reg imm g) = string_pool g"
  "print_fixups (emit_mov_reg_imm64 reg imm g) = print_fixups g"
  by (auto simp: emit_mov_reg_imm64_def mov64_def Let_def)

lemma length_mov64 [simp]: "length (mov64 reg imm) = 10"
  by (simp add: mov64_def)

definition aot_print_code :: "u32 \<Rightarrow> nat \<Rightarrow> byte list" where
  "aot_print_code d n =
     mov64 RAX 1 @ mov64 RDI 1 @ [0x48, 0x8D, 0x35] @ le_u32 d @ mov64 RDX (word_of_nat n) @ [0x0F, 0x05]"

definition aot_exit_code :: "byte list" where
  "aot_exit_code = mov64 RAX 60 @ mov64 RDI 0 @ [0x0F, 0x05]"

lemma length_aot_blocks [simp]:
  "length (aot_print_code d n) = 39" "length aot_exit_code = 22"
  by (simp_all add: aot_print_code_def aot_exit_code_def)

lemma sets_mov64:
  "sets 0 v (mov64 RAX v)" "sets 2 v (mov64 RDX v)" "sets 7 v (mov64 RDI v)"
  unfolding sets_def mov64_def RAX_def RDX_def RDI_def
  by (rule exI, rule conjI, simp add: decode_mov_imm64, simp)+

lemma aot_print_block:
  "aot_print_code d n = write_block (mov64 RAX 1) (mov64 RDI 1) d (mov64 RDX (word_of_nat n))"
  by (simp add: aot_print_code_def write_block_def)

lemma aot_run_print:
  assumes "at m pre (aot_print_code d (length bs) @ rest)" and "length bs < 2 ^ 31"
    and "read_mem m (m_base m + word_of_nat (length pre + 23 + 4) + scast d) (length bs) = Some bs"
  shows "\<exists>m'. run 5 m = Running m' \<and> at m' (pre @ aot_print_code d (length bs)) rest \<and>
              m_base m' = m_base m \<and> m_out m' = m_out m @ bs"
  unfolding aot_print_block
  by (rule run_write_block [OF assms(1) [unfolded aot_print_block] sets_mov64(1,3,2)])
     (use assms(2,3) in \<open>simp_all add: unat_of_nat_small add.commute add.left_commute\<close>)

lemma aot_run_exit: "at m pre (aot_exit_code @ rest) \<Longrightarrow> run 3 m = Exited 0 (m_out m)"
  unfolding aot_exit_code_def by (rule run_exit_block [OF _ sets_mov64(1,3)])

interpretation aot: emitter aot_print_code aot_exit_code 23
  by unfold_locales (simp_all add: aot_run_print aot_run_exit)

section \<open>What the generator emits\<close>

definition item_of :: "IRInstruction \<Rightarrow> item" where
  "item_of i = (if in_op i = IR_PRINT then Print (in_label i) else Exit)"

definition print_or_halt :: "IRInstruction \<Rightarrow> bool" where
  "print_or_halt i \<longleftrightarrow> in_op i = IR_PRINT \<or> in_op i = IR_HALT"

text \<open>The code before fixups, with every displacement 0, and the fixups it records.\<close>

abbreviation holes :: "nat \<Rightarrow> nat \<Rightarrow> nat \<Rightarrow> item list \<Rightarrow> byte list" where
  "holes \<equiv> lay (\<lambda>_. aot_print_code 0) aot_exit_code 23"

fun fixups_of :: "nat \<Rightarrow> nat \<Rightarrow> item list \<Rightarrow> (nat \<times> nat) list" where
  "fixups_of off k [] = []"
| "fixups_of off k (Print t # is) = (off + 23, k) # fixups_of (off + 39) (k + 1) is"
| "fixups_of off k (Exit # is) = fixups_of (off + 22) k is"

lemma generate_instruction_print:
  assumes "in_op i = IR_PRINT"
  shows "code (generate_instruction i g) = code g @ aot_print_code 0 (length (in_label i))"
    and "string_pool (generate_instruction i g) = string_pool g @ [in_label i]"
    and "print_fixups (generate_instruction i g) =
           print_fixups g @ [(length (code g) + 23, length (string_pool g))]"
  using assms
  by (simp_all add: generate_instruction_def emit_lea_rsi_rip_placeholder_def Let_def
      emit_syscall_def aot_print_code_def RAX_def RDX_def RDI_def)

lemma generate_instruction_halt:
  assumes "in_op i = IR_HALT"
  shows "code (generate_instruction i g) = code g @ aot_exit_code"
    and "string_pool (generate_instruction i g) = string_pool g"
    and "print_fixups (generate_instruction i g) = print_fixups g"
  using assms
  by (simp_all add: generate_instruction_def emit_syscall_def aot_exit_code_def RAX_def RDI_def)

lemma generate_block_holes:
  assumes "list_all print_or_halt is"
  shows "code (fold generate_instruction is g) =
           code g @ holes S (length (code g)) p (map item_of is)"
    and "string_pool (fold generate_instruction is g) = string_pool g @ item_pool (map item_of is)"
    and "print_fixups (fold generate_instruction is g) =
           print_fixups g @ fixups_of (length (code g)) (length (string_pool g)) (map item_of is)"
  using assms
proof (induction "is" arbitrary: g p)
  case (Cons i "is")
  { case 1
    then show ?case
      using Cons.IH(1) [of "generate_instruction i g" p]
        Cons.IH(1) [of "generate_instruction i g" "p + length (in_label i)"]
      by (auto simp: print_or_halt_def item_of_def
          generate_instruction_print generate_instruction_halt)
  next
    case 2
    then show ?case
      using Cons.IH(2) by (auto simp: print_or_halt_def item_of_def
          generate_instruction_print generate_instruction_halt)
  next
    case 3
    then show ?case
      using Cons.IH(3) by (auto simp: print_or_halt_def item_of_def
          generate_instruction_print generate_instruction_halt)
  }
qed auto

lemma generate_main:
  assumes "list_all print_or_halt is" "code g = []" "string_pool g = []" "print_fixups g = []"
  shows "code (generate_function (main_function is) g) = holes S 0 0 (map item_of is) @ [0xC3]"
    and "string_pool (generate_function (main_function is) g) = item_pool (map item_of is)"
    and "print_fixups (generate_function (main_function is) g) = fixups_of 0 0 (map item_of is)"
  using generate_block_holes(1) [OF assms(1), of _ S 0]
    generate_block_holes(2,3) [OF assms(1)] assms(2-)
  by (simp_all add: generate_function_def main_function_def Let_def emit_ret_def
      generate_basic_block_def)

section \<open>Fixups fill the holes\<close>

lemma patch_fixup_text_disp:
  "patch_fixup S offs (off + 23, k) bytes = patch_i32_le bytes (off + 23) (text_disp 23 S off (offs ! k))"
  by (simp add: patch_fixup_def patch_i32_le_def text_disp_def Let_def)

lemma pool_offsets_nth:
  "k < length ss \<Longrightarrow> pool_offsets r ss ! k = r + length (concat (take k ss))"
proof (induction ss arbitrary: r k)
  case (Cons s ss)
  then show ?case by (cases k) auto
qed simp

lemma patch_print_block:
  "patch_fixup S offs (length pre + 23, k) (pre @ aot_print_code 0 n @ post) =
     pre @ aot_print_code (text_disp 23 S (length pre) (offs ! k)) n @ post"
proof -
  let ?pre = "pre @ mov64 RAX 1 @ mov64 RDI 1 @ [0x48, 0x8D, 0x35]"
  have "length pre + 23 = length ?pre" by simp
  then show ?thesis
    unfolding patch_fixup_text_disp
    using patch_i32_le_hole [of "le_u32 0" ?pre "mov64 RDX (word_of_nat n) @ [0x0F, 0x05] @ post"]
    by (simp add: aot_print_code_def)
qed

lemma patch_holes:
  assumes "offs = pool_offsets 0 (ss @ item_pool items)"
  shows "fold (patch_fixup S offs) (fixups_of (length pre) (length ss) items)
           (pre @ holes S (length pre) (length (concat ss)) items @ post) =
         pre @ lay aot_print_code aot_exit_code 23 S (length pre) (length (concat ss)) items @ post"
  using assms
proof (induction items arbitrary: pre ss)
  case (Cons i items)
  show ?case
  proof (cases i)
    case (Print t)
    have o: "offs ! length ss = length (concat ss)"
      using Cons.prems by (simp add: Print pool_offsets_nth)
    define b where "b = aot_print_code (text_disp 23 S (length pre) (length (concat ss))) (length t)"
    have lb: "length b = 39" by (simp add: b_def)
    have "offs = pool_offsets 0 ((ss @ [t]) @ item_pool items)"
      using Cons.prems by (simp add: Print)
    from Cons.IH [OF this, of "pre @ b"] show ?thesis
      by (simp add: Print patch_print_block o b_def [symmetric] lb)
  next
    case Exit
    then show ?thesis
      using Cons.IH [of ss "pre @ aot_exit_code"] Cons.prems by simp
  qed
qed simp

text \<open>The image \<open>generate\<close> returns for the function the parser builds.\<close>

lemma generate_main_image:
  assumes wf: "list_all print_or_halt is"
  defines "items \<equiv> map item_of is"
  defines "S \<equiv> length (lay aot_print_code aot_exit_code 23 0 0 0 items) + 1"
  shows "fst (generate [main_function is] g) =
           lay aot_print_code aot_exit_code 23 S 0 0 items @ [0xC3] @ pool_bytes items"
proof -
  define g0 where "g0 = g\<lparr>code := [], label_positions := Map.empty, label_fixups := [],
               print_fixups := [], string_pool := [], string_pool_offsets := []\<rparr>"
  define g1 where "g1 = generate_function (main_function is) g0"
  have g1: "code g1 = holes S 0 0 items @ [0xC3]" "string_pool g1 = item_pool items"
      "print_fixups g1 = fixups_of 0 0 items"
    unfolding g1_def items_def using generate_main(1) [OF wf, of g0 S] generate_main(2,3) [OF wf, of g0]
    by (simp_all add: g0_def)
  have S: "length (code g1) = S"
    by (simp add: g1 S_def length_lay)
  have "fst (generate [main_function is] g) =
      fold (patch_fixup S (pool_offsets 0 (string_pool g1))) (print_fixups g1) (code g1)
      @ pool_bytes items"
    using S by (simp add: generate_def Let_def g0_def [symmetric] g1_def [symmetric] g1(2) pool_bytes_def)
  also have "\<dots> = lay aot_print_code aot_exit_code 23 S 0 0 items @ [0xC3] @ pool_bytes items"
    using patch_holes [where pre = "[]" and ss = "[]" and items = items and post = "[0xC3]"
        and offs = "pool_offsets 0 (item_pool items)" and S = S]
    by (simp add: g1)
  finally show ?thesis .
qed

text \<open>Running that image, loaded behind any header at any base address.\<close>

lemma generate_main_runs:
  assumes wf: "list_all print_or_halt is"
    and out: "item_output (map item_of is) = Some out"
    and im: "m_image m = pre @ fst (generate [main_function is] g)"
    and rip: "m_rip m = m_base m + word_of_nat (length pre)"
    and small: "length (m_image m) < 2 ^ 31"
  shows "\<exists>n. run n m = Exited 0 (m_out m @ bytes_of out)"
proof (rule aot.run_image [OF out _ _ rip small])
  let ?items = "map item_of is"
  let ?S = "length (lay aot_print_code aot_exit_code 23 0 0 0 ?items) + 1"
  show "m_image m = pre @ lay aot_print_code aot_exit_code 23 ?S 0 0 ?items @ [0xC3] @ pool_bytes ?items"
    using im generate_main_image [OF wf, of g] by simp
  show "?S = length (lay aot_print_code aot_exit_code 23 ?S 0 0 ?items @ [0xC3])"
    by (simp add: length_lay)
qed

end
