(* ===== verification/Elf.thy ===== *)
theory Elf
  imports X86_Machine
begin

text \<open>
  The three ELF writers of the program: \<open>build_elf_image\<close> (\<open>src/nanlang_cpp.cpp\<close>),
  \<open>AOTCompiler::build_elf_executable\<close> (\<open>src/nan_aot_compiler.cpp\<close>) and
  \<open>write_minimal_elf\<close> (\<open>include/nan_binary.h\<close>). \<open>elf_load\<close> is the specification of what
  they are for: the ELF64 file header and its single PT_LOAD segment, read back at the offsets
  the format documents, give the machine that starts at the entry point. The lemmas show that
  the first two writers are the same function and load as intended, and why the third never loads.
\<close>

section \<open>The writers\<close>

definition build_elf_image :: "byte list \<Rightarrow> byte list" where
  "build_elf_image machine_code =
     (let out = [];
          image_base = 0x400000;
          ehdr_size = 64;
          phdr_size = 56;
          code_offset = ehdr_size + phdr_size;
          file_size = code_offset + word_of_nat (length machine_code);
          out = out @ [0x7F] @ bytes_of ''ELF'' @ [2, 1, 1, 0] @ replicate 8 0;
          out = append_u16_le out 2;
          out = append_u16_le out 0x3E;
          out = append_u32_le out 1;
          out = append_u64_le out (image_base + code_offset);
          out = append_u64_le out ehdr_size;
          out = append_u64_le out 0;
          out = append_u32_le out 0;
          out = append_u16_le out (ucast ehdr_size);
          out = append_u16_le out (ucast phdr_size);
          out = append_u16_le out 1;
          out = append_u16_le out 0;
          out = append_u16_le out 0;
          out = append_u16_le out 0;
          out = append_u32_le out 1;
          out = append_u32_le out 5;
          out = append_u64_le out 0;
          out = append_u64_le out image_base;
          out = append_u64_le out image_base;
          out = append_u64_le out file_size;
          out = append_u64_le out file_size;
          out = append_u64_le out 0x1000
      in out @ machine_code)"

text \<open>\<open>for (int i = 0; i < 8; ++i) out.push_back((v >> (i*8)) & 0xFF)\<close>.\<close>

definition push_u64_loop :: "u64 \<Rightarrow> byte list" where
  "push_u64_loop v = map (\<lambda>i. ucast (drop_bit (i * 8) v AND 0xFF)) [0..<8]"

definition build_elf_executable :: "byte list \<Rightarrow> byte list" where
  "build_elf_executable machine_code =
     (let image_base = 0x400000;
          ehdr_size = 64;
          phdr_size = 56;
          code_offset = ehdr_size + phdr_size;
          file_size = code_offset + word_of_nat (length machine_code);
          entry = image_base + code_offset;
          align = 0x1000
      in [0x7F] @ bytes_of ''ELF'' @ [2, 1, 1, 0] @ replicate 8 0
         @ [0x02, 0x00] @ [0x3E, 0x00] @ [0x01, 0x00, 0x00, 0x00]
         @ push_u64_loop entry @ push_u64_loop ehdr_size @ replicate 8 0 @ replicate 4 0
         @ [0x40, 0x00] @ [0x38, 0x00] @ [0x01, 0x00] @ replicate 6 0
         @ [0x01, 0x00, 0x00, 0x00] @ [0x05, 0x00, 0x00, 0x00] @ replicate 8 0
         @ push_u64_loop image_base @ push_u64_loop image_base
         @ push_u64_loop file_size @ push_u64_loop file_size @ push_u64_loop align
         @ machine_code)"

text \<open>
  \<open>write_minimal_elf\<close>: the bytes written to the file. Array stores are list updates at the
  literal indices of the source, \<open>memcpy\<close> of a \<open>uint64_t\<close> stores its eight bytes.
\<close>

definition store_bytes :: "byte list \<Rightarrow> nat \<Rightarrow> byte list \<Rightarrow> byte list" where
  "store_bytes arr off bs = take off arr @ bs @ drop (off + length bs) arr"

definition write_minimal_elf :: "byte list \<Rightarrow> u64 \<Rightarrow> byte list" where
  "write_minimal_elf code_bytes entry_offset =
     (let hdr = replicate 64 0;
          hdr = hdr[0 := 0x7f, 1 := 0x45, 2 := 0x4C, 3 := 0x46, 4 := 2, 5 := 1, 6 := 1,
                    16 := 2, 17 := 0, 18 := 0x3e, 19 := 0, 20 := 1];
          ep = 0x400000 + 64 + entry_offset;
          hdr = store_bytes hdr 24 (le_u64 ep);
          hdr = hdr[40 := 64, 52 := 64, 54 := 1];
          phdr = replicate 56 0;
          phdr = phdr[0 := 1, 4 := 5];
          offset = 64; vaddr = 0x400000 + 64;
          filesz = word_of_nat (length code_bytes); memsz = word_of_nat (length code_bytes);
          phdr = store_bytes phdr 8 (le_u64 offset);
          phdr = store_bytes phdr 16 (le_u64 vaddr);
          phdr = store_bytes phdr 24 (le_u64 vaddr);
          phdr = store_bytes phdr 32 (le_u64 filesz);
          phdr = store_bytes phdr 40 (le_u64 memsz)
      in hdr @ phdr @ code_bytes)"

section \<open>What a loader reads\<close>

record elf_fields =
  e_entry :: u64
  e_phoff :: u64
  e_shoff :: u64
  e_phentsize :: u16
  e_phnum :: u16

definition elf_header :: "byte list \<Rightarrow> elf_fields option" where
  "elf_header file =
     (if 64 \<le> length file \<and> take 7 file = [0x7F, 0x45, 0x4C, 0x46, 2, 1, 1]
         \<and> le16 (drop 16 file) = 2 \<and> le16 (drop 18 file) = 0x3E
      then Some \<lparr>e_entry = le64 (drop 24 file), e_phoff = le64 (drop 32 file),
                  e_shoff = le64 (drop 40 file),
                  e_phentsize = le16 (drop 54 file), e_phnum = le16 (drop 56 file)\<rparr>
      else None)"

text \<open>
  The loader for a file with one program header of the documented size 56: a PT_LOAD segment
  that is readable and executable, lies inside the file and holds the entry point, its offset congruent
  to its address modulo the alignment (0 and 1 ask for none).
\<close>

definition elf_load :: "byte list \<Rightarrow> machine option" where
  "elf_load file =
     (case elf_header file of None \<Rightarrow> None
      | Some h \<Rightarrow>
          let ph = drop (unat (e_phoff h)) file;
              p_offset = le64 (drop 8 ph); p_vaddr = le64 (drop 16 ph);
              p_filesz = le64 (drop 32 ph); p_align = le64 (drop 48 ph)
          in if e_phentsize h = 56 \<and> e_phnum h = 1 \<and> 56 \<le> length ph
                \<and> le32 ph = 1 \<and> le32 (drop 4 ph) = 5
                \<and> unat p_offset + unat p_filesz \<le> length file
                \<and> (p_align \<le> 1 \<or> p_vaddr mod p_align = p_offset mod p_align)
                \<and> unat (e_entry h - p_vaddr) < unat p_filesz
             then Some \<lparr>m_base = p_vaddr,
                         m_image = take (unat p_filesz) (drop (unat p_offset) file),
                         m_regs = (\<lambda>_. 0), m_rip = e_entry h, m_out = []\<rparr>
             else None)"

section \<open>The two full writers agree\<close>

lemma push_u64_loop_le: "push_u64_loop v = le_u64 v"
proof -
  have "drop_bit n (ucast (drop_bit 32 v) :: u32) = ucast (drop_bit (n + 32) v)" for n
    by (rule bit_word_eqI) (auto simp: bit_simps ac_simps dest: bit_imp_le_length)
  moreover have "(ucast (drop_bit n (ucast v :: u32)) :: byte) = ucast (drop_bit n v)" if "n \<le> 24" for n
    using that by (intro bit_word_eqI) (auto simp: bit_simps)
  moreover have "(ucast (ucast w :: u32) :: byte) = ucast w" for w :: u64
    by (rule bit_word_eqI) (auto simp: bit_simps)
  ultimately show ?thesis
    by (simp add: push_u64_loop_def le_u64_def le_u32_def bytes_simps upt_rec)
qed

definition elf_prefix :: "u64 \<Rightarrow> byte list" where
  "elf_prefix file_size =
     [0x7F, 0x45, 0x4C, 0x46, 2, 1, 1, 0] @ replicate 8 0 @
     le_u16 2 @ le_u16 0x3E @ le_u32 1 @ le_u64 0x400078 @ le_u64 64 @ le_u64 0 @ le_u32 0 @
     le_u16 64 @ le_u16 56 @ le_u16 1 @ le_u16 0 @ le_u16 0 @ le_u16 0 @
     le_u32 1 @ le_u32 5 @ le_u64 0 @ le_u64 0x400000 @ le_u64 0x400000 @
     le_u64 file_size @ le_u64 file_size @ le_u64 0x1000"

lemma length_elf_prefix [simp]: "length (elf_prefix fs) = 120"
  by (simp add: elf_prefix_def)

lemma bytes_of_ELF: "bytes_of ''ELF'' = [0x45, 0x4C, 0x46]"
  by (simp add: byte_of_char_def)

lemma build_elf_image_prefix:
  "build_elf_image mc = elf_prefix (120 + word_of_nat (length mc)) @ mc"
  by (simp add: build_elf_image_def Let_def bytes_of_ELF elf_prefix_def del: list.map)

lemma replicate_consts:
  "replicate 4 x = [x, x, x, x]" "replicate 6 x = [x, x, x, x, x, x]"
  "replicate 8 x = [x, x, x, x, x, x, x, x]"
  by (simp_all add: numeral_eq_Suc)

lemma le_consts:
  "le_u16 2 = [2, 0]" "le_u16 0x3E = [0x3E, 0]" "le_u16 64 = [64, 0]" "le_u16 56 = [56, 0]"
  "le_u16 1 = [1, 0]" "le_u16 0 @ le_u16 0 @ le_u16 0 @ xs = replicate 6 0 @ xs"
  "le_u32 1 = [1, 0, 0, 0]" "le_u32 5 = [5, 0, 0, 0]" "le_u32 0 = replicate 4 0" "le_u64 0 = replicate 8 0"
  by (simp_all add: le_u16_def le_u32_def le_u64_def replicate_consts)

lemma build_elf_executable_prefix:
  "build_elf_executable mc = elf_prefix (120 + word_of_nat (length mc)) @ mc"
  unfolding build_elf_executable_def Let_def push_u64_loop_le elf_prefix_def bytes_of_ELF
    append_assoc le_consts
  by simp

section \<open>Loading what they write\<close>

text \<open>The fields at their documented offsets.\<close>

lemma drop_le:
  "drop (n + 2) (le_u16 a @ xs) = drop n xs" "drop (n + 4) (le_u32 b @ xs) = drop n xs"
  "drop (n + 8) (le_u64 c @ xs) = drop n xs"
  by simp_all

lemma elf_prefix_16:
  "drop 16 (elf_prefix fs) = le_u16 2 @ drop 18 (elf_prefix fs)"
  "drop 18 (elf_prefix fs) = le_u16 0x3E @ drop 20 (elf_prefix fs)"
  "drop 24 (elf_prefix fs) = le_u64 0x400078 @ drop 32 (elf_prefix fs)"
  "drop 32 (elf_prefix fs) = le_u64 64 @ drop 40 (elf_prefix fs)"
  "drop 40 (elf_prefix fs) = le_u64 0 @ drop 48 (elf_prefix fs)"
  "drop 54 (elf_prefix fs) = le_u16 56 @ drop 56 (elf_prefix fs)"
  "drop 56 (elf_prefix fs) = le_u16 1 @ drop 58 (elf_prefix fs)"
  "drop 64 (elf_prefix fs) = le_u32 1 @ drop 68 (elf_prefix fs)"
  "drop 68 (elf_prefix fs) = le_u32 5 @ drop 72 (elf_prefix fs)"
  "drop 72 (elf_prefix fs) = le_u64 0 @ drop 80 (elf_prefix fs)"
  "drop 80 (elf_prefix fs) = le_u64 0x400000 @ drop 88 (elf_prefix fs)"
  "drop 96 (elf_prefix fs) = le_u64 fs @ drop 104 (elf_prefix fs)"
  "drop 112 (elf_prefix fs) = le_u64 0x1000"
  by (simp_all add: elf_prefix_def replicate_consts)

lemma take_elf_prefix: "take 7 (elf_prefix fs) = [0x7F, 0x45, 0x4C, 0x46, 2, 1, 1]"
  by (simp add: elf_prefix_def)

lemma elf_header_prefix:
  "elf_header (elf_prefix fs @ mc) =
     Some \<lparr>e_entry = 0x400078, e_phoff = 64, e_shoff = 0, e_phentsize = 56, e_phnum = 1\<rparr>"
  by (simp add: elf_header_def take_elf_prefix elf_prefix_16)

lemma elf_load_prefix:
  assumes "length mc < 2 ^ 63" and "mc \<noteq> []"
  defines "file \<equiv> elf_prefix (120 + word_of_nat (length mc)) @ mc"
  shows "elf_load file =
     Some \<lparr>m_base = 0x400000, m_image = file, m_regs = (\<lambda>_. 0), m_rip = 0x400000 + 120, m_out = []\<rparr>"
proof -
  define fs where "fs = (120 + word_of_nat (length mc) :: u64)"
  have fs: "unat fs = 120 + length mc"
  proof -
    have "fs = word_of_nat (120 + length mc)" by (simp add: fs_def)
    then show ?thesis using assms(1) by (simp only: unat_of_nat) (simp add: take_bit_nat_eq_self)
  qed
  have img: "file = elf_prefix fs @ mc" by (simp add: file_def fs_def)
  have h: "elf_header file = Some \<lparr>e_entry = 0x400078, e_phoff = 64, e_shoff = 0, e_phentsize = 56, e_phnum = 1\<rparr>"
    unfolding img by (rule elf_header_prefix)
  show ?thesis
    using assms(2) unfolding elf_load_def h Let_def option.case elf_fields.simps
    by (simp add: img elf_prefix_16 fs)
qed

section \<open>The minimal writer\<close>

lemma nth_store_bytes:
  "off + length bs \<le> length arr \<Longrightarrow> store_bytes arr off bs ! i =
     (if i < off then arr ! i else if i < off + length bs then bs ! (i - off) else arr ! i)"
  by (auto simp: store_bytes_def nth_append)

lemma length_store_bytes [simp]:
  "off + length bs \<le> length arr \<Longrightarrow> length (store_bytes arr off bs) = length arr"
  by (simp add: store_bytes_def)

definition minimal_header :: "u64 \<Rightarrow> u64 \<Rightarrow> u16 \<Rightarrow> u16 \<Rightarrow> byte list" where
  "minimal_header phoff entry phentsize phnum =
     [0x7F, 0x45, 0x4C, 0x46, 2, 1, 1] @ replicate 9 0 @ le_u16 2 @ le_u16 0x3E @ [1, 0, 0, 0] @ le_u64 entry @
     le_u64 phoff @ [64, 0, 0, 0, 0, 0, 0, 0] @ replicate 4 0 @ [64, 0] @ le_u16 phentsize @ le_u16 phnum @ replicate 6 0"

definition minimal_segment :: "u64 \<Rightarrow> byte list" where
  "minimal_segment filesz = le_u32 1 @ le_u32 5 @ le_u64 64 @ le_u64 0x400040 @ le_u64 0x400040 @
     le_u64 filesz @ le_u64 filesz @ le_u64 0"

lemma length_minimal [simp]:
  "length (minimal_header phoff entry phentsize phnum) = 64" "length (minimal_segment filesz) = 56"
  by (simp_all add: minimal_header_def minimal_segment_def)

lemma minimal_updates:
  "(replicate 64 (0 :: byte))[0 := 0x7f, 1 := 0x45, 2 := 0x4C, 3 := 0x46, 4 := 2, 5 := 1, 6 := 1,
      16 := 2, 17 := 0, 18 := 0x3e, 19 := 0, 20 := 1] =
     ([0x7F, 0x45, 0x4C, 0x46, 2, 1, 1] @ replicate 9 0 @ [2, 0, 0x3E, 0] @ [1, 0, 0, 0]) @ replicate 40 0"
  "(replicate 32 (0 :: byte))[8 := 64, 20 := 64, 22 := 1] =
     replicate 8 0 @ [64, 0, 0, 0, 0, 0, 0, 0] @ replicate 4 0 @ [64, 0] @ [1, 0] @ [0, 0] @ replicate 6 0"
  "(replicate 56 (0 :: byte))[0 := 1, 4 := 5] = [1, 0, 0, 0] @ [5, 0, 0, 0] @ replicate 48 0"
  by (simp_all add: numeral_eq_Suc)

lemma minimal_stores:
  assumes "length pre = 24"
  shows "(store_bytes (pre @ replicate 40 0) 24 (le_u64 ep))[40 := 64, 52 := 64, 54 := 1] =
    pre @ le_u64 ep @ (replicate 32 0)[8 := 64, 20 := 64, 22 := 1]"
  using assms by (simp add: store_bytes_def list_update_append)

lemma write_minimal_elf_parts:
  "write_minimal_elf mc e = minimal_header 0 (0x400040 + e) 1 0 @ minimal_segment (word_of_nat (length mc)) @ mc"
proof -
  have z: "le_u16 0 = [0, 0]" by (simp add: le_u16_def)
  have "0x400000 + 64 + e = 0x400040 + e" "(0x400000 + 64 :: u64) = 0x400040" by simp_all
  then show ?thesis
    unfolding write_minimal_elf_def Let_def minimal_updates(1,3)
    by (subst minimal_stores)
       (simp_all add: minimal_updates(2) minimal_header_def minimal_segment_def store_bytes_def le_consts z del: append_assoc)
qed

text \<open>What the writer meant to store: the program header offset, its size and their number.\<close>

definition with_program_header :: "byte list \<Rightarrow> byte list" where
  "with_program_header file =
     store_bytes (store_bytes (store_bytes file 32 (le_u64 64)) 54 (le_u16 56)) 56 (le_u16 1)"

lemma with_program_header_minimal:
  "with_program_header (minimal_header 0 entry 1 0 @ rest) = minimal_header 64 entry 56 1 @ rest"
  by (simp add: with_program_header_def minimal_header_def store_bytes_def)

lemma elf_header_minimal:
  "elf_header (minimal_header phoff entry phentsize phnum @ rest) =
     Some \<lparr>e_entry = entry, e_phoff = phoff, e_shoff = 64, e_phentsize = phentsize, e_phnum = phnum\<rparr>"
proof -
  have "[64, 0, 0, 0, 0, 0, 0, 0] = le_u64 64" by (simp add: le_u64_def le_u32_def)
  then show ?thesis by (simp add: elf_header_def minimal_header_def)
qed

lemma minimal_segment_fields:
  "le32 (minimal_segment n @ rest) = 1" "le32 (drop 4 (minimal_segment n @ rest)) = 5"
  "le64 (drop 8 (minimal_segment n @ rest)) = 64" "le64 (drop 16 (minimal_segment n @ rest)) = 0x400040"
  "le64 (drop 32 (minimal_segment n @ rest)) = n" "le64 (drop 48 (minimal_segment n @ rest)) = 0"
  by (simp_all add: minimal_segment_def)

lemma elf_load_minimal:
  assumes "unat e < length mc" "length mc < 2 ^ 63"
  defines "ph \<equiv> minimal_segment (word_of_nat (length mc))"
  shows "elf_load (with_program_header (write_minimal_elf mc e)) =
    Some \<lparr>m_base = 0x400040, m_image = take (length mc) (ph @ mc), m_regs = (\<lambda>_. 0), m_rip = 0x400040 + e, m_out = []\<rparr>"
proof -
  have n: "unat (word_of_nat (length mc) :: u64) = length mc"
    using assms(2) by (simp add: unat_of_nat take_bit_nat_eq_self)
  have f: "with_program_header (write_minimal_elf mc e) = minimal_header 64 (0x400040 + e) 56 1 @ ph @ mc"
    by (simp add: write_minimal_elf_parts with_program_header_minimal ph_def)
  show ?thesis
    using assms(1) unfolding elf_load_def f elf_header_minimal Let_def option.case elf_fields.simps
    by (simp add: ph_def minimal_segment_fields [where rest = mc, simplified] n)
qed

section \<open>Properties\<close>

text \<open>
  The ELF writers of the two compilers are the same function, and what they write for any
  code of less than \<open>2 ^ 63\<close> bytes loads: the machine starts at the first byte of the code, with
  the whole file mapped at 0x400000.
\<close>

theorem elf_writers_agree:
  assumes "machine_code \<noteq> []" and "length machine_code < 2 ^ 63"
  shows "build_elf_image machine_code = build_elf_executable machine_code
       \<and> (\<exists>m. elf_load (build_elf_image machine_code) = Some m
           \<and> m_image m = build_elf_image machine_code \<and> m_base m = 0x400000
           \<and> drop (unat (m_rip m - m_base m)) (m_image m) = machine_code)"
  using elf_load_prefix [OF assms(2,1)]
  by (simp_all add: build_elf_image_prefix build_elf_executable_prefix)

lemma elf_writers_agree_witness:
  "build_elf_image [0xC3] = build_elf_executable [0xC3]"
  using elf_writers_agree [of "[0xC3]"] by simp

text \<open>
  C33. The minimal writer stores the program header offset, the header size and the header count
  at the wrong places, so no file it writes, whatever the code and the entry offset, is loadable. That is the
  cause: with the three fields stored where the format has them, the file loads for every entry offset
  inside the code. It still does not run the code: the segment starts at the program header
  instead of after it, so the machine enters \<open>entry_offset\<close> bytes into the program header followed by the code.
\<close>

theorem minimal_elf_refused:
  "elf_load (write_minimal_elf mc e) = None \<and>
   (unat e < length mc \<and> length mc < 2 ^ 63 \<longrightarrow>
     (\<exists>m hdr ph. elf_load (with_program_header (write_minimal_elf mc e)) = Some m \<and> m_rip m = m_base m + e \<and>
        write_minimal_elf mc e = hdr @ ph @ mc \<and> length hdr = 64 \<and> length ph = 56 \<and>
        m_image m = take (length mc) (ph @ mc)))"
proof (intro conjI impI, goal_cases)
  case 1
  show ?case by (simp add: elf_load_def write_minimal_elf_parts elf_header_minimal)
next
  case 2
  then show ?case
    using elf_load_minimal [of e mc] write_minimal_elf_parts [of mc e]
    by (intro exI [of _ "\<lparr>m_base = 0x400040, m_image = take (length mc) (minimal_segment (word_of_nat (length mc)) @ mc),
        m_regs = (\<lambda>_. 0), m_rip = 0x400040 + e, m_out = []\<rparr>"]
        exI [of _ "minimal_header 0 (0x400040 + e) 1 0"] exI [of _ "minimal_segment (word_of_nat (length mc))"] conjI) simp_all
qed

lemma minimal_elf_refused_witness:
  "elf_load (write_minimal_elf [0x0F, 0x05, 0xC3] 0) = None \<and>
   (\<exists>m. elf_load (with_program_header (write_minimal_elf [0x0F, 0x05, 0xC3] 0)) = Some m \<and> length (m_image m) = 3)"
proof -
  obtain m hdr ph where "elf_load (with_program_header (write_minimal_elf [0x0F, 0x05, 0xC3] 0)) = Some m"
    "m_image m = take (length [0x0F, 0x05, 0xC3 :: byte]) (ph @ [0x0F, 0x05, 0xC3])"
    using conjunct2 [OF minimal_elf_refused [of "[0x0F, 0x05, 0xC3]" 0]] by auto
  then show ?thesis using conjunct1 [OF minimal_elf_refused [of "[0x0F, 0x05, 0xC3]" 0]] by simp
qed

end
