(* ===== verification/World.thy ===== *)
theory World
  imports Prelude
begin

text \<open>
  What the program sees of the operating system: the files with their contents, size, times
  and mode, the environment variables, and the two output streams. Which paths can be opened
  for writing and how many bytes the disk takes before a write fails are parameters of the
  state (\<open>can_create\<close>, \<open>disk_room\<close>), so that the error branches of the code are reachable.
\<close>

record file_info =
  f_bytes :: "byte list"
  f_mtime_sec :: int
  f_mtime_nsec :: int
  f_mode :: nat

record world =
  files :: "string \<rightharpoonup> file_info"
  can_create :: "string \<Rightarrow> bool"
  disk_room :: "string \<Rightarrow> nat option"
  now_sec :: int
  now_nsec :: int
  environ :: "string \<rightharpoonup> string"
  w_cout :: string
  w_cerr :: string

definition cout :: "string \<Rightarrow> world \<Rightarrow> world" where
  "cout s w = w\<lparr>w_cout := w_cout w @ s\<rparr>"

definition cerr :: "string \<Rightarrow> world \<Rightarrow> world" where
  "cerr s w = w\<lparr>w_cerr := w_cerr w @ s\<rparr>"

text \<open>\<open>std::ifstream\<close>: the bytes of an existing file.\<close>

definition read_file :: "world \<Rightarrow> string \<Rightarrow> byte list option" where
  "read_file w path = map_option f_bytes (files w path)"

definition read_text :: "world \<Rightarrow> string \<Rightarrow> string option" where
  "read_text w path = map_option string_of (read_file w path)"

text \<open>
  \<open>std::ofstream\<close> in truncating mode. \<open>None\<close>: the file cannot be opened. Otherwise the
  file holds what the disk took, and the flag is \<open>out.good()\<close>.
\<close>

definition store_file :: "string \<Rightarrow> byte list \<Rightarrow> world \<Rightarrow> world" where
  "store_file path stored w =
     w\<lparr>files := (files w)(path \<mapsto>
        \<lparr>f_bytes = stored, f_mtime_sec = now_sec w, f_mtime_nsec = now_nsec w,
         f_mode = (case files w path of None \<Rightarrow> 420 | Some f \<Rightarrow> f_mode f)\<rparr>)\<rparr>"

definition write_file :: "string \<Rightarrow> byte list \<Rightarrow> world \<Rightarrow> (bool \<times> world) option" where
  "write_file path bytes w =
     (if \<not> can_create w path then None
      else
        (let stored = (case disk_room w path of None \<Rightarrow> bytes | Some n \<Rightarrow> take n bytes)
         in Some (stored = bytes, store_file path stored w)))"

definition chmod :: "string \<Rightarrow> nat \<Rightarrow> world \<Rightarrow> bool \<times> world" where
  "chmod path mode w =
     (case files w path of
        None \<Rightarrow> (False, w)
      | Some f \<Rightarrow> (True, w\<lparr>files := (files w)(path \<mapsto> f\<lparr>f_mode := mode\<rparr>)\<rparr>))"

definition getenv :: "world \<Rightarrow> string \<Rightarrow> string option" where
  "getenv w name = environ w name"

text \<open>Logging and the mode bits leave the contents of files alone.\<close>

lemma log_frame [simp]:
  "files (cout s w) = files w" "files (cerr s w) = files w"
  "read_file (cout s w) p = read_file w p" "read_file (cerr s w) p = read_file w p"
  "read_text (cout s w) p = read_text w p" "read_text (cerr s w) p = read_text w p"
  "can_create (cout s w) = can_create w" "can_create (cerr s w) = can_create w"
  "disk_room (cout s w) = disk_room w" "disk_room (cerr s w) = disk_room w"
  "environ (cout s w) = environ w" "environ (cerr s w) = environ w"
  by (simp_all add: cout_def cerr_def read_file_def read_text_def)

lemma chmod_read [simp]: "read_file (snd (chmod p m w)) q = read_file w q"
  by (auto simp: chmod_def read_file_def split: option.splits)

lemma store_file_read:
  "read_file (store_file path bs w) q = (if q = path then Some bs else read_file w q)"
  by (simp add: store_file_def read_file_def)

lemma store_file_frame [simp]:
  "can_create (store_file path bs w) = can_create w" "disk_room (store_file path bs w) = disk_room w"
  "environ (store_file path bs w) = environ w"
  by (simp_all add: store_file_def)

lemma write_file_read:
  assumes "write_file path bytes w = Some (good, w')"
  shows "good \<Longrightarrow> read_file w' path = Some bytes"
    and "q \<noteq> path \<Longrightarrow> read_file w' q = read_file w q"
  using assms by (auto simp: write_file_def store_file_read Let_def split: if_splits)

lemma write_file_ok:
  "can_create w path \<Longrightarrow> disk_room w path = None \<Longrightarrow>
   write_file path bytes w = Some (True, store_file path bytes w)"
  by (simp add: write_file_def)

text \<open>A world with one source file and room for any output, for concrete runs.\<close>

definition sample_world :: "string \<Rightarrow> string \<Rightarrow> world" where
  "sample_world path text =
     \<lparr>files = [path \<mapsto> \<lparr>f_bytes = bytes_of text, f_mtime_sec = 100, f_mtime_nsec = 0, f_mode = 420\<rparr>],
      can_create = (\<lambda>_. True), disk_room = (\<lambda>_. None), now_sec = 200, now_nsec = 0,
      environ = Map.empty, w_cout = [], w_cerr = []\<rparr>"

lemma sample_world_simps [simp]:
  "read_text (sample_world path text) path = Some text"
  "can_create (sample_world path text) p" "disk_room (sample_world path text) p = None"
  "environ (sample_world path text) = Map.empty"
  by (simp_all add: sample_world_def read_text_def read_file_def)

end
