(* ===== verification/Aot_Compiler.thy ===== *)
theory Aot_Compiler
  imports Aot_Correct Elf World
begin

text \<open>
  \<open>AOTCompiler\<close> of \<open>src/nan_aot_compiler.cpp\<close>: parsing, code generation and writing of the
  output file (\<open>compile_to_native\<close>, \<open>compile_to_elf\<close>, \<open>compile_to_binary\<close>), and the theorems
  that tie the file written to what running it prints. \<open>source_output\<close> is the specification: the
  text the parsed source prints before its first \<open>halt\<close>.
\<close>

section \<open>The compiler\<close>

record AOTCompiler =
  ac_source_path :: string
  ac_errors :: "string list"

definition AOTCompiler_new :: "string \<Rightarrow> AOTCompiler" where
  "AOTCompiler_new source_path = \<lparr>ac_source_path = source_path, ac_errors = []\<rparr>"

definition em_dash :: string where "em_dash = [CHR 0xE2, CHR 0x80, CHR 0x94]"
definition tick :: string where "tick = [CHR 0xE2, CHR 0x9C, CHR 0x93]"
definition done_mark :: string where "done_mark = [CHR 0xE2, CHR 0x9C, CHR 0x85]"
definition nl :: string where "nl = [CHR 0x0A]"

definition compile_to_native ::
  "match_state \<Rightarrow> AOTCompiler \<Rightarrow> string \<Rightarrow> bool \<Rightarrow> world \<Rightarrow> bool \<times> match_state \<times> AOTCompiler \<times> world" where
  "compile_to_native ms c output_path as_elf w =
     (let w = cout (''[AOT] NanLang v4.0.0 '' @ em_dash @ '' Ahead-of-Time compiler'' @ nl) w;
          w = cout (''[AOT] Compiling: '' @ ac_source_path c @ nl) w;
          w = cout (''[AOT] Phase 1: Parsing...'' @ nl) w;
          parser = Parser_new (ac_source_path c) (read_text w (ac_source_path c));
          (ok, ms, parser, ir_functions) = parse ms parser []
      in if \<not> ok then
           (False, ms, c\<lparr>ac_errors := ac_errors c @ ps_errors parser\<rparr>,
            cerr (''[ERROR] Parse failed'' @ nl) w)
         else
           (let w = cout (''[AOT] '' @ tick @ '' Parsed '' @ nat_to_string (length ir_functions) @ '' function(s)'' @ nl) w;
                w = cout (''[AOT] Phase 2: x86_64 native code generation...'' @ nl) w;
                (machine_code, codegen) = generate ir_functions generator_init;
                w = cout (gen_log codegen) w;
                w = cout (''[AOT] '' @ tick @ '' Generated '' @ nat_to_string (length machine_code) @ '' bytes of native code'' @ nl) w;
                w = cout (''[AOT] Phase 3: Writing output ('' @ (if as_elf then ''ELF'' else ''raw'') @ '')...'' @ nl) w;
                output_bytes = (if as_elf then build_elf_executable machine_code else machine_code)
            in case write_file output_path output_bytes w of
                 None \<Rightarrow>
                   (False, ms, c\<lparr>ac_errors := ac_errors c @ [''Could not open output file: '' @ output_path]\<rparr>, w)
               | Some (good, w) \<Rightarrow>
                   (if \<not> good then
                      (False, ms, c\<lparr>ac_errors := ac_errors c @ [''Failed to write output file'']\<rparr>, w)
                    else
                      (let w = cout (''[AOT] '' @ tick @ '' Wrote '' @ nat_to_string (length output_bytes) @ '' bytes to '' @ output_path @ nl) w;
                           w = cout (''[AOT] '' @ done_mark @ '' Compilation complete!'' @ nl) w;
                           w = (if as_elf then snd (chmod output_path 493 w) else w)
                       in (True, ms, c, w)))))"

definition compile_to_elf ::
  "match_state \<Rightarrow> AOTCompiler \<Rightarrow> string \<Rightarrow> world \<Rightarrow> bool \<times> match_state \<times> AOTCompiler \<times> world" where
  "compile_to_elf ms c output_path w = compile_to_native ms c output_path True w"

definition compile_to_binary ::
  "match_state \<Rightarrow> AOTCompiler \<Rightarrow> string \<Rightarrow> world \<Rightarrow> bool \<times> match_state \<times> AOTCompiler \<times> world" where
  "compile_to_binary ms c output_path w = compile_to_native ms c output_path False w"

section \<open>What the parser returns\<close>

text \<open>The instructions of the entry block for a list of lines, with the final halt.\<close>

definition parsed_instrs :: "match_state \<Rightarrow> string list \<Rightarrow> IRInstruction list" where
  "parsed_instrs ms ls =
     (let s = foldl parse_line (parse_init ms) ls
      in if has_halt s then block_instrs s else block_instrs s @ [halt_instr])"

lemma parse_nonempty:
  "ps_lines p \<noteq> [] \<Longrightarrow>
   fst (parse ms p fs) \<and> snd (snd (snd (parse ms p fs))) = fs @ [main_function (parsed_instrs ms (ps_lines p))]"
  by (simp add: parse_def parsed_instrs_def Let_def)

lemma print_instr_ops [simp]:
  "in_op (print_instr t) = IR_PRINT" "in_label (print_instr t) = t" "in_op halt_instr = IR_HALT"
  by (simp_all add: print_instr_def halt_instr_def IRInstruction_op_def)

definition parse_inv :: "parse_state \<Rightarrow> bool" where
  "parse_inv s \<longleftrightarrow> list_all print_or_halt (block_instrs s) \<and>
     (has_halt s \<longleftrightarrow> (\<exists>i \<in> set (block_instrs s). in_op i = IR_HALT))"

lemma parse_statement_line_inv: "parse_inv s \<Longrightarrow> parse_inv (parse_statement_line s line)"
  by (auto simp: parse_statement_line_def parse_inv_def print_or_halt_def split: option.splits)

lemma parse_inv_match_update [simp]:
  "parse_inv (s\<lparr>match_resolved := b\<rparr>) = parse_inv s"
  "parse_inv (s\<lparr>current_match_val := v\<rparr>) = parse_inv s"
  by (simp_all add: parse_inv_def)

lemma parse_line_inv: "parse_inv s \<Longrightarrow> parse_inv (parse_line s raw)"
  by (auto simp: parse_line_def Let_def parse_statement_line_inv split: option.splits)

interpretation parser: invariant "\<lambda>raw s t. t = parse_line s raw" parse_inv
  by unfold_locales (simp add: parse_line_inv)

lemma parse_init_inv: "parse_inv (parse_init ms)"
  by (simp add: parse_inv_def parse_init_def)

lemma parsed_instrs_wf:
  "list_all print_or_halt (parsed_instrs ms ls)" "\<exists>i \<in> set (parsed_instrs ms ls). in_op i = IR_HALT"
  using parser.run_ops_left [OF refl parse_init_inv, of ms ls]
  by (auto simp: parsed_instrs_def Let_def parse_inv_def print_or_halt_def)

lemma item_output_halts:
  "list_all print_or_halt is \<Longrightarrow> \<exists>i \<in> set is. in_op i = IR_HALT \<Longrightarrow>
   \<exists>out. item_output (map item_of is) = Some out"
proof (induction "is")
  case (Cons i "is")
  then show ?case by (auto simp: item_of_def print_or_halt_def)
qed simp

section \<open>Compiled programs print what their source says\<close>

definition source_output :: "match_state \<Rightarrow> string \<Rightarrow> string option" where
  "source_output ms text = item_output (map item_of (parsed_instrs ms (getlines text)))"

lemma source_output_total: "\<exists>out. source_output ms text = Some out"
  unfolding source_output_def
  by (rule item_output_halts [OF parsed_instrs_wf])

text \<open>A successful compilation stores exactly the generated bytes.\<close>

definition source_code :: "match_state \<Rightarrow> string \<Rightarrow> byte list" where
  "source_code ms text = fst (generate [main_function (parsed_instrs ms (getlines text))] generator_init)"

lemma parse_new_text:
  assumes "getlines text \<noteq> []"
  shows "\<exists>ms' p'. parse ms (Parser_new src (Some text)) [] =
            (True, ms', p', [main_function (parsed_instrs ms (getlines text))])"
  using assms by (simp add: parse_def Parser_new_def parsed_instrs_def Let_def)

lemma compile_to_native_stores:
  assumes src: "read_text w (ac_source_path c) = Some text" and ne: "getlines text \<noteq> []"
    and res: "compile_to_native ms c out as_elf w = (True, ms', c', w')"
  shows "read_file w' out =
           Some (if as_elf then build_elf_executable (source_code ms text) else source_code ms text)"
proof -
  obtain ms1 p1 where p: "parse ms (Parser_new (ac_source_path c) (Some text)) [] =
      (True, ms1, p1, [main_function (parsed_instrs ms (getlines text))])"
    using parse_new_text [OF ne] by blast
  obtain mc cg where g: "generate [main_function (parsed_instrs ms (getlines text))] generator_init = (mc, cg)"
    by fastforce
  have mc: "mc = source_code ms text" by (simp add: source_code_def g)
  from res show ?thesis
    unfolding compile_to_native_def
    by (auto simp: Let_def src p g mc split: option.splits if_splits prod.splits dest: write_file_read(1))
qed

text \<open>A source that cannot be read has no lines, and without a line there is no success.\<close>

lemma compile_to_native_needs_lines:
  assumes "compile_to_native ms c out as_elf w = (True, ms', c', w')"
  shows "\<exists>text. read_text w (ac_source_path c) = Some text \<and> getlines text \<noteq> []"
proof (rule ccontr)
  assume "\<not> ?thesis"
  then have "ps_lines (Parser_new (ac_source_path c) (read_text w (ac_source_path c))) = []"
    by (auto simp: Parser_new_def split: option.split)
  then show False using assms by (simp add: compile_to_native_def parse_def Let_def)
qed

text \<open>Compilation succeeds whenever the source has a line and the output can be written.\<close>

lemma compile_to_native_succeeds:
  assumes "read_text w (ac_source_path c) = Some text" and "getlines text \<noteq> []"
    and "can_create w out" and "disk_room w out = None"
  shows "\<exists>ms' w'. compile_to_native ms c out as_elf w = (True, ms', c, w')"
proof -
  obtain ms1 p1 where p: "parse ms (Parser_new (ac_source_path c) (Some text)) [] =
      (True, ms1, p1, [main_function (parsed_instrs ms (getlines text))])"
    using parse_new_text [OF assms(2)] by blast
  show ?thesis
    unfolding compile_to_native_def
    using assms(3,4) by (simp add: Let_def assms(1) p write_file_ok split: prod.split)
qed

text \<open>The size of the generated code: 39 bytes a print, 22 an exit, one return, the pool.\<close>

lemma length_source_code:
  "length (source_code ms text) =
     code_size 39 22 (map item_of (parsed_instrs ms (getlines text))) + 1 +
     length (pool_bytes (map item_of (parsed_instrs ms (getlines text))))"
  unfolding source_code_def generate_main_image [OF parsed_instrs_wf(1)]
  by (simp add: length_lay)

lemma source_code_nonempty: "source_code ms text \<noteq> []"
  using generate_main_image [OF parsed_instrs_wf(1)] by (simp add: source_code_def)

lemma source_code_runs:
  assumes im: "m_image m = pre @ source_code ms text"
    and rip: "m_rip m = m_base m + word_of_nat (length pre)"
    and small: "length (m_image m) < 2 ^ 31"
  shows "\<exists>out n. source_output ms text = Some out \<and> run n m = Exited 0 (m_out m @ bytes_of out)"
proof -
  obtain out where out: "source_output ms text = Some out"
    using source_output_total by blast
  then have "\<exists>n. run n m = Exited 0 (m_out m @ bytes_of out)"
    using generate_main_runs [OF parsed_instrs_wf(1) _ _ rip small] im
    unfolding source_output_def source_code_def by blast
  with out show ?thesis by blast
qed

lemma compiled_elf_runs:
  assumes "read_text w src = Some text" and "getlines text \<noteq> []"
    and "compile_to_elf ms (AOTCompiler_new src) out w = (True, ms', c', w')"
    and "length (source_code ms text) + 120 < 2 ^ 31"
  shows "\<exists>exe m txt n. read_file w' out = Some exe \<and> elf_load exe = Some m \<and>
           source_output ms text = Some txt \<and> run n m = Exited 0 (bytes_of txt)"
proof -
  let ?mc = "source_code ms text"
  let ?exe = "elf_prefix (120 + word_of_nat (length ?mc)) @ ?mc"
  have exe: "read_file w' out = Some ?exe"
    using compile_to_native_stores [of w "AOTCompiler_new src" "text" ms out True ms' c' w'] assms(1-3)
    by (simp add: AOTCompiler_new_def compile_to_elf_def build_elf_executable_prefix)
  let ?m = "\<lparr>m_base = 0x400000, m_image = ?exe, m_regs = (\<lambda>_. 0), m_rip = 0x400000 + 120, m_out = []\<rparr>"
  have "elf_load ?exe = Some ?m"
    by (rule elf_load_prefix) (use assms(4) in \<open>simp_all add: source_code_nonempty\<close>)
  moreover have "\<exists>txt n. source_output ms text = Some txt \<and> run n ?m = Exited 0 (m_out ?m @ bytes_of txt)"
    by (rule source_code_runs [of _ "elf_prefix (120 + word_of_nat (length ?mc))"])
       (use assms(4) in simp_all)
  ultimately show ?thesis using exe by fastforce
qed

text \<open>
  C1. A successful \<open>compile_to_elf\<close> leaves a file that loads as an ELF executable, and running
  it on the reference machine terminates with exit status 0 after printing exactly the text
  the parsed source prints before its first \<open>halt\<close>.
\<close>

theorem compile_to_elf_correct:
  assumes "read_text w src = Some text" and "getlines text \<noteq> []"
    and "compile_to_elf ms (AOTCompiler_new src) out w = (True, ms', c', w')"
    and "length (source_code ms text) + 120 < 2 ^ 31"
  shows "\<exists>exe m txt n. read_file w' out = Some exe \<and> elf_load exe = Some m \<and>
           source_output ms text = Some txt \<and> run n m = Exited 0 (bytes_of txt)"
  using assms by (rule compiled_elf_runs)

lemma compiled_raw_runs:
  assumes "read_text w src = Some text" and "getlines text \<noteq> []"
    and "compile_to_binary ms (AOTCompiler_new src) out w = (True, ms', c', w')"
    and "length (source_code ms text) < 2 ^ 31"
  shows "\<exists>raw txt. read_file w' out = Some raw \<and> source_output ms text = Some txt \<and>
           (\<forall>base. \<exists>n. run n \<lparr>m_base = base, m_image = raw, m_regs = (\<lambda>_. 0), m_rip = base, m_out = []\<rparr> =
                 Exited 0 (bytes_of txt))"
proof -
  let ?mc = "source_code ms text"
  have bin: "read_file w' out = Some ?mc"
    using compile_to_native_stores [of w "AOTCompiler_new src" "text" ms out False ms' c' w'] assms(1-3)
    by (simp add: AOTCompiler_new_def compile_to_binary_def)
  obtain shown where shown: "source_output ms text = Some shown"
    using source_output_total by blast
  have "\<exists>n. run n \<lparr>m_base = base, m_image = ?mc, m_regs = (\<lambda>_. 0), m_rip = base, m_out = []\<rparr> =
      Exited 0 (bytes_of shown)" for base
    using source_code_runs [of "\<lparr>m_base = base, m_image = ?mc, m_regs = (\<lambda>_. 0), m_rip = base, m_out = []\<rparr>" "[]" ms "text"]
      assms(4) shown by simp
  with bin shown show ?thesis by blast
qed

text \<open>
  C4. A successful \<open>compile_to_binary\<close> leaves the raw machine code: loaded at any base address and
  entered at its first byte, it terminates with status 0 and prints the same text.
\<close>

theorem compile_to_binary_correct:
  assumes "read_text w src = Some text" and "getlines text \<noteq> []"
    and "compile_to_binary ms (AOTCompiler_new src) out w = (True, ms', c', w')"
    and "length (source_code ms text) < 2 ^ 31"
  shows "\<exists>raw txt. read_file w' out = Some raw \<and> source_output ms text = Some txt \<and>
           (\<forall>base. \<exists>n. run n \<lparr>m_base = base, m_image = raw, m_regs = (\<lambda>_. 0), m_rip = base, m_out = []\<rparr> =
                 Exited 0 (bytes_of txt))"
  by (rule compiled_raw_runs [OF assms])

section \<open>A concrete program\<close>

definition hello_source :: string where
  "hello_source = ''say '' @ [CHR 0x22] @ ''hi'' @ [CHR 0x22] @ '';'' @ nl @ ''halt;'' @ nl"

lemma hello_items:
  "map item_of (parsed_instrs match_state_init (getlines hello_source)) = [Print (''hi'' @ nl), Exit]"
  by code_simp

lemma hello_lines: "getlines hello_source \<noteq> []"
  by code_simp

lemma hello_size: "length (source_code match_state_init hello_source) = 65"
  by (simp add: length_source_code hello_items nl_def)

theorem compile_to_elf_correct_witness:
  "\<exists>w' exe m n. read_file w' ''out'' = Some exe \<and> elf_load exe = Some m \<and>
     run n m = Exited 0 (bytes_of (''hi'' @ nl))"
proof -
  let ?w = "sample_world ''a.nl'' hello_source"
  obtain ms' w' where c: "compile_to_elf match_state_init (AOTCompiler_new ''a.nl'') ''out'' ?w =
      (True, ms', AOTCompiler_new ''a.nl'', w')"
    using compile_to_native_succeeds [of ?w "AOTCompiler_new ''a.nl''" hello_source "''out''" match_state_init True]
    by (auto simp: compile_to_elf_def AOTCompiler_new_def hello_lines)
  have out: "source_output match_state_init hello_source = Some (''hi'' @ nl)"
    by (simp add: source_output_def hello_items)
  show ?thesis
    using compile_to_elf_correct [OF _ hello_lines c] by (auto simp: hello_size out)
qed

theorem compile_to_binary_correct_witness:
  "\<exists>w' raw. read_file w' ''out'' = Some raw \<and>
     (\<exists>n. run n \<lparr>m_base = 0x10000, m_image = raw, m_regs = (\<lambda>_. 0), m_rip = 0x10000, m_out = []\<rparr> =
        Exited 0 (bytes_of (''hi'' @ nl)))"
proof -
  let ?w = "sample_world ''a.nl'' hello_source"
  obtain ms' w' where c: "compile_to_binary match_state_init (AOTCompiler_new ''a.nl'') ''out'' ?w =
      (True, ms', AOTCompiler_new ''a.nl'', w')"
    using compile_to_native_succeeds [of ?w "AOTCompiler_new ''a.nl''" hello_source "''out''" match_state_init False]
    by (auto simp: compile_to_binary_def AOTCompiler_new_def hello_lines)
  have out: "source_output match_state_init hello_source = Some (''hi'' @ nl)"
    by (simp add: source_output_def hello_items)
  have "\<exists>raw txt. read_file w' ''out'' = Some raw \<and> source_output match_state_init hello_source = Some txt \<and>
      (\<forall>base. \<exists>n. run n \<lparr>m_base = base, m_image = raw, m_regs = (\<lambda>_. 0), m_rip = base, m_out = []\<rparr> =
            Exited 0 (bytes_of txt))"
    by (rule compile_to_binary_correct [OF _ hello_lines c]) (simp_all add: hello_size)
  then show ?thesis unfolding out by blast
qed

end
