(* ===== verification/Text_Tools.thy ===== *)
theory Text_Tools
  imports Prelude
begin

text \<open>
  The line and token helpers at the head of \<open>src/nanlang_cpp.cpp\<close>, shared by the native
  front end, the byte code compiler and the UI scene parser: trimming, comment stripping,
  keyword tests, string literals, signals, integers and the tokenizer of \<open>ui\<close> directives.
  A function that fills an out parameter and returns a \<open>bool\<close> returns an option here. The
  lemmas give the round trips between \<open>quote_for_log\<close> and the two literal readers, and show
  that comment stripping respects literals.
\<close>

section \<open>Trimming and comments\<close>

definition trim_begin :: "string \<Rightarrow> nat" where
  "trim_begin s = length (takeWhile isspace s)"

text \<open>\<open>e\<close> after the second loop: it stops at \<open>b\<close>.\<close>

definition trim_end :: "string \<Rightarrow> nat \<Rightarrow> nat" where
  "trim_end s b = b + length (dropWhile isspace (rev (drop b s)))"

definition trim :: "string \<Rightarrow> string" where
  "trim s = (let b = trim_begin s; e = trim_end s b in substr s b (e - b))"

definition trim_inplace :: "string \<Rightarrow> string" where
  "trim_inplace s =
     (let b = trim_begin s; e = trim_end s b
      in if b = 0 \<and> e = length s then s else substr s b (e - b))"

text \<open>
  The loop of the two comment strippers: the index \<open>i\<close> at which the line is cut, if any.
  The last character is never looked at as the first of a pair.
\<close>

fun comment_pos :: "bool \<Rightarrow> bool \<Rightarrow> string \<Rightarrow> nat option" where
  "comment_pos in_string escaped (c # d # cs) =
     (if escaped then map_option Suc (comment_pos in_string False (d # cs))
      else if c = CHR 0x5C \<and> in_string then map_option Suc (comment_pos in_string True (d # cs))
      else if c = CHR 0x22 then map_option Suc (comment_pos (\<not> in_string) False (d # cs))
      else if \<not> in_string \<and> c = CHR ''/'' \<and> d = CHR ''/'' then Some 0
      else map_option Suc (comment_pos in_string False (d # cs)))"
| "comment_pos in_string escaped cs = None"

definition strip_line_comment :: "string \<Rightarrow> string" where
  "strip_line_comment s =
     (case comment_pos False False s of Some i \<Rightarrow> substr s 0 i | None \<Rightarrow> s)"

definition strip_line_comment_inplace :: "string \<Rightarrow> string" where
  "strip_line_comment_inplace s =
     (case comment_pos False False s of Some i \<Rightarrow> take i s | None \<Rightarrow> s)"

definition normalize_source_line :: "string \<Rightarrow> string" where
  "normalize_source_line line = trim_inplace (strip_line_comment_inplace line)"

definition starts_with_keyword :: "string \<Rightarrow> string \<Rightarrow> bool" where
  "starts_with_keyword line kw \<longleftrightarrow>
     prefix kw line \<and>
     (length line = length kw \<or>
      (let c = line ! length kw in isspace c \<or> c = CHR '';''))"

section \<open>String literals\<close>

fun unescape_string :: "string \<Rightarrow> string" where
  "unescape_string [] = []"
| "unescape_string [c] = [c]"
| "unescape_string (c # n # cs) =
     (if c \<noteq> CHR 0x5C then c # unescape_string (n # cs)
      else if n = CHR ''n'' then CHR 0x0A # unescape_string cs
      else if n = CHR ''t'' then CHR 0x09 # unescape_string cs
      else if n = CHR ''r'' then CHR 0x0D # unescape_string cs
      else if n = CHR 0x22 then CHR 0x22 # unescape_string cs
      else if n = CHR 0x5C then CHR 0x5C # unescape_string cs
      else if n = CHR ''0'' then CHR 0x00 # unescape_string cs
      else CHR 0x5C # n # unescape_string cs)"

text \<open>The loop of \<open>extract_quoted_string\<close>; \<open>raw\<close> is the text between the quotes so far.\<close>

fun extract_loop :: "bool \<Rightarrow> bool \<Rightarrow> string \<Rightarrow> string \<Rightarrow> string option" where
  "extract_loop in_string escaped raw [] = None"
| "extract_loop in_string escaped raw (c # cs) =
     (if \<not> in_string then extract_loop (c = CHR 0x22) escaped raw cs
      else if escaped then extract_loop True False (raw @ [c]) cs
      else if c = CHR 0x5C then extract_loop True True (raw @ [c]) cs
      else if c = CHR 0x22 then Some (unescape_string raw)
      else extract_loop True False (raw @ [c]) cs)"

definition extract_quoted_string :: "string \<Rightarrow> string option" where
  "extract_quoted_string line = extract_loop False False [] line"

definition log_escape :: "char \<Rightarrow> string" where
  "log_escape c =
     (if c = CHR 0x5C then [CHR 0x5C, CHR 0x5C]
      else if c = CHR 0x22 then [CHR 0x5C, CHR 0x22]
      else if c = CHR 0x0A then [CHR 0x5C, CHR ''n'']
      else if c = CHR 0x0D then [CHR 0x5C, CHR ''r'']
      else if c = CHR 0x09 then [CHR 0x5C, CHR ''t'']
      else [c])"

definition quote_for_log :: "string \<Rightarrow> string" where
  "quote_for_log text = [CHR 0x22] @ concat (map log_escape text) @ [CHR 0x22]"

section \<open>Signals\<close>

definition parse_signal_token :: "string \<Rightarrow> byte option" where
  "parse_signal_token token =
     (if token = ''^'' then Some 0x01
      else if token = ''_'' then Some 0x00
      else if token = ''?'' then Some 0xFF
      else if token = ''_>_'' then Some 0x10
      else if token = ''_>>_'' then Some 0x11
      else None)"

text \<open>\<open>Some (is_pulse, signal)\<close>.\<close>

definition parse_pulse_or_emit :: "string \<Rightarrow> (bool \<times> byte) option" where
  "parse_pulse_or_emit line =
     (let pulse = prefix ''pulse'' line; emit = prefix ''emit'' line
      in if \<not> pulse \<and> \<not> emit then None
         else
           (let kw_len = (if pulse then 5 else 4)
            in if length line \<le> kw_len then None
               else if \<not> isspace (line ! kw_len) then None
               else
                 (let token = takeWhile (\<lambda>c. \<not> isspace c \<and> c \<noteq> CHR '';'')
                                (dropWhile isspace (drop kw_len line))
                  in if token = [] then None
                     else (case parse_signal_token token of
                             None \<Rightarrow> None
                           | Some signal \<Rightarrow> Some (pulse, signal)))))"

section \<open>Integers\<close>

definition digit_value :: "char \<Rightarrow> nat option" where
  "digit_value c =
     (let n = of_char c :: nat
      in if 48 \<le> n \<and> n \<le> 57 then Some (n - 48)
         else if 97 \<le> n \<and> n \<le> 122 then Some (n - 87)
         else if 65 \<le> n \<and> n \<le> 90 then Some (n - 55)
         else None)"

definition is_digit_of :: "nat \<Rightarrow> char \<Rightarrow> bool" where
  "is_digit_of base c = (case digit_value c of None \<Rightarrow> False | Some d \<Rightarrow> d < base)"

definition digits_value :: "nat \<Rightarrow> string \<Rightarrow> nat" where
  "digits_value base ds =
     foldl (\<lambda>acc c. acc * base + (case digit_value c of Some d \<Rightarrow> d | None \<Rightarrow> 0)) 0 ds"

text \<open>
  C's \<open>strtoll\<close> on an unbounded integer: white space, an optional sign, the prefix of the
  base, digits. The result is the value and the number of characters read; \<open>None\<close> when no
  digit is found. Base 0 reads the base off the prefix.
\<close>

definition strtol_raw :: "nat \<Rightarrow> string \<Rightarrow> (int \<times> nat) option" where
  "strtol_raw base s =
     (let t = dropWhile isspace s;
          neg = (t \<noteq> [] \<and> hd t = CHR ''-'');
          u = (if t \<noteq> [] \<and> (hd t = CHR ''-'' \<or> hd t = CHR ''+'') then tl t else t);
          hex = ((prefix ''0x'' u \<or> prefix ''0X'' u) \<and> 2 < length u \<and> is_digit_of 16 (u ! 2)
                 \<and> (base = 0 \<or> base = 16));
          v = (if hex then drop 2 u else u);
          b = (if hex then 16
               else if base = 0 then (if prefix ''0'' u then 8 else 10) else base);
          ds = takeWhile (is_digit_of b) v
      in if ds = [] then None
         else Some ((if neg then - int (digits_value b ds) else int (digits_value b ds)),
                    length s - length v + length ds))"

text \<open>\<open>std::stoll\<close> and \<open>std::stoi\<close>: out of range throws, like finding no digit.\<close>

definition stoll :: "nat \<Rightarrow> string \<Rightarrow> (int \<times> nat) option" where
  "stoll base s =
     (case strtol_raw base s of
        None \<Rightarrow> None
      | Some (v, n) \<Rightarrow> if - (2 ^ 63) \<le> v \<and> v < 2 ^ 63 then Some (v, n) else None)"

definition stoi :: "nat \<Rightarrow> string \<Rightarrow> (int \<times> nat) option" where
  "stoi base s =
     (case strtol_raw base s of
        None \<Rightarrow> None
      | Some (v, n) \<Rightarrow> if - (2 ^ 31) \<le> v \<and> v < 2 ^ 31 then Some (v, n) else None)"

definition parse_int_token :: "string \<Rightarrow> int option" where
  "parse_int_token token =
     (case stoll 0 token of
        None \<Rightarrow> None
      | Some (v, consumed) \<Rightarrow> if consumed = length token then Some v else None)"

section \<open>The tokenizer of ui directives\<close>

record ui_lexer =
  lx_tokens :: "string list"
  lx_current :: string
  lx_in_string :: bool
  lx_escaped :: bool

definition ui_unescape :: "char \<Rightarrow> string" where
  "ui_unescape c =
     (if c = CHR ''n'' then [CHR 0x0A]
      else if c = CHR ''r'' then [CHR 0x0D]
      else if c = CHR ''t'' then [CHR 0x09]
      else if c = CHR 0x22 then [CHR 0x22]
      else if c = CHR 0x5C then [CHR 0x5C]
      else [CHR 0x5C, c])"

fun tokenize_loop :: "ui_lexer \<Rightarrow> string \<Rightarrow> ui_lexer" where
  "tokenize_loop x [] = x"
| "tokenize_loop x (c # cs) =
     (if lx_in_string x then
        (if lx_escaped x then
           tokenize_loop (x\<lparr>lx_current := lx_current x @ ui_unescape c, lx_escaped := False\<rparr>) cs
         else if c = CHR 0x5C then tokenize_loop (x\<lparr>lx_escaped := True\<rparr>) cs
         else if c = CHR 0x22 then
           tokenize_loop (x\<lparr>lx_tokens := lx_tokens x @ [lx_current x], lx_current := [],
                            lx_in_string := False\<rparr>) cs
         else tokenize_loop (x\<lparr>lx_current := lx_current x @ [c]\<rparr>) cs)
      else if c = CHR 0x22 then tokenize_loop (x\<lparr>lx_in_string := True\<rparr>) cs
      else if c = CHR '';'' \<or> isspace c then
        (if lx_current x \<noteq> [] then
           tokenize_loop (x\<lparr>lx_tokens := lx_tokens x @ [lx_current x], lx_current := []\<rparr>) cs
         else tokenize_loop x cs)
      else if c = CHR ''/'' \<and> cs \<noteq> [] \<and> hd cs = CHR ''/'' then x
      else tokenize_loop (x\<lparr>lx_current := lx_current x @ [c]\<rparr>) cs)"

definition tokenize_ui_directive :: "string \<Rightarrow> string list \<times> bool" where
  "tokenize_ui_directive line =
     (let x = tokenize_loop
                \<lparr>lx_tokens = [], lx_current = [], lx_in_string = False, lx_escaped = False\<rparr> line
      in (if lx_current x \<noteq> [] then lx_tokens x @ [lx_current x] else lx_tokens x,
          \<not> lx_in_string x))"

section \<open>Escapes\<close>

text \<open>An escaped character is a backslash and a letter both readers turn back, or itself.\<close>

lemma log_escape_cases:
  obtains (escaped) d where "log_escape c = [CHR 0x5C, d]" "ui_unescape d = [c]"
      "\<And>t. unescape_string (CHR 0x5C # d # t) = c # unescape_string t"
    | (itself) "log_escape c = [c]" "c \<noteq> CHR 0x5C" "c \<noteq> CHR 0x22"
proof -
  consider "c = CHR 0x5C" | "c = CHR 0x22" | "c = CHR 0x0A" | "c = CHR 0x0D" | "c = CHR 0x09"
    | "log_escape c = [c]" "c \<noteq> CHR 0x5C" "c \<noteq> CHR 0x22"
    by (fastforce simp: log_escape_def)
  then show thesis
    by cases (use escaped itself in \<open>simp_all add: log_escape_def ui_unescape_def\<close>)
qed

section \<open>Trimming\<close>

lemma dropWhile_drop: "dropWhile P s = drop (length (takeWhile P s)) s"
  by (metis append_eq_conv_conj takeWhile_dropWhile_id)

lemma dropWhile_rev: "rev (dropWhile P (rev t)) = take (length (dropWhile P (rev t))) t"
proof -
  have "t = rev (dropWhile P (rev t)) @ rev (takeWhile P (rev t))"
    by (metis rev_append rev_rev_ident takeWhile_dropWhile_id)
  then show ?thesis by (metis append_eq_conv_conj length_rev)
qed

lemma trim_eq: "trim s = trim_by isspace s"
  by (simp add: trim_def trim_by_def trim_begin_def trim_end_def substr_def dropWhile_drop [symmetric]
      dropWhile_rev)

lemma trim_inplace_eq: "trim_inplace s = trim s"
  by (auto simp: trim_inplace_def trim_def substr_def Let_def)

lemma strip_line_comment_eq: "strip_line_comment_inplace s = strip_line_comment s"
  by (simp add: strip_line_comment_inplace_def strip_line_comment_def substr_def split: option.split)

lemma normalize_source_line_eq: "normalize_source_line l = trim_by isspace (strip_line_comment l)"
  by (simp add: normalize_source_line_def trim_inplace_eq trim_eq strip_line_comment_eq)

section \<open>Comments respect string literals\<close>

lemma comment_pos_Cons:
  "t \<noteq> [] \<Longrightarrow> comment_pos in_string escaped (c # t) =
     (if escaped then map_option Suc (comment_pos in_string False t)
      else if c = CHR 0x5C \<and> in_string then map_option Suc (comment_pos in_string True t)
      else if c = CHR 0x22 then map_option Suc (comment_pos (\<not> in_string) False t)
      else if \<not> in_string \<and> c = CHR ''/'' \<and> hd t = CHR ''/'' then Some 0
      else map_option Suc (comment_pos in_string False t))"
  by (cases t) auto

definition plain_char :: "char \<Rightarrow> bool" where
  "plain_char c \<longleftrightarrow> c \<noteq> CHR 0x22 \<and> c \<noteq> CHR ''/''"

lemma comment_pos_plain:
  "\<forall>c \<in> set pre. plain_char c \<Longrightarrow>
   comment_pos False False (pre @ t) = map_option ((+) (length pre)) (comment_pos False False t)"
proof (induction pre)
  case (Cons c pre)
  show ?case
  proof (cases "pre @ t = []")
    case False
    then show ?thesis
      using Cons by (simp add: comment_pos_Cons plain_char_def option.map_comp comp_def)
  qed simp
next
  case Nil
  show ?case by (cases "comment_pos False False t") simp_all
qed

lemma comment_pos_body:
  "comment_pos True False (concat (map log_escape s) @ CHR 0x22 # t) =
   map_option ((+) (Suc (length (concat (map log_escape s))))) (comment_pos False False t)"
proof (induction s)
  case Nil
  then show ?case by (cases t) (simp_all add: comment_pos_Cons)
next
  case (Cons c s)
  show ?case
    by (rule log_escape_cases [of c])
       (simp_all add: Cons.IH comment_pos_Cons option.map_comp comp_def)
qed

lemma comment_pos_literal:
  "comment_pos False False (quote_for_log s @ t) =
   map_option ((+) (length (quote_for_log s))) (comment_pos False False t)"
  by (cases "comment_pos False False t")
     (simp_all add: quote_for_log_def comment_pos_Cons comment_pos_body)

lemma strip_literal_comment:
  assumes "\<forall>c \<in> set pre. plain_char c" "\<forall>c \<in> set suf. plain_char c"
  shows "strip_line_comment (pre @ quote_for_log s @ suf @ ''//'' @ rest) = pre @ quote_for_log s @ suf"
proof -
  have "comment_pos False False (''//'' @ rest) = Some 0" by (cases rest) simp_all
  then have "comment_pos False False (pre @ quote_for_log s @ suf @ ''//'' @ rest) =
      Some (length pre + (length (quote_for_log s) + length suf))"
    using assms by (simp only: comment_pos_plain comment_pos_literal) simp
  then show ?thesis by (simp add: strip_line_comment_def substr_def)
qed

lemma strip_literal:
  assumes "\<forall>c \<in> set pre. plain_char c" "\<forall>c \<in> set suf. plain_char c"
  shows "strip_line_comment (pre @ quote_for_log s @ suf) = pre @ quote_for_log s @ suf"
  using assms comment_pos_plain [of pre "quote_for_log s @ suf"] comment_pos_literal [of s suf]
    comment_pos_plain [of suf "[]"]
  by (simp add: strip_line_comment_def)

section \<open>Literals read back\<close>

lemma unescape_plain:
  "c \<noteq> CHR 0x5C \<Longrightarrow> unescape_string (c # t) = c # unescape_string t"
  by (cases t) simp_all

lemma unescape_log_escape:
  "unescape_string (concat (map log_escape s) @ t) = s @ unescape_string t"
proof (induction s)
  case (Cons c s)
  show ?case
    by (rule log_escape_cases [of c])
       (simp_all add: Cons.IH unescape_plain del: unescape_string.simps)
qed simp

lemma extract_loop_body:
  "extract_loop True False text (concat (map log_escape s) @ CHR 0x22 # t) =
   Some (unescape_string (text @ concat (map log_escape s)))"
proof (induction s arbitrary: "text")
  case (Cons c s)
  show ?case by (rule log_escape_cases [of c]) (simp_all add: Cons.IH)
qed simp

lemma extract_loop_skip:
  "CHR 0x22 \<notin> set pre \<Longrightarrow> extract_loop False e r (pre @ t) = extract_loop False e r t"
  by (induction pre) auto

lemma extract_quote_for_log:
  "CHR 0x22 \<notin> set pre \<Longrightarrow> extract_quoted_string (pre @ quote_for_log s @ t) = Some s"
  using unescape_log_escape [of s "[]"]
  by (simp add: extract_quoted_string_def extract_loop_skip quote_for_log_def extract_loop_body)

lemma tokenize_body:
  "\<not> lx_escaped x \<Longrightarrow> lx_in_string x \<Longrightarrow>
   tokenize_loop x (concat (map log_escape s) @ CHR 0x22 # t) =
   tokenize_loop (x\<lparr>lx_tokens := lx_tokens x @ [lx_current x @ s], lx_current := [],
                    lx_in_string := False, lx_escaped := False\<rparr>) t"
proof (induction s arbitrary: x)
  case Nil
  then show ?case by (cases x) simp
next
  case (Cons c s)
  show ?case
    by (rule log_escape_cases [of c]) (use Cons.prems in \<open>simp_all add: Cons.IH\<close>)
qed

definition quote_words :: "string list \<Rightarrow> string" where
  "quote_words ts = concat (map (\<lambda>t. quote_for_log t @ '' '') ts)"

lemma isspace_space [simp]: "isspace (CHR '' '')"
  by (simp add: isspace_def)

lemma tokenize_quote_words:
  "lx_current x = [] \<Longrightarrow> \<not> lx_in_string x \<Longrightarrow> \<not> lx_escaped x \<Longrightarrow>
   tokenize_loop x (quote_words ts @ rest) =
   tokenize_loop (x\<lparr>lx_tokens := lx_tokens x @ ts, lx_current := [], lx_in_string := False,
                    lx_escaped := False\<rparr>) rest"
proof (induction ts arbitrary: x)
  case Nil
  then have "x\<lparr>lx_current := [], lx_in_string := False, lx_escaped := False\<rparr> = x" by simp
  then show ?case by (simp add: quote_words_def)
next
  case (Cons t ts)
  have *: "quote_words (t # ts) @ rest =
      CHR 0x22 # concat (map log_escape t) @ CHR 0x22 # CHR '' '' # quote_words ts @ rest"
    by (simp add: quote_words_def quote_for_log_def)
  show ?case unfolding * using Cons.prems by (simp add: tokenize_body Cons.IH)
qed

end
