(* ===== verification/Native_Frontend.thy ===== *)
theory Native_Frontend
  imports Text_Tools World
begin

text \<open>
  The native front end of \<open>src/nanlang_cpp.cpp\<close>: \<open>NativeProgram\<close>, \<open>signal_name\<close>,
  \<open>handle_ui_directive\<close> and \<open>parse_native_program\<close>, which turns a source file into the list
  of texts the program writes. Each \<open>group\<close> of a \<open>ui\<close> directive is a definition of its own
  that returns \<open>None\<close> where the code falls through to the next test. The loop over the lines
  is a fold that stops at the first error; line numbers and counters are natural numbers.
\<close>

section \<open>The program and its signals\<close>

record NativeProgram =
  writes :: "string list"
  warning_lines :: "string list"
  np_has_halt :: bool
  emitted_ops :: nat

definition NativeProgram_new :: NativeProgram where
  "NativeProgram_new = \<lparr>writes = [], warning_lines = [], np_has_halt = False, emitted_ops = 0\<rparr>"

definition signal_name :: "byte \<Rightarrow> string" where
  "signal_name v =
     (if v = 0x00 then ''LOW''
      else if v = 0x01 then ''HIGH''
      else if v = 0xFF then ''UNCERTAIN''
      else if v = 0x10 then ''FALLING''
      else if v = 0x11 then ''DOUBLE_FALLING''
      else (let hex = ''0123456789abcdef'' in
            ''0x00''[2 := hex ! unat (drop_bit 4 v AND 0x0F), 3 := hex ! unat (v AND 0x0F)]))"

section \<open>ui directives\<close>

definition line_warning :: "nat \<Rightarrow> string \<Rightarrow> string" where
  "line_warning line_no msg = ''[WARN] line '' @ nat_to_string line_no @ '': '' @ msg"

definition add_warning :: "string \<Rightarrow> NativeProgram \<Rightarrow> NativeProgram" where
  "add_warning msg p = p\<lparr>warning_lines := warning_lines p @ [msg]\<rparr>"

definition emit_lines :: "string list \<Rightarrow> NativeProgram \<Rightarrow> NativeProgram" where
  "emit_lines lines p =
     p\<lparr>writes := writes p @ map (\<lambda>entry. entry @ [CHR 0x0A]) lines,
       emitted_ops := emitted_ops p + length lines\<rparr>"

definition emit_signal_pair :: "bool \<Rightarrow> NativeProgram \<Rightarrow> NativeProgram" where
  "emit_signal_pair high p =
     (if high then emit_lines [''[pulse] HIGH'', ''[emit] HIGH''] p
      else emit_lines [''[pulse] LOW'', ''[emit] LOW''] p)"

text \<open>\<open>!parse_int_token(t, a) || \<dots>\<close>: all the numbers, or \<open>None\<close> at the first bad one.\<close>

fun parse_int_tokens :: "string list \<Rightarrow> int list option" where
  "parse_int_tokens [] = Some []"
| "parse_int_tokens (t # ts) =
     (case parse_int_token t of
        None \<Rightarrow> None
      | Some v \<Rightarrow> (case parse_int_tokens ts of None \<Rightarrow> None | Some vs \<Rightarrow> Some (v # vs)))"

definition ui_warn :: "nat \<Rightarrow> string \<Rightarrow> string \<Rightarrow> NativeProgram \<Rightarrow> NativeProgram" where
  "ui_warn line_no msg line = add_warning (line_warning line_no (msg @ '': '' @ line))"

definition ui_app :: "string \<Rightarrow> NativeProgram \<Rightarrow> NativeProgram option" where
  "ui_app action p =
     (if action = ''begin'' then
        Some (emit_signal_pair True (emit_lines [''nan_graphics: app begin''] p))
      else if action = ''end'' then
        Some (emit_signal_pair False (emit_lines [''nan_graphics: app end''] p))
      else None)"

definition ui_window :: "string \<Rightarrow> string list \<Rightarrow> string \<Rightarrow> nat \<Rightarrow> NativeProgram \<Rightarrow> NativeProgram option" where
  "ui_window action tokens line line_no p =
     (if action = ''create'' then Some
        (if length tokens < 6 then ui_warn line_no ''malformed ui window create directive'' line p
         else case parse_int_tokens [tokens ! 3, tokens ! 4, tokens ! 5] of
           Some [window_id, width, height] \<Rightarrow>
             emit_signal_pair (0 < width \<and> 0 < height)
               (emit_lines [''ui.window.create id='' @ int_to_string window_id @
                  '' size='' @ int_to_string width @ ''x'' @ int_to_string height] p)
         | _ \<Rightarrow> ui_warn line_no ''invalid numeric value in ui window create directive'' line p)
      else if action = ''title'' then Some
        (if length tokens < 5 then ui_warn line_no ''malformed ui window title directive'' line p
         else case parse_int_token (tokens ! 3) of
           Some window_id \<Rightarrow>
             emit_lines [''ui.window.title id='' @ int_to_string window_id @
                '' title='' @ quote_for_log (tokens ! 4)] p
         | None \<Rightarrow> ui_warn line_no ''invalid window id in ui window title directive'' line p)
      else None)"

definition ui_layout :: "string \<Rightarrow> string list \<Rightarrow> string \<Rightarrow> nat \<Rightarrow> NativeProgram \<Rightarrow> NativeProgram option" where
  "ui_layout action tokens line line_no p =
     (if action = ''vertical'' \<or> action = ''horizontal'' then Some
        (if length tokens < 5 then ui_warn line_no ''malformed ui layout directive'' line p
         else case parse_int_tokens [tokens ! 3, tokens ! 4] of
           Some [window_id, spacing] \<Rightarrow>
             emit_lines [''ui.layout.'' @ action @ '' window='' @ int_to_string window_id @
                '' spacing='' @ int_to_string spacing] p
         | _ \<Rightarrow> ui_warn line_no ''invalid numeric value in ui layout directive'' line p)
      else None)"

definition ui_text_widget :: "string \<Rightarrow> string list \<Rightarrow> string \<Rightarrow> nat \<Rightarrow> NativeProgram \<Rightarrow> NativeProgram" where
  "ui_text_widget grp tokens line line_no p =
     (if length tokens < 5 then ui_warn line_no (''malformed ui '' @ grp @ '' directive'') line p
      else case parse_int_tokens [tokens ! 2, tokens ! 3] of
        Some [window_id, widget_id] \<Rightarrow>
          emit_lines [''ui.'' @ grp @ '' window='' @ int_to_string window_id @
             '' widget='' @ int_to_string widget_id @ '' text='' @ quote_for_log (tokens ! 4)] p
      | _ \<Rightarrow> ui_warn line_no (''invalid numeric value in ui '' @ grp @ '' directive'') line p)"

definition ui_slider :: "string list \<Rightarrow> string \<Rightarrow> nat \<Rightarrow> NativeProgram \<Rightarrow> NativeProgram" where
  "ui_slider tokens line line_no p =
     (if length tokens < 7 then ui_warn line_no ''malformed ui slider directive'' line p
      else case parse_int_tokens [tokens ! 2, tokens ! 3, tokens ! 4, tokens ! 5, tokens ! 6] of
        Some [window_id, widget_id, min_v, max_v, current] \<Rightarrow>
          emit_lines [''ui.slider window='' @ int_to_string window_id @
             '' widget='' @ int_to_string widget_id @
             '' range='' @ int_to_string min_v @ ''..'' @ int_to_string max_v @
             '' value='' @ int_to_string current] p
      | _ \<Rightarrow> ui_warn line_no ''invalid numeric value in ui slider directive'' line p)"

definition ui_chart :: "string \<Rightarrow> string list \<Rightarrow> string \<Rightarrow> nat \<Rightarrow> NativeProgram \<Rightarrow> NativeProgram option" where
  "ui_chart action tokens line line_no p =
     (if action = ''begin'' then Some
        (if length tokens < 6 then ui_warn line_no ''malformed ui chart begin directive'' line p
         else case parse_int_tokens [tokens ! 3, tokens ! 4, tokens ! 5] of
           Some [window_id, chart_id, samples] \<Rightarrow>
             emit_signal_pair (0 < samples)
               (emit_lines [''ui.chart.begin window='' @ int_to_string window_id @
                  '' chart='' @ int_to_string chart_id @ '' samples='' @ int_to_string samples] p)
         | _ \<Rightarrow> ui_warn line_no ''invalid numeric value in ui chart begin directive'' line p)
      else if action = ''point'' then Some
        (if length tokens < 6 then ui_warn line_no ''malformed ui chart point directive'' line p
         else case parse_int_tokens [tokens ! 3, tokens ! 4, tokens ! 5] of
           Some [chart_id, index, val] \<Rightarrow>
             emit_lines [''ui.chart.point chart='' @ int_to_string chart_id @
                '' index='' @ int_to_string index @ '' value='' @ int_to_string val] p
         | _ \<Rightarrow> ui_warn line_no ''invalid numeric value in ui chart point directive'' line p)
      else if action = ''commit'' then Some
        (if length tokens < 4 then ui_warn line_no ''malformed ui chart commit directive'' line p
         else case parse_int_token (tokens ! 3) of
           Some chart_id \<Rightarrow> emit_lines [''ui.chart.commit chart='' @ int_to_string chart_id] p
         | None \<Rightarrow> ui_warn line_no ''invalid chart id in ui chart commit directive'' line p)
      else None)"

definition ui_frame_present :: "string list \<Rightarrow> string \<Rightarrow> nat \<Rightarrow> NativeProgram \<Rightarrow> NativeProgram" where
  "ui_frame_present tokens line line_no p =
     (if length tokens < 4 then ui_warn line_no ''malformed ui frame present directive'' line p
      else case parse_int_token (tokens ! 3) of
        Some window_id \<Rightarrow>
          emit_signal_pair True
            (emit_lines [''ui.frame.present window='' @ int_to_string window_id] p)
      | None \<Rightarrow> ui_warn line_no ''invalid window id in ui frame present directive'' line p)"

definition handle_ui_directive :: "string \<Rightarrow> nat \<Rightarrow> NativeProgram \<Rightarrow> bool \<times> NativeProgram" where
  "handle_ui_directive line line_no p =
     (let (tokens, ok) = tokenize_ui_directive line in
      if \<not> ok then (True, ui_warn line_no ''unterminated quoted string in ui directive'' line p)
      else if length tokens < 2 \<or> tokens ! 0 \<noteq> ''ui'' then (False, p)
      else
        (let grp = tokens ! 1;
             action = (if 2 < length tokens then tokens ! 2 else []);
             handled =
               (if grp = ''app'' then ui_app action p
                else if grp = ''window'' then ui_window action tokens line line_no p
                else if grp = ''layout'' then ui_layout action tokens line line_no p
                else if grp = ''label'' \<or> grp = ''button'' then Some (ui_text_widget grp tokens line line_no p)
                else if grp = ''slider'' then Some (ui_slider tokens line line_no p)
                else if grp = ''chart'' then ui_chart action tokens line line_no p
                else if grp = ''frame'' \<and> action = ''present'' then Some (ui_frame_present tokens line line_no p)
                else None)
         in case handled of
              Some p' \<Rightarrow> (True, p')
            | None \<Rightarrow> (True, ui_warn line_no ''unsupported ui directive ignored'' line p)))"

section \<open>Lines\<close>

record native_parse =
  prog :: NativeProgram
  line_no :: nat
  warned_if :: bool
  warned_loop :: bool
  warned_return :: bool

definition is_brace_line :: "string \<Rightarrow> bool" where
  "is_brace_line line \<longleftrightarrow> line = ''{'' \<or> line = ''}'' \<or> line = ''};'' \<or> (line \<noteq> [] \<and> hd line = CHR ''}'')"

definition is_ignored_decl :: "string \<Rightarrow> bool" where
  "is_ignored_decl line \<longleftrightarrow>
     starts_with_keyword line ''fn'' \<or> starts_with_keyword line ''let'' \<or>
     starts_with_keyword line ''const'' \<or> starts_with_keyword line ''on'' \<or>
     starts_with_keyword line ''interrupt'' \<or> starts_with_keyword line ''purge'' \<or>
     starts_with_keyword line ''jitter''"

text \<open>One iteration of the loop: \<open>Inl\<close> is the message of an early \<open>return false\<close>.\<close>

definition native_line :: "string \<Rightarrow> native_parse \<Rightarrow> string + native_parse" where
  "native_line raw_line s0 =
     (let s = s0\<lparr>line_no := line_no s0 + 1\<rparr>;
          n = line_no s;
          p = prog s;
          line = normalize_source_line raw_line
      in
      if line = [] then Inr s
      else if is_brace_line line then Inr s
      else if starts_with_keyword line ''if'' \<or> starts_with_keyword line ''else'' then
        (if \<not> warned_if s
         then Inr (s\<lparr>prog := add_warning (line_warning n
                ''conditional flow is currently linearized by the native emitter.'') p,
              warned_if := True\<rparr>)
         else Inr s)
      else if starts_with_keyword line ''loop'' \<or> starts_with_keyword line ''break'' then
        (if \<not> warned_loop s
         then Inr (s\<lparr>prog := add_warning (line_warning n
                ''loop flow is currently linearized by the native emitter.'') p,
              warned_loop := True\<rparr>)
         else Inr s)
      else if starts_with_keyword line ''return'' then
        (if \<not> warned_return s
         then Inr (s\<lparr>prog := add_warning (line_warning n
                ''return statements are ignored in native emitter mode.'') p,
              warned_return := True\<rparr>)
         else Inr s)
      else if is_ignored_decl line then Inr s
      else if starts_with_keyword line ''say'' then
        (case extract_quoted_string line of
           None \<Rightarrow> Inl (''[ERROR] line '' @ nat_to_string n @ '': malformed say string literal'' @ [CHR 0x0A])
         | Some text \<Rightarrow>
             Inr (s\<lparr>prog := p\<lparr>writes := writes p @ [text @ [CHR 0x0A]],
                              emitted_ops := emitted_ops p + 1\<rparr>\<rparr>))
      else if starts_with_keyword line ''ui'' then
        (let (handled, p') = handle_ui_directive line n p
         in if handled then Inr (s\<lparr>prog := p'\<rparr>)
            else Inr (s\<lparr>prog := ui_warn n ''unsupported ui directive ignored'' line p'\<rparr>))
      else if starts_with_keyword line ''pulse'' \<or> starts_with_keyword line ''emit'' then
        (case parse_pulse_or_emit line of
           None \<Rightarrow> Inl (''[ERROR] line '' @ nat_to_string n @ '': malformed pulse/emit statement'' @ [CHR 0x0A])
         | Some (is_pulse, signal) \<Rightarrow>
             (let msg = ''['' @ (if is_pulse then ''pulse'' else ''emit'') @ ''] '' @
                        signal_name signal @ [CHR 0x0A]
              in Inr (s\<lparr>prog := p\<lparr>writes := writes p @ [msg], emitted_ops := emitted_ops p + 2\<rparr>\<rparr>)))
      else if starts_with_keyword line ''halt'' then
        Inr (s\<lparr>prog := p\<lparr>np_has_halt := True, emitted_ops := emitted_ops p + 1\<rparr>\<rparr>)
      else if line \<noteq> [] \<and> hd line = CHR ''@'' then
        Inr (s\<lparr>prog := p\<lparr>writes := writes p @ [''[mmio] '' @ line @ [CHR 0x0A]],
                         emitted_ops := emitted_ops p + 1\<rparr>\<rparr>)
      else if starts_with_keyword line ''@macro'' \<or> starts_with_keyword line ''NAN3'' \<or>
              starts_with_keyword line ''@nan_magic'' then Inr s
      else Inr (s\<lparr>prog := ui_warn n ''unsupported statement ignored'' line p\<rparr>))"

text \<open>The \<open>while (std::getline(...))\<close> loop.\<close>

fun fold_lines :: "(string \<Rightarrow> 's \<Rightarrow> 'e + 's) \<Rightarrow> string list \<Rightarrow> 's \<Rightarrow> 'e + 's" where
  "fold_lines f [] s = Inr s"
| "fold_lines f (l # ls) s = (case f l s of Inl e \<Rightarrow> Inl e | Inr s' \<Rightarrow> fold_lines f ls s')"

definition native_finish :: "NativeProgram \<Rightarrow> NativeProgram" where
  "native_finish p =
     (if \<not> np_has_halt p \<or> emitted_ops p = 0
      then p\<lparr>np_has_halt := True, emitted_ops := emitted_ops p + 1\<rparr> else p)"

text \<open>
  \<open>None\<close> is the result \<open>false\<close>. After an error the partly filled program is not used by any
  caller, so it is not returned.
\<close>

definition parse_native_program :: "string \<Rightarrow> NativeProgram \<Rightarrow> world \<Rightarrow> NativeProgram option \<times> world" where
  "parse_native_program src_path p w =
     (case read_text w src_path of
        None \<Rightarrow> (None, cerr (''[ERROR] Source not found: '' @ src_path @ [CHR 0x0A]) w)
      | Some text \<Rightarrow>
          (case fold_lines native_line (getlines text)
                  \<lparr>prog = p, line_no = 0, warned_if = False, warned_loop = False, warned_return = False\<rparr> of
             Inl msg \<Rightarrow> (None, cerr msg w)
           | Inr s \<Rightarrow> (Some (native_finish (prog s)), w)))"

section \<open>Rendered programs parse back\<close>

text \<open>A \<open>say\<close> statement for any text, newlines and quotes included.\<close>

definition say_line :: "string \<Rightarrow> string" where
  "say_line t = ''say '' @ quote_for_log t @ '';''"

lemma normalize_say_line [simp]: "normalize_source_line (say_line t) = say_line t"
proof -
  have "strip_line_comment (say_line t) = say_line t"
    using strip_literal [of "''say ''" "'';''" t] by (simp add: say_line_def plain_char_def)
  moreover have "trim_by isspace (say_line t) = say_line t"
    by (rule trim_by_id) (simp add: say_line_def isspace_def)
  ultimately show ?thesis by (simp add: normalize_source_line_eq)
qed

lemma extract_say_line [simp]: "extract_quoted_string (say_line t) = Some t"
  using extract_quote_for_log [of "''say ''" t "'';''"] by (simp add: say_line_def)

lemma say_line_keywords [simp]:
  "say_line t \<noteq> []" "\<not> is_brace_line (say_line t)" "\<not> is_ignored_decl (say_line t)"
  "\<not> starts_with_keyword (say_line t) ''if''" "\<not> starts_with_keyword (say_line t) ''else''"
  "\<not> starts_with_keyword (say_line t) ''loop''" "\<not> starts_with_keyword (say_line t) ''break''"
  "\<not> starts_with_keyword (say_line t) ''return''" "\<not> starts_with_keyword (say_line t) ''ui''"
  "starts_with_keyword (say_line t) ''say''"
  by (simp_all add: say_line_def is_brace_line_def is_ignored_decl_def starts_with_keyword_def isspace_def)

lemma newline_free_escape: "CHR 0x0A \<notin> set (log_escape c)"
  by (simp add: log_escape_def)

lemma newline_free_say_line: "CHR 0x0A \<notin> set (say_line t)"
  by (auto simp: say_line_def quote_for_log_def newline_free_escape)

lemma getlines_say_lines: "getlines (unlines (map say_line ts)) = map say_line ts"
  by (rule getlines_unlines) (auto simp: newline_free_say_line)

lemma native_line_say:
  "native_line (say_line t) s =
     Inr (s\<lparr>line_no := line_no s + 1,
            prog := (prog s)\<lparr>writes := writes (prog s) @ [t @ [CHR 0x0A]],
                             emitted_ops := emitted_ops (prog s) + 1\<rparr>\<rparr>)"
  by (simp add: native_line_def Let_def)

lemma fold_native_say:
  "fold_lines native_line (map say_line ts) s =
     Inr (s\<lparr>line_no := line_no s + length ts,
            prog := (prog s)\<lparr>writes := writes (prog s) @ map (\<lambda>t. t @ [CHR 0x0A]) ts,
                             emitted_ops := emitted_ops (prog s) + length ts\<rparr>\<rparr>)"
proof (induction ts arbitrary: s)
  case Nil
  show ?case by (cases s) simp
qed (simp add: native_line_say)

section \<open>Well-formed programs\<close>

text \<open>
  Each write ends its line, and the operation count that is reported covers at least the
  writes; a finished program has a halt, counted too.
\<close>

definition np_inv :: "NativeProgram \<Rightarrow> bool" where
  "np_inv p \<longleftrightarrow> list_all (\<lambda>t. t \<noteq> [] \<and> last t = CHR 0x0A) (writes p) \<and>
     length (writes p) + (if np_has_halt p then 1 else 0) \<le> emitted_ops p"

lemma np_inv_emit_lines [simp]: "np_inv p \<Longrightarrow> np_inv (emit_lines ls p)"
  by (auto simp: np_inv_def emit_lines_def list_all_iff)

lemma np_inv_warn [simp]: "np_inv (add_warning m p) = np_inv p" "np_inv (ui_warn n m l p) = np_inv p"
  by (simp_all add: np_inv_def add_warning_def ui_warn_def)

lemma np_inv_signal [simp]: "np_inv p \<Longrightarrow> np_inv (emit_signal_pair b p)"
  by (simp add: emit_signal_pair_def)

text \<open>What holds of every branch of a line's result holds of the result.\<close>

definition keeps_inv :: "NativeProgram option \<Rightarrow> bool" where
  "keeps_inv r \<longleftrightarrow> (\<forall>p. r = Some p \<longrightarrow> np_inv p)"

lemma keeps_inv_simps [simp]: "keeps_inv None" "keeps_inv (Some p) = np_inv p"
  by (simp_all add: keeps_inv_def)

lemma branches:
  "(b \<Longrightarrow> P x) \<Longrightarrow> (\<not> b \<Longrightarrow> P y) \<Longrightarrow> P (if b then x else y)"
  "P n \<Longrightarrow> (\<And>v. P (g v)) \<Longrightarrow> P (case r of None \<Rightarrow> n | Some v \<Rightarrow> g v)"
  "P n \<Longrightarrow> (\<And>v vs. P (h v vs)) \<Longrightarrow> P (case xs of [] \<Rightarrow> n | v # vs \<Rightarrow> h v vs)"
  by (simp_all split: option.split list.split)

lemmas keeps_inv_intros = branches [where P = keeps_inv] branches [where P = np_inv]
  keeps_inv_simps(1) keeps_inv_simps(2) [THEN iffD2] np_inv_emit_lines np_inv_signal
  np_inv_warn(2) [THEN iffD2]

lemma np_inv_groups:
  assumes "np_inv p"
  shows "keeps_inv (ui_app a p)" "keeps_inv (ui_window a ts l n p)"
    "keeps_inv (ui_layout a ts l n p)" "keeps_inv (ui_chart a ts l n p)"
    "np_inv (ui_text_widget g ts l n p)" "np_inv (ui_slider ts l n p)"
    "np_inv (ui_frame_present ts l n p)"
  unfolding ui_app_def ui_window_def ui_layout_def ui_chart_def ui_text_widget_def
      ui_slider_def ui_frame_present_def
  by (rule keeps_inv_intros assms)+

lemma np_inv_directive:
  assumes "np_inv p"
  shows "np_inv (snd (handle_ui_directive l n p))"
proof -
  have "keeps_inv r \<Longrightarrow> np_inv (snd (case r of Some p' \<Rightarrow> (True, p') | None \<Rightarrow> (True, ui_warn n m l p)))"
    for r m using assms by (simp add: keeps_inv_def split: option.split)
  note k = this
  show ?thesis
    unfolding handle_ui_directive_def Let_def
    by (cases "tokenize_ui_directive l")
       (auto simp only: prod.case fst_conv snd_conv np_inv_warn assms
         intro!: k keeps_inv_intros np_inv_groups split: if_split)
qed

definition line_keeps :: "string + native_parse \<Rightarrow> bool" where
  "line_keeps r \<longleftrightarrow> (\<forall>s. r = Inr s \<longrightarrow> np_inv (prog s))"

lemma line_keeps_simps [simp]: "line_keeps (Inl e)" "line_keeps (Inr s) = np_inv (prog s)"
  by (simp_all add: line_keeps_def)

lemma line_keeps_pair:
  "(\<And>a b. x = (a, b) \<Longrightarrow> line_keeps (h a b)) \<Longrightarrow> line_keeps (case x of (a, b) \<Rightarrow> h a b)"
  by (cases x) simp

lemmas line_keeps_intros = branches [where P = line_keeps] line_keeps_pair line_keeps_simps(1)
  line_keeps_simps(2) [THEN iffD2]

lemma native_line_inv:
  assumes inv: "np_inv (prog s)"
  shows "line_keeps (native_line l s)"
proof -
  have ui: "np_inv p'" if "handle_ui_directive x n (prog s) = (b, p')" for x n b p'
    using np_inv_directive [OF inv, of x n] that by simp
  show ?thesis
    unfolding native_line_def Let_def
    by (rule line_keeps_intros | (simp add: inv ui; fail) |
      (insert inv; simp add: np_inv_def; fail))+
qed

lemma fold_lines_inv:
  assumes "\<And>l s s'. P s \<Longrightarrow> f l s = Inr s' \<Longrightarrow> P s'"
  shows "P s \<Longrightarrow> fold_lines f ls s = Inr s' \<Longrightarrow> P s'"
  by (induction ls arbitrary: s) (auto split: sum.splits dest: assms)

lemma parsed_program_inv:
  assumes "parse_native_program src NativeProgram_new w = (Some p, w')"
  shows "np_inv p \<and> np_has_halt p"
proof -
  obtain content s where p: "p = native_finish (prog s)"
    and f: "fold_lines native_line (getlines content)
       \<lparr>prog = NativeProgram_new, line_no = 0, warned_if = False, warned_loop = False,
         warned_return = False\<rparr> = Inr s"
    using assms by (auto simp: parse_native_program_def split: option.splits sum.splits)
  have "np_inv (prog s)"
  proof (rule fold_lines_inv [OF _ _ f, where P = "\<lambda>s. np_inv (prog s)"])
    fix l s s' assume "np_inv (prog s)" "native_line l s = Inr s'"
    then show "np_inv (prog s')" using native_line_inv [of s l] by simp
  qed (simp add: np_inv_def NativeProgram_new_def)
  then show ?thesis by (auto simp: p native_finish_def np_inv_def)
qed

end
