(* ===== verification/Native_Emit.thy ===== *)
theory Native_Emit
  imports Native_Frontend Emitter Elf
begin

text \<open>
  \<open>emit_native_payload\<close> of \<open>src/nanlang_cpp.cpp\<close>: the machine code and the assembly listing of
  a native program, with its helpers. The lemmas interpret the locale \<open>emitter\<close> on the blocks
  it emits and show that the payload, loaded anywhere, prints the program's writes.
\<close>

section \<open>Emission helpers\<close>

definition append_bytes :: "byte list \<Rightarrow> byte list \<Rightarrow> byte list" where
  "append_bytes out data = out @ data"

definition emit_mov_reg_imm32 :: "byte list \<Rightarrow> byte \<Rightarrow> u32 \<Rightarrow> byte list" where
  "emit_mov_reg_imm32 code reg_opcode imm =
     append_u32_le (append_bytes code [0x48, 0xC7, reg_opcode]) imm"

definition native_lea_rsi_rip_placeholder :: "byte list \<Rightarrow> nat \<times> byte list" where
  "native_lea_rsi_rip_placeholder code =
     (let code = append_bytes code [0x48, 0x8D, 0x35];
          disp_offset = length code
      in (disp_offset, append_u32_le code 0))"

definition native_syscall :: "byte list \<Rightarrow> byte list" where
  "native_syscall code = append_bytes code [0x0F, 0x05]"

definition to_hex_byte :: "byte \<Rightarrow> string" where
  "to_hex_byte b =
     (let kHex = ''0123456789ABCDEF'' in
      ''0x00''[2 := kHex ! unat (drop_bit 4 b AND 0x0F), 3 := kHex ! unat (b AND 0x0F)])"

text \<open>\<open>", "\<close> before every entry but the first.\<close>

fun comma_join :: "string list \<Rightarrow> string" where
  "comma_join [] = []"
| "comma_join [x] = x"
| "comma_join (x # xs) = x @ '', '' @ comma_join xs"

definition as_db_line :: "string \<Rightarrow> string \<Rightarrow> string" where
  "as_db_line label text =
     label @ '': db '' @
     (if text = [] then ''0x00'' else comma_join (map (\<lambda>c. to_hex_byte (byte_of_char c)) text))"

section \<open>The payload\<close>

record NativePayload =
  machine_code :: "byte list"
  assembly :: string

record native_emit =
  ne_code :: "byte list"
  ne_rodata :: "byte list"
  disp_patch_offsets :: "nat list"
  rodata_offsets :: "nat list"
  asm_text :: string

definition ln :: "string \<Rightarrow> string" where
  "ln s = s @ [CHR 0x0A]"

definition msg_label :: "nat \<Rightarrow> string" where
  "msg_label i = ''msg_'' @ nat_to_string i"

text \<open>The body of the first loop, for the write \<open>text\<close> with index \<open>i\<close>.\<close>

definition emit_write :: "nat \<times> string \<Rightarrow> native_emit \<Rightarrow> native_emit" where
  "emit_write = (\<lambda>(i, text) s.
     (let label = msg_label i;
          ro_off = length (ne_rodata s);
          code = emit_mov_reg_imm32 (ne_code s) 0xC0 1;
          code = emit_mov_reg_imm32 code 0xC7 1;
          (disp_offset, code) = native_lea_rsi_rip_placeholder code;
          code = emit_mov_reg_imm32 code 0xC2 (word_of_nat (length text));
          code = native_syscall code
      in s\<lparr>ne_code := code,
           ne_rodata := ne_rodata s @ bytes_of text,
           disp_patch_offsets := disp_patch_offsets s @ [disp_offset],
           rodata_offsets := rodata_offsets s @ [ro_off],
           asm_text := asm_text s @ ln ''    mov rax, 1'' @ ln ''    mov rdi, 1'' @
             ln (''    lea rsi, [rel '' @ label @ '']'') @
             ln (''    mov rdx, '' @ nat_to_string (length text)) @ ln ''    syscall''\<rparr>))"

text \<open>The body of the second loop: the displacement of write \<open>i\<close>, and its data line.\<close>

definition emit_patch :: "nat \<Rightarrow> string list \<Rightarrow> nat \<Rightarrow> native_emit \<Rightarrow> native_emit" where
  "emit_patch text_size ws i s =
     (let target = int (text_size + rodata_offsets s ! i);
          next_ip = int (disp_patch_offsets s ! i + 4);
          delta = target - next_ip
      in s\<lparr>ne_code := patch_i32_le (ne_code s) (disp_patch_offsets s ! i) (word_of_int delta),
           asm_text := asm_text s @ ln (''    '' @ as_db_line (msg_label i) (ws ! i))\<rparr>)"

definition emit_native_payload :: "NativeProgram \<Rightarrow> NativePayload" where
  "emit_native_payload p =
     (let s = \<lparr>ne_code = [], ne_rodata = [], disp_patch_offsets = [], rodata_offsets = [],
               asm_text = ln ''global _start'' @ ln ''section .text'' @ ln ''_start:''\<rparr>;
          s = fold emit_write (enumerate 0 (writes p)) s;
          code = emit_mov_reg_imm32 (ne_code s) 0xC0 60;
          code = append_bytes code [0x48, 0x31, 0xFF];
          code = native_syscall code;
          s = s\<lparr>ne_code := code,
                asm_text := asm_text s @ ln ''    mov rax, 60'' @ ln ''    xor rdi, rdi'' @
                  ln ''    syscall'' @ ln ''section .rodata''\<rparr>;
          text_size = length (ne_code s);
          s = fold (emit_patch text_size (writes p)) [0..<length (disp_patch_offsets s)] s
      in \<lparr>machine_code = ne_code s @ ne_rodata s, assembly = asm_text s\<rparr>)"

section \<open>The blocks on the reference machine\<close>

definition mov32 :: "byte \<Rightarrow> u32 \<Rightarrow> byte list" where
  "mov32 reg_opcode imm = 0x48 # 0xC7 # reg_opcode # le_u32 imm"

lemma native_helpers [simp]:
  "emit_mov_reg_imm32 c r v = c @ mov32 r v"
  "native_syscall c = c @ [0x0F, 0x05]"
  "native_lea_rsi_rip_placeholder c = (length c + 3, c @ [0x48, 0x8D, 0x35] @ le_u32 0)"
  "append_bytes c d = c @ d"
  by (simp_all add: emit_mov_reg_imm32_def native_syscall_def native_lea_rsi_rip_placeholder_def
      append_bytes_def mov32_def Let_def)

lemma length_mov32 [simp]: "length (mov32 r v) = 7"
  by (simp add: mov32_def)

definition native_print_code :: "u32 \<Rightarrow> nat \<Rightarrow> byte list" where
  "native_print_code d n =
     mov32 0xC0 1 @ mov32 0xC7 1 @ [0x48, 0x8D, 0x35] @ le_u32 d @ mov32 0xC2 (word_of_nat n) @ [0x0F, 0x05]"

definition native_exit_code :: "byte list" where
  "native_exit_code = mov32 0xC0 60 @ [0x48, 0x31, 0xFF] @ [0x0F, 0x05]"

lemma length_native_blocks [simp]:
  "length (native_print_code d n) = 30" "length native_exit_code = 12"
  by (simp_all add: native_print_code_def native_exit_code_def)

lemma scast_length: "n < 2 ^ 31 \<Longrightarrow> scast (word_of_nat n :: u32) = (word_of_nat n :: u64)"
  using scast_small [of "int n"] by simp

lemma scast_consts: "scast (1 :: u32) = (1 :: u64)" "scast (60 :: u32) = (60 :: u64)"
  using scast_length [of 1] scast_length [of 60] by simp_all

lemma sets_mov32:
  "sets 0 (scast v) (mov32 0xC0 v)" "sets 2 (scast v) (mov32 0xC2 v)" "sets 7 (scast v) (mov32 0xC7 v)"
  unfolding sets_def mov32_def
  by (rule exI, rule conjI, simp add: decode_mov_imm32, simp)+

lemma sets_xor: "sets 7 0 [0x48, 0x31, 0xFF]"
  unfolding sets_def by (rule exI, rule conjI, simp, simp)

lemma native_print_block:
  "native_print_code d n = write_block (mov32 0xC0 1) (mov32 0xC7 1) d (mov32 0xC2 (word_of_nat n))"
  by (simp add: native_print_code_def write_block_def)

lemma native_run_print:
  assumes "at m pre (native_print_code d (length bs) @ rest)" and "length bs < 2 ^ 31"
    and "read_mem m (m_base m + word_of_nat (length pre + 17 + 4) + scast d) (length bs) = Some bs"
  shows "\<exists>m'. run 5 m = Running m' \<and> at m' (pre @ native_print_code d (length bs)) rest \<and>
              m_base m' = m_base m \<and> m_out m' = m_out m @ bs"
  unfolding native_print_block
  by (rule run_write_block [OF assms(1) [unfolded native_print_block]
        sets_mov32(1) [of 1, unfolded scast_consts] sets_mov32(3) [of 1, unfolded scast_consts] sets_mov32(2)])
     (use assms(2,3) in \<open>simp_all add: scast_length unat_of_nat_small add.commute add.left_commute\<close>)

lemma native_run_exit: "at m pre (native_exit_code @ rest) \<Longrightarrow> run 3 m = Exited 0 (m_out m)"
  unfolding native_exit_code_def
  by (rule run_exit_block [OF _ sets_mov32(1) [of 60, unfolded scast_consts] sets_xor])

interpretation native: emitter native_print_code native_exit_code 17
  by unfold_locales (simp_all add: native_run_print native_run_exit)

section \<open>The two loops\<close>

text \<open>The code after the first loop: print blocks whose displacement is still 0.\<close>

definition print_holes :: "string list \<Rightarrow> byte list" where
  "print_holes ws = concat (map (\<lambda>t. native_print_code 0 (length t)) ws)"

abbreviation native_lay :: "nat \<Rightarrow> nat \<Rightarrow> nat \<Rightarrow> item list \<Rightarrow> byte list" where
  "native_lay \<equiv> lay native_print_code native_exit_code 17"

lemma print_holes_simps [simp]:
  "print_holes [] = []" "print_holes (t # ws) = native_print_code 0 (length t) @ print_holes ws"
  "length (print_holes ws) = 30 * length ws"
  by (induction ws) (auto simp: print_holes_def)

lemma emit_write_fields [simp]:
  "ne_code (emit_write (i, t) s) = ne_code s @ native_print_code 0 (length t)"
  "ne_rodata (emit_write (i, t) s) = ne_rodata s @ bytes_of t"
  "disp_patch_offsets (emit_write (i, t) s) = disp_patch_offsets s @ [length (ne_code s) + 17]"
  "rodata_offsets (emit_write (i, t) s) = rodata_offsets s @ [length (ne_rodata s)]"
  by (simp_all add: emit_write_def Let_def native_print_code_def)

lemma upt_Suc_map: "[0..<Suc n] = 0 # map Suc [0..<n]"
  by (simp add: upt_conv_Cons map_Suc_upt del: upt_Suc)

lemma fold_emit_write:
  defines "emitted ws i s \<equiv> fold emit_write (enumerate i ws) s"
  shows "ne_code (emitted ws i s) = ne_code s @ print_holes ws"
    and "ne_rodata (emitted ws i s) = ne_rodata s @ bytes_of (concat ws)"
    and "disp_patch_offsets (emitted ws i s) =
           disp_patch_offsets s @ map (\<lambda>k. length (ne_code s) + 30 * k + 17) [0..<length ws]"
    and "rodata_offsets (emitted ws i s) =
           rodata_offsets s @ map (\<lambda>k. length (ne_rodata s) + length (concat (take k ws))) [0..<length ws]"
  unfolding emitted_def
  by (induction ws arbitrary: i s)
     (simp_all add: upt_Suc_map comp_def map_concat [symmetric] del: upt_Suc)

lemma emit_patch_fields [simp]:
  "ne_rodata (emit_patch T ws i s) = ne_rodata s"
  "disp_patch_offsets (emit_patch T ws i s) = disp_patch_offsets s"
  "rodata_offsets (emit_patch T ws i s) = rodata_offsets s"
  "ne_code (emit_patch T ws i s) =
     patch_i32_le (ne_code s) (disp_patch_offsets s ! i)
       (word_of_int (int (T + rodata_offsets s ! i) - int (disp_patch_offsets s ! i + 4)))"
  by (simp_all add: emit_patch_def Let_def)

lemma length_native_lay: "length (native_lay S off p (map Print ws)) = 30 * length ws"
proof (induction ws arbitrary: off p)
  case (Cons t ws)
  then show ?case by simp
qed simp

lemma native_lay_append:
  "native_lay S off p (map Print ws @ is) =
     native_lay S off p (map Print ws) @
     native_lay S (off + 30 * length ws) (p + length (concat ws)) is"
proof (induction ws arbitrary: off p)
  case (Cons t ws)
  show ?case by (simp add: Cons.IH add.assoc)
qed simp

lemma patch_native_block:
  "patch_i32_le (pre @ native_print_code 0 n @ post) (length pre + 17) d = pre @ native_print_code d n @ post"
proof -
  have "length pre + 17 = length (pre @ mov32 0xC0 1 @ mov32 0xC7 1 @ [0x48, 0x8D, 0x35])" by simp
  then show ?thesis
    using patch_i32_le_hole [of "le_u32 0" "pre @ mov32 0xC0 1 @ mov32 0xC7 1 @ [0x48, 0x8D, 0x35]"
        "mov32 0xC2 (word_of_nat n) @ [0x0F, 0x05] @ post"]
    by (simp add: native_print_code_def)
qed

text \<open>After \<open>k\<close> patches the first \<open>k\<close> blocks are final.\<close>

lemma fold_emit_patch:
  assumes code: "ne_code s = print_holes ws @ tail"
    and disp: "disp_patch_offsets s = map (\<lambda>k. 30 * k + 17) [0..<length ws]"
    and ro: "rodata_offsets s = map (\<lambda>k. length (concat (take k ws))) [0..<length ws]"
    and k: "k \<le> length ws"
  shows "ne_code (fold (emit_patch T ws) [0..<k] s) =
           native_lay T 0 0 (map Print (take k ws)) @ print_holes (drop k ws) @ tail \<and>
         disp_patch_offsets (fold (emit_patch T ws) [0..<k] s) = disp_patch_offsets s \<and>
         rodata_offsets (fold (emit_patch T ws) [0..<k] s) = rodata_offsets s \<and>
         ne_rodata (fold (emit_patch T ws) [0..<k] s) = ne_rodata s"
  using k
proof (induction k)
  case (Suc k)
  let ?pre = "native_lay T 0 0 (map Print (take k ws))"
  let ?d = "text_disp 17 T (30 * k) (length (concat (take k ws)))"
  have k: "k < length ws" and lp: "length ?pre = 30 * k"
    using Suc.prems by (simp_all add: length_native_lay)
  have holes: "print_holes (drop k ws) = native_print_code 0 (length (ws ! k)) @ print_holes (drop (Suc k) ws)"
    using k by (simp add: Cons_nth_drop_Suc [symmetric])
  have "native_lay T 0 0 (map Print (take (Suc k) ws)) = ?pre @ native_print_code ?d (length (ws ! k))"
    using k native_lay_append [of T 0 0 "take k ws" "[Print (ws ! k)]"]
    by (simp add: take_Suc_conv_app_nth)
  then show ?case
    using Suc.IH Suc.prems patch_native_block [of ?pre "length (ws ! k)" "print_holes (drop (Suc k) ws) @ tail" ?d] lp
    by (simp add: disp ro holes text_disp_def)
qed (simp add: code)

definition native_items :: "NativeProgram \<Rightarrow> item list" where
  "native_items p = map Print (writes p) @ [Exit]"

lemma native_items_output: "item_output (native_items p) = Some (concat (writes p))"
proof -
  have "item_output (map Print ws @ [Exit]) = Some (concat ws)" for ws
    by (induction ws) auto
  then show ?thesis by (simp add: native_items_def)
qed

lemma native_items_pool: "pool_bytes (native_items p) = bytes_of (concat (writes p))"
proof -
  have "pool_bytes (map Print ws @ [Exit]) = bytes_of (concat ws)" for ws
    by (induction ws) auto
  then show ?thesis by (simp add: native_items_def)
qed

lemma payload_image:
  fixes p :: NativeProgram
  defines "S \<equiv> 30 * length (writes p) + 12"
  shows "machine_code (emit_native_payload p) =
           native_lay S 0 0 (native_items p) @ pool_bytes (native_items p)"
proof -
  define s0 where "s0 = \<lparr>ne_code = [], ne_rodata = [], disp_patch_offsets = [], rodata_offsets = [],
               asm_text = ln ''global _start'' @ ln ''section .text'' @ ln ''_start:''\<rparr>"
  define s1 where "s1 = fold emit_write (enumerate 0 (writes p)) s0"
  have s1: "ne_code s1 = print_holes (writes p)" "ne_rodata s1 = bytes_of (concat (writes p))"
      "disp_patch_offsets s1 = map (\<lambda>k. 30 * k + 17) [0..<length (writes p)]"
      "rodata_offsets s1 = map (\<lambda>k. length (concat (take k (writes p)))) [0..<length (writes p)]"
    unfolding s1_def fold_emit_write by (simp_all add: s0_def)
  define s2 where "s2 = s1\<lparr>ne_code := print_holes (writes p) @ native_exit_code,
      asm_text := asm_text s1 @ ln ''    mov rax, 60'' @ ln ''    xor rdi, rdi'' @
                  ln ''    syscall'' @ ln ''section .rodata''\<rparr>"
  have S: "length (ne_code s2) = S" by (simp add: s2_def S_def)
  have ex: "native_exit_code = mov32 0xC0 60 @ [0x48, 0x31, 0xFF] @ [0x0F, 0x05]"
    by (simp add: native_exit_code_def)
  have "machine_code (emit_native_payload p) =
      (let s = fold (emit_patch S (writes p)) [0..<length (writes p)] s2 in ne_code s @ ne_rodata s)"
    unfolding emit_native_payload_def Let_def s0_def [symmetric] s1_def [symmetric] S [symmetric]
    by (simp add: s2_def s1 ex Let_def)
  also have "\<dots> = native_lay S 0 0 (map Print (writes p)) @ native_exit_code @ bytes_of (concat (writes p))"
    using fold_emit_patch [of s2 "writes p" native_exit_code "length (writes p)" S]
    by (simp add: s2_def s1 Let_def)
  finally show ?thesis
    by (simp add: native_items_pool) (simp add: native_items_def native_lay_append)
qed

lemma payload_runs:
  assumes im: "m_image m = pre @ machine_code (emit_native_payload p)"
    and rip: "m_rip m = m_base m + word_of_nat (length pre)"
    and small: "length (m_image m) < 2 ^ 31"
  shows "\<exists>n. run n m = Exited 0 (m_out m @ bytes_of (concat (writes p)))"
proof (rule native.run_image [OF native_items_output _ _ rip small])
  let ?S = "30 * length (writes p) + 12"
  show "m_image m = pre @ native_lay ?S 0 0 (native_items p) @ [] @ pool_bytes (native_items p)"
    using im by (simp add: payload_image)
  show "?S = length (native_lay ?S 0 0 (native_items p) @ [])"
    by (simp add: native_items_def native_lay_append length_native_lay)
qed

end
