(* ===== verification/Base64.thy ===== *)
theory Base64
  imports Prelude
begin

text \<open>
  \<open>base64_encode\<close> and \<open>wrap_base64_lines\<close> of \<open>src/nanlang_cpp.cpp\<close>, which pack an executable
  or a scene into a shell script. \<open>base64_decode\<close> is the specification of what unpacks it, the
  decoding of RFC 4648 with line ends ignored, and \<open>heredoc\<close> what the shell hands to it: the
  lines after the one that opens the here-document up to its delimiter.
\<close>

section \<open>Encoding\<close>

definition b64_table :: string where
  "b64_table = ''ABCDEFGHIJKLMNOPQRSTUVWXYZabcdefghijklmnopqrstuvwxyz0123456789+/''"

definition b64_char :: "nat \<Rightarrow> u32 \<Rightarrow> char" where
  "b64_char k triple = b64_table ! unat (drop_bit k triple AND 0x3F)"

definition b64_triple :: "byte \<Rightarrow> byte \<Rightarrow> byte \<Rightarrow> u32" where
  "b64_triple a b c = push_bit 16 (ucast a) OR push_bit 8 (ucast b) OR ucast c"

text \<open>The loop takes three bytes at a time; a missing byte counts as 0 and prints \<open>=\<close>.\<close>

fun base64_encode :: "byte list \<Rightarrow> string" where
  "base64_encode [] = []"
| "base64_encode [a] =
     (let t = b64_triple a 0 0 in [b64_char 18 t, b64_char 12 t, CHR ''='', CHR ''=''])"
| "base64_encode [a, b] =
     (let t = b64_triple a b 0 in [b64_char 18 t, b64_char 12 t, b64_char 6 t, CHR ''=''])"
| "base64_encode (a # b # c # data) =
     (let t = b64_triple a b c
      in [b64_char 18 t, b64_char 12 t, b64_char 6 t, b64_char 0 t] @ base64_encode data)"

function wrap_loop :: "nat \<Rightarrow> string \<Rightarrow> string" where
  "wrap_loop width b64 =
     (if width = 0 \<or> b64 = [] then []
      else take width b64 @ [CHR 0x0A] @ wrap_loop width (drop width b64))"
  by auto
termination by (relation "measure (\<lambda>(width, b64). length b64)") auto

declare wrap_loop.simps [simp del]

definition wrap_base64_lines :: "string \<Rightarrow> nat \<Rightarrow> string" where
  "wrap_base64_lines b64 width = (if width = 0 then b64 else wrap_loop width b64)"

section \<open>Decoding\<close>

definition b64_value :: "char \<Rightarrow> u32 option" where
  "b64_value c = map_option word_of_nat (find_char c b64_table)"

definition b64_join :: "u32 \<Rightarrow> u32 \<Rightarrow> u32 \<Rightarrow> u32 \<Rightarrow> u32" where
  "b64_join x y z t = push_bit 18 x OR push_bit 12 y OR push_bit 6 z OR t"

fun b64_quads :: "string \<Rightarrow> byte list option" where
  "b64_quads [] = Some []"
| "b64_quads (c1 # c2 # c3 # c4 # rest) =
     (case (b64_value c1, b64_value c2) of
        (Some x, Some y) \<Rightarrow>
          if c3 = CHR ''='' then
            (if c4 = CHR ''='' \<and> rest = [] then Some [ucast (drop_bit 16 (b64_join x y 0 0))] else None)
          else (case b64_value c3 of
            None \<Rightarrow> None
          | Some z \<Rightarrow>
              if c4 = CHR ''='' then
                (if rest = [] then Some [ucast (drop_bit 16 (b64_join x y z 0)), ucast (drop_bit 8 (b64_join x y z 0))]
                 else None)
              else (case (b64_value c4, b64_quads rest) of
                (Some t, Some bs) \<Rightarrow>
                  Some (ucast (drop_bit 16 (b64_join x y z t)) # ucast (drop_bit 8 (b64_join x y z t)) #
                        ucast (b64_join x y z t) # bs)
              | _ \<Rightarrow> None))
      | _ \<Rightarrow> None)"
| "b64_quads _ = None"

definition base64_decode :: "string \<Rightarrow> byte list option" where
  "base64_decode s = b64_quads (filter (\<lambda>c. c \<noteq> CHR 0x0A) s)"

text \<open>The body of \<open><<'marker'\<close>: from the line that ends so to the line \<open>marker\<close>.\<close>

definition heredoc :: "string \<Rightarrow> string \<Rightarrow> string" where
  "heredoc marker script =
     (let opener = ''<<'' @ [CHR 0x27] @ marker @ [CHR 0x27];
          body = tl (dropWhile (\<lambda>l. \<not> suffix opener l) (getlines script))
      in unlines (takeWhile (\<lambda>l. l \<noteq> marker) body))"

section \<open>The table\<close>

lemma find_char_nth: "distinct xs \<Longrightarrow> k < length xs \<Longrightarrow> find_char (xs ! k) xs = Some k"
proof (induction xs arbitrary: k)
  case (Cons x xs)
  then show ?case by (cases k) (auto simp: nth_mem)
qed simp

lemma b64_table_facts:
  "length b64_table = 64" "distinct b64_table" "CHR ''='' \<notin> set b64_table"
  "CHR 0x0A \<notin> set b64_table" "CHR ''_'' \<notin> set b64_table"
  unfolding b64_table_def by simp_all

lemma six_bits_less: "unat (w AND 0x3F :: u32) < 64"
proof -
  have "w AND 0x3F = take_bit 6 w" by (simp add: take_bit_eq_mask mask_eq_exp_minus_1)
  then show ?thesis by (simp add: unsigned_take_bit_eq take_bit_nat_less_exp [of 6, simplified])
qed

lemma b64_char_in_table: "b64_char k t \<in> set b64_table"
  unfolding b64_char_def using six_bits_less b64_table_facts(1) by (metis nth_mem)

lemma b64_char_simps [simp]:
  "b64_char k t \<noteq> CHR ''=''" "b64_char k t \<noteq> CHR 0x0A" "b64_char k t \<noteq> CHR ''_''"
  using b64_char_in_table [of k t] b64_table_facts by metis+

lemma b64_value_char [simp]: "b64_value (b64_char k t) = Some (drop_bit k t AND 0x3F)"
  using find_char_nth [OF b64_table_facts(2)] six_bits_less
  by (simp add: b64_value_def b64_char_def b64_table_facts(1))

section \<open>Bit arithmetic of a group\<close>

lemma six_bit_mask: "(w :: u32) AND 0x3F = take_bit 6 w"
  by (simp add: take_bit_eq_mask mask_eq_exp_minus_1)

lemma join_bits:
  fixes t :: u32
  shows "n < 24 \<Longrightarrow> bit (b64_join (drop_bit 18 t AND 0x3F) (drop_bit 12 t AND 0x3F) (drop_bit 6 t AND 0x3F) (t AND 0x3F)) n = bit t n"
    and "6 \<le> n \<Longrightarrow> n < 24 \<Longrightarrow> bit (b64_join (drop_bit 18 t AND 0x3F) (drop_bit 12 t AND 0x3F) (drop_bit 6 t AND 0x3F) 0) n = bit t n"
    and "12 \<le> n \<Longrightarrow> n < 24 \<Longrightarrow> bit (b64_join (drop_bit 18 t AND 0x3F) (drop_bit 12 t AND 0x3F) 0 0) n = bit t n"
  unfolding b64_join_def six_bit_mask
  by (cases "n < 6"; cases "n < 12"; cases "n < 18"; auto simp: bit_simps)+

lemma triple_bits:
  "n < 8 \<Longrightarrow> bit (b64_triple a b c) (n + 16) = bit a n"
  "n < 8 \<Longrightarrow> bit (b64_triple a b c) (n + 8) = bit b n"
  "n < 8 \<Longrightarrow> bit (b64_triple a b c) n = bit c n"
  unfolding b64_triple_def by (auto simp: bit_simps dest: bit_imp_le_length)

lemma join_triple:
  fixes a b c :: byte
  defines "t \<equiv> b64_triple a b c"
  defines "j4 \<equiv> b64_join (drop_bit 18 t AND 0x3F) (drop_bit 12 t AND 0x3F) (drop_bit 6 t AND 0x3F) (t AND 0x3F)"
    and "j3 \<equiv> b64_join (drop_bit 18 t AND 0x3F) (drop_bit 12 t AND 0x3F) (drop_bit 6 t AND 0x3F) 0"
    and "j2 \<equiv> b64_join (drop_bit 18 t AND 0x3F) (drop_bit 12 t AND 0x3F) 0 0"
  shows "ucast (drop_bit 16 j4) = a" "ucast (drop_bit 8 j4) = b" "ucast j4 = c"
    "ucast (drop_bit 16 j3) = a" "ucast (drop_bit 8 j3) = b" "ucast (drop_bit 16 j2) = a"
  unfolding j4_def j3_def j2_def t_def
  by (rule bit_word_eqI; simp add: bit_unsigned_iff bit_drop_bit_eq join_bits triple_bits add.commute)+

section \<open>Round trips\<close>

lemma b64_quads_encode: "b64_quads (base64_encode data) = Some data"
proof (induction data rule: base64_encode.induct)
  case (4 a b c data)
  then show ?case using join_triple [of a b c] by (simp add: Let_def)
qed (simp_all add: Let_def join_triple)

lemma encode_chars: "c \<in> set (base64_encode data) \<Longrightarrow> c = CHR ''='' \<or> c \<in> set b64_table"
  by (induction data rule: base64_encode.induct) (auto simp: Let_def b64_char_in_table)

lemma filter_wrap: "CHR 0x0A \<notin> set s \<Longrightarrow> 0 < w \<Longrightarrow> filter (\<lambda>c. c \<noteq> CHR 0x0A) (wrap_loop w s) = s"
proof (induction w s rule: wrap_loop.induct)
  case (1 w s)
  show ?case
  proof (cases "s = []")
    case False
    have "CHR 0x0A \<notin> set (take w s)" "CHR 0x0A \<notin> set (drop w s)"
      using 1(2) by (auto dest: in_set_takeD in_set_dropD)
    moreover from this have "filter (\<lambda>c. c \<noteq> CHR 0x0A) (take w s) = take w s"
      by (subst filter_id_conv) metis
    ultimately show ?thesis
      using 1 False by (subst wrap_loop.simps) simp
  qed (simp add: wrap_loop.simps)
qed

lemma decode_wrapped: "base64_decode (wrap_base64_lines (base64_encode data) w) = Some data"
proof -
  have n: "CHR 0x0A \<notin> set (base64_encode data)"
    using encode_chars b64_table_facts(4) by fastforce
  have "filter (\<lambda>c. c \<noteq> CHR 0x0A) (wrap_base64_lines (base64_encode data) w) = base64_encode data"
    using n filter_wrap [OF n, of w] by (auto simp: wrap_base64_lines_def filter_id_conv)
  then show ?thesis by (simp add: base64_decode_def b64_quads_encode)
qed

interpretation b64: codec "\<lambda>data. wrap_base64_lines (base64_encode data) w" base64_decode for w
  by unfold_locales (rule decode_wrapped)

text \<open>The wrapped text is a list of lines none of which can be taken for a delimiter.\<close>

lemma wrap_loop_lines:
  "0 < w \<Longrightarrow> \<exists>ls. wrap_loop w s = unlines ls \<and> (\<forall>l \<in> set ls. set l \<subseteq> set s)"
proof (induction w s rule: wrap_loop.induct)
  case (1 w s)
  show ?case
  proof (cases "s = []")
    case False
    then obtain ls where ls: "wrap_loop w (drop w s) = unlines ls" "\<forall>l \<in> set ls. set l \<subseteq> set (drop w s)"
      using 1 by auto
    then have "wrap_loop w s = unlines (take w s # ls)"
      using False 1(2) by (subst wrap_loop.simps) (simp add: unlines_def)
    moreover have "\<forall>l \<in> set (take w s # ls). set l \<subseteq> set s"
      using ls(2) set_take_subset [of w s] set_drop_subset [of w s] by auto
    ultimately show ?thesis by blast
  qed (auto simp: wrap_loop.simps unlines_def intro: exI [of _ "[]"])
qed

lemma unlines_append: "unlines (ls @ ms) = unlines ls @ unlines ms"
  by (simp add: unlines_def)

lemma getlines_unlines_app:
  "\<forall>l \<in> set ls. CHR 0x0A \<notin> set l \<Longrightarrow> getlines (unlines ls @ rest) = ls @ getlines rest"
  by (induction ls) (auto simp: unlines_def getlines_def getlines_from_line)

text \<open>A script \<open>head\<close>, opener line, wrapped text, delimiter, \<open>rest\<close> hands over the data.\<close>

lemma heredoc_decodes:
  assumes head: "\<forall>l \<in> set head. CHR 0x0A \<notin> set l \<and> \<not> suffix (''<<'' @ [CHR 0x27] @ marker @ [CHR 0x27]) l"
    and opener: "CHR 0x0A \<notin> set opener" "suffix (''<<'' @ [CHR 0x27] @ marker @ [CHR 0x27]) opener"
    and marker: "CHR ''_'' \<in> set marker" "CHR 0x0A \<notin> set marker"
  shows "base64_decode (heredoc marker
           (unlines (head @ [opener]) @ wrap_base64_lines (base64_encode data) 76 @ unlines [marker] @ rest)) =
         Some data"
proof -
  obtain ls where ls: "wrap_base64_lines (base64_encode data) 76 = unlines ls"
      "\<forall>l \<in> set ls. set l \<subseteq> set (base64_encode data)"
    using wrap_loop_lines [of 76 "base64_encode data"] by (auto simp: wrap_base64_lines_def)
  have enc: "CHR 0x0A \<notin> set (base64_encode data)" "CHR ''_'' \<notin> set (base64_encode data)"
    using encode_chars b64_table_facts(4,5) by fastforce+
  have nl: "\<forall>l \<in> set ls. CHR 0x0A \<notin> set l" and nm: "\<forall>l \<in> set ls. l \<noteq> marker"
    using ls(2) enc marker(1) by auto
  have split: "getlines (unlines (head @ [opener]) @ unlines ls @ unlines [marker] @ rest) =
      head @ opener # ls @ marker # getlines rest"
    using head opener(1) marker(2) nl
      getlines_unlines_app [of "head @ [opener] @ ls @ [marker]" rest]
    by (simp add: unlines_def ball_Un)
  have "dropWhile (\<lambda>l. \<not> suffix (''<<'' @ [CHR 0x27] @ marker @ [CHR 0x27]) l)
      (head @ opener # ls @ marker # getlines rest) = opener # ls @ marker # getlines rest"
    using head opener(2) by (subst dropWhile_append2) auto
  moreover have "takeWhile (\<lambda>l. l \<noteq> marker) (ls @ marker # getlines rest) = ls"
    using nm by (subst takeWhile_append2) auto
  ultimately have "heredoc marker (unlines (head @ [opener]) @ unlines ls @ unlines [marker] @ rest) = unlines ls"
    unfolding heredoc_def Let_def split by simp
  then show ?thesis using decode_wrapped [of data 76] by (simp add: ls(1))
qed

end
