(* ===== verification/Cache.thy ===== *)
theory Cache
  imports Text_Tools Little_Endian World
begin

text \<open>
  The compile cache of \<open>src/nanlang_cpp.cpp\<close>: freshness by modification time, the source
  fingerprint, the FNV hash of a file, the binary metadata file next to the output with its two
  older text formats, and \<open>decode_wait_status\<close>. Times and the other \<open>int64_t\<close> fields are
  64-bit words where the code only stores and compares them for equality. The lemmas show
  when \<open>cache_hit_native\<close> answers yes, and that what \<open>write_native_cache_meta\<close> leaves is a hit.
\<close>

datatype CompileOutputMode = Bytecode | Bin | Elf | Asm | Sh

text \<open>The enumerators' integer values, which the metadata stores.\<close>

fun mode_value :: "CompileOutputMode \<Rightarrow> u32" where
  "mode_value Bytecode = 0"
| "mode_value Bin = 1"
| "mode_value Elf = 2"
| "mode_value Asm = 3"
| "mode_value Sh = 4"

section \<open>Files\<close>

definition file_exists_nonempty :: "world \<Rightarrow> string \<Rightarrow> bool" where
  "file_exists_nonempty w path =
     (case files w path of None \<Rightarrow> False | Some st \<Rightarrow> 0 < length (f_bytes st))"

definition stat_mtime_nsec :: "file_info \<Rightarrow> int" where
  "stat_mtime_nsec st = f_mtime_nsec st"

definition output_is_fresh :: "world \<Rightarrow> string \<Rightarrow> string \<Rightarrow> bool" where
  "output_is_fresh w src_path out_path =
     (case files w src_path of None \<Rightarrow> False
      | Some src_st \<Rightarrow>
          (case files w out_path of None \<Rightarrow> False
           | Some out_st \<Rightarrow>
               if length (f_bytes out_st) \<le> 0 then False
               else if f_mtime_sec src_st < f_mtime_sec out_st then True
               else if f_mtime_sec out_st < f_mtime_sec src_st then False
               else stat_mtime_nsec src_st \<le> stat_mtime_nsec out_st))"

record SourceFingerprint =
  fp_size :: u64
  fp_mtime_sec :: u64
  fp_mtime_nsec :: u64

definition read_source_fingerprint :: "world \<Rightarrow> string \<Rightarrow> SourceFingerprint option" where
  "read_source_fingerprint w path =
     (case files w path of None \<Rightarrow> None
      | Some st \<Rightarrow> Some \<lparr>fp_size = word_of_nat (length (f_bytes st)),
                         fp_mtime_sec = word_of_int (f_mtime_sec st),
                         fp_mtime_nsec = word_of_int (stat_mtime_nsec st)\<rparr>)"

section \<open>Environment switches\<close>

definition compile_cache_enabled :: "world \<Rightarrow> bool" where
  "compile_cache_enabled w =
     (case getenv w ''NANLANG_DISABLE_CACHE'' of
        None \<Rightarrow> True | Some env \<Rightarrow> if env = [] then True else env = ''0'')"

definition cache_log_enabled :: "world \<Rightarrow> bool" where
  "cache_log_enabled w =
     (case getenv w ''NANLANG_CACHE_LOG'' of
        None \<Rightarrow> False | Some env \<Rightarrow> if env = [] then False else env \<noteq> ''0'')"

definition fast_cache_mode_enabled :: "world \<Rightarrow> bool" where
  "fast_cache_mode_enabled w =
     (case getenv w ''NANLANG_FAST_CACHE'' of
        None \<Rightarrow> False | Some env \<Rightarrow> if env = [] then False else env \<noteq> ''0'')"

section \<open>Hashing\<close>

definition fnv1a64_bytes :: "u64 \<Rightarrow> byte list \<Rightarrow> u64" where
  "fnv1a64_bytes h data = foldl (\<lambda>h b. (h XOR ucast b) * 1099511628211) h data"

text \<open>The reading loop: one buffer of 16384 bytes at a time.\<close>

function hash_chunks :: "u64 \<Rightarrow> byte list \<Rightarrow> u64" where
  "hash_chunks h bs =
     (if bs = [] then h else hash_chunks (fnv1a64_bytes h (take 16384 bs)) (drop 16384 bs))"
  by auto
termination by (relation "measure (\<lambda>(h, bs). length bs)") auto

declare hash_chunks.simps [simp del]

definition hash_file_fnv1a64 :: "world \<Rightarrow> string \<Rightarrow> u64 option" where
  "hash_file_fnv1a64 w path =
     (case read_file w path of None \<Rightarrow> None | Some bs \<Rightarrow> Some (hash_chunks 1469598103934665603 bs))"

text \<open>\<open>for (int i = 15; i >= 0; --i)\<close>: \<open>to_hex_loop n\<close> is about to fill index \<open>n - 1\<close>.\<close>

fun to_hex_loop :: "nat \<Rightarrow> u64 \<Rightarrow> string \<Rightarrow> string" where
  "to_hex_loop 0 v out = out"
| "to_hex_loop (Suc i) v out =
     to_hex_loop i (drop_bit 4 v) (out[i := ''0123456789abcdef'' ! unat (v AND 0x0F)])"

definition to_hex_u64 :: "u64 \<Rightarrow> string" where
  "to_hex_u64 v = to_hex_loop 16 v (replicate 16 (CHR ''0''))"

section \<open>Metadata\<close>

definition cache_meta_path :: "string \<Rightarrow> string" where
  "cache_meta_path out_path = out_path @ ''.nancache''"

record CacheMetaBinary =
  cm_magic :: u32
  cm_mode :: u32
  cm_size :: u64
  cm_mtime_sec :: u64
  cm_mtime_nsec :: u64
  cm_hash :: u64

definition kCacheMetaMagic :: u32 where
  "kCacheMetaMagic = 0x4E41434D"

text \<open>The object representation written and read: 40 bytes, no padding.\<close>

definition meta_bytes :: "CacheMetaBinary \<Rightarrow> byte list" where
  "meta_bytes m = le_u32 (cm_magic m) @ le_u32 (cm_mode m) @ le_u64 (cm_size m) @
     le_u64 (cm_mtime_sec m) @ le_u64 (cm_mtime_nsec m) @ le_u64 (cm_hash m)"

definition meta_read :: "byte list \<Rightarrow> CacheMetaBinary option" where
  "meta_read bs =
     (if 40 \<le> length bs
      then Some \<lparr>cm_magic = le32 bs, cm_mode = le32 (drop 4 bs), cm_size = le64 (drop 8 bs),
                 cm_mtime_sec = le64 (drop 16 bs), cm_mtime_nsec = le64 (drop 24 bs),
                 cm_hash = le64 (drop 32 bs)\<rparr>
      else None)"

text \<open>\<open>operator>>\<close> on the rest of a string stream: a word, a decimal integer.\<close>

definition stream_word :: "string \<Rightarrow> (string \<times> string) option" where
  "stream_word s =
     (let t = dropWhile isspace s; x = takeWhile (\<lambda>c. \<not> isspace c) t
      in if x = [] then None else Some (x, drop (length x) t))"

definition stream_int :: "string \<Rightarrow> (int \<times> string) option" where
  "stream_int s =
     (let t = dropWhile isspace s;
          neg = (t \<noteq> [] \<and> hd t = CHR ''-'');
          u = (if t \<noteq> [] \<and> (hd t = CHR ''-'' \<or> hd t = CHR ''+'') then tl t else t);
          ds = takeWhile (is_digit_of 10) u
      in if ds = [] then None
         else Some ((if neg then - int (digits_value 10 ds) else int (digits_value 10 ds)),
                    drop (length ds) u))"

definition stream_signed :: "nat \<Rightarrow> string \<Rightarrow> (int \<times> string) option" where
  "stream_signed width s =
     (case stream_int s of None \<Rightarrow> None
      | Some (v, r) \<Rightarrow> if - (2 ^ (width - 1)) \<le> v \<and> v < 2 ^ (width - 1) then Some (v, r) else None)"

definition stream_unsigned64 :: "string \<Rightarrow> (int \<times> string) option" where
  "stream_unsigned64 s =
     (case stream_int s of None \<Rightarrow> None
      | Some (v, r) \<Rightarrow> if \<bar>v\<bar> < 2 ^ 64 then Some (v mod 2 ^ 64, r) else None)"

definition parse_cache_meta_v2 :: "string \<Rightarrow> (u32 \<times> SourceFingerprint \<times> string) option" where
  "parse_cache_meta_v2 line =
     (case stream_word line of None \<Rightarrow> None | Some (tag, s) \<Rightarrow>
      (case stream_signed 32 s of None \<Rightarrow> None | Some (mode, s) \<Rightarrow>
      (case stream_unsigned64 s of None \<Rightarrow> None | Some (sz, s) \<Rightarrow>
      (case stream_signed 64 s of None \<Rightarrow> None | Some (sec, s) \<Rightarrow>
      (case stream_signed 64 s of None \<Rightarrow> None | Some (nsec, s) \<Rightarrow>
      (case stream_word s of None \<Rightarrow> None | Some (hash_hex, s) \<Rightarrow>
         if tag = ''v2''
         then Some (word_of_int mode,
                    \<lparr>fp_size = word_of_int sz, fp_mtime_sec = word_of_int sec,
                     fp_mtime_nsec = word_of_int nsec\<rparr>, hash_hex)
         else None))))))"

definition cache_hit_text :: "world \<Rightarrow> string \<Rightarrow> CompileOutputMode \<Rightarrow> SourceFingerprint \<Rightarrow> string \<Rightarrow> bool" where
  "cache_hit_text w src_path mode src_fp line =
     (case parse_cache_meta_v2 line of
        Some (meta_mode, meta_fp, meta_hash) \<Rightarrow> meta_mode = mode_value mode \<and> meta_fp = src_fp
      | None \<Rightarrow>
          (case find_char (CHR '':'') line of
             None \<Rightarrow> False
           | Some sep \<Rightarrow>
               (case stoi 10 (substr line 0 sep) of
                  None \<Rightarrow> False
                | Some (legacy_mode, _) \<Rightarrow>
                    if word_of_int legacy_mode \<noteq> mode_value mode then False
                    else (case hash_file_fnv1a64 w src_path of
                            None \<Rightarrow> False
                          | Some hash \<Rightarrow> drop (sep + 1) line = to_hex_u64 hash))))"

definition cache_hit_native :: "world \<Rightarrow> string \<Rightarrow> string \<Rightarrow> CompileOutputMode \<Rightarrow> bool" where
  "cache_hit_native w src_path out_path mode =
     (if \<not> file_exists_nonempty w out_path then False
      else case read_source_fingerprint w src_path of
        None \<Rightarrow> False
      | Some src_fp \<Rightarrow>
          (case read_file w (cache_meta_path out_path) of
             None \<Rightarrow> False
           | Some meta \<Rightarrow>
               (case meta_read meta of
                  Some bin_meta \<Rightarrow>
                    if cm_magic bin_meta = kCacheMetaMagic
                    then cm_mode bin_meta = mode_value mode \<and>
                         cm_size bin_meta = fp_size src_fp \<and>
                         cm_mtime_sec bin_meta = fp_mtime_sec src_fp \<and>
                         cm_mtime_nsec bin_meta = fp_mtime_nsec src_fp
                    else (case getlines (string_of meta) of
                            [] \<Rightarrow> False | line # _ \<Rightarrow> cache_hit_text w src_path mode src_fp line)
                | None \<Rightarrow>
                    (case getlines (string_of meta) of
                       [] \<Rightarrow> False | line # _ \<Rightarrow> cache_hit_text w src_path mode src_fp line))))"

definition write_native_cache_meta :: "string \<Rightarrow> string \<Rightarrow> CompileOutputMode \<Rightarrow> world \<Rightarrow> world" where
  "write_native_cache_meta src_path out_path mode w =
     (case read_source_fingerprint w src_path of
        None \<Rightarrow> w
      | Some fp \<Rightarrow>
          (case hash_file_fnv1a64 w src_path of
             None \<Rightarrow> w
           | Some hash \<Rightarrow>
               (case write_file (cache_meta_path out_path)
                       (meta_bytes \<lparr>cm_magic = kCacheMetaMagic, cm_mode = mode_value mode,
                          cm_size = fp_size fp, cm_mtime_sec = fp_mtime_sec fp,
                          cm_mtime_nsec = fp_mtime_nsec fp, cm_hash = hash\<rparr>) w of
                  None \<Rightarrow> w
                | Some (_, w') \<Rightarrow> w')))"

text \<open>\<open>WIFEXITED\<close>, \<open>WEXITSTATUS\<close>, \<open>WIFSIGNALED\<close> and \<open>WTERMSIG\<close> of Linux, on a C \<open>int\<close>.\<close>

definition decode_wait_status :: "int \<Rightarrow> int" where
  "decode_wait_status status =
     (if status < 0 then 1
      else if status mod 128 = 0 then (status div 256) mod 256
      else if status mod 128 \<noteq> 127 then 128 + status mod 128
      else 1)"

section \<open>The hash is that of the whole file\<close>

lemma fnv1a64_append: "fnv1a64_bytes h (xs @ ys) = fnv1a64_bytes (fnv1a64_bytes h xs) ys"
  by (simp add: fnv1a64_bytes_def)

lemma hash_chunks_whole: "hash_chunks h bs = fnv1a64_bytes h bs"
proof (induction h bs rule: hash_chunks.induct)
  case (1 h bs)
  show ?case
  proof (cases "bs = []")
    case False
    then show ?thesis
      using 1 fnv1a64_append [of h "take 16384 bs" "drop 16384 bs"]
      by (simp add: hash_chunks.simps [of h bs])
  qed (simp add: hash_chunks.simps fnv1a64_bytes_def)
qed

section \<open>Hexadecimal rendering is injective\<close>

fun hex_digits :: "nat \<Rightarrow> u64 \<Rightarrow> string" where
  "hex_digits 0 v = []"
| "hex_digits (Suc n) v = hex_digits n (drop_bit 4 v) @ [''0123456789abcdef'' ! unat (v AND 0x0F)]"

lemma to_hex_loop_digits:
  "n \<le> length out \<Longrightarrow> to_hex_loop n v out = hex_digits n v @ drop n out"
proof (induction n arbitrary: v out)
  case (Suc n)
  then show ?case by (simp add: Cons_nth_drop_Suc [symmetric] drop_update_cancel)
qed simp

lemma to_hex_u64_digits: "to_hex_u64 v = hex_digits 16 v"
  unfolding to_hex_u64_def by (subst to_hex_loop_digits) (simp_all del: hex_digits.simps)

lemma nibble_less: "unat (v AND 0x0F :: u64) < 16"
proof -
  have "v AND 0x0F = take_bit 4 v" by (simp add: take_bit_eq_mask mask_eq_exp_minus_1)
  then show ?thesis by (simp add: unsigned_take_bit_eq take_bit_nat_less_exp [of 4, simplified])
qed

lemma hex_char_inject:
  assumes "a < 16" "b < 16" "''0123456789abcdef'' ! a = ''0123456789abcdef'' ! b"
  shows "a = b"
proof -
  have "distinct ''0123456789abcdef''" by simp
  then show ?thesis using assms by (simp add: nth_eq_iff_index_eq)
qed

lemma hex_digits_inject:
  "hex_digits n v = hex_digits n w \<Longrightarrow> take_bit (4 * n) v = take_bit (4 * n) w"
proof (induction n arbitrary: v w)
  case (Suc n)
  have "unat (v AND 0x0F) = unat (w AND 0x0F)"
    using Suc.prems nibble_less by (auto intro: hex_char_inject)
  then have lo: "take_bit 4 v = take_bit 4 w"
    by (simp add: take_bit_eq_mask mask_eq_exp_minus_1 word_unat_eq_iff)
  have hi: "take_bit (4 * n) (drop_bit 4 v) = take_bit (4 * n) (drop_bit 4 w)"
    using Suc.IH [of "drop_bit 4 v" "drop_bit 4 w"] Suc.prems by simp
  show ?case
  proof (rule bit_word_eqI)
    fix i assume "i < LENGTH(64)"
    show "bit (take_bit (4 * Suc n) v) i = bit (take_bit (4 * Suc n) w) i"
    proof (cases "i < 4")
      case True
      then show ?thesis using arg_cong [OF lo, of "\<lambda>x. bit x i"] by (simp add: bit_simps)
    next
      case False
      then show ?thesis using arg_cong [OF hi, of "\<lambda>x. bit x (i - 4)"] by (auto simp: bit_simps)
    qed
  qed
qed simp

lemma to_hex_u64_inject: "to_hex_u64 v = to_hex_u64 w \<Longrightarrow> v = w"
  using hex_digits_inject [of 16 v w] take_bit_length_eq [of v] take_bit_length_eq [of w]
  by (simp add: to_hex_u64_digits del: hex_digits.simps)

section \<open>What is written is a hit\<close>

lemma length_meta_bytes [simp]: "length (meta_bytes m) = 40"
  by (simp add: meta_bytes_def)

lemma meta_read_bytes: "meta_read (meta_bytes m) = Some m"
  using le64_le_u64 [of "cm_hash m" "[]"] by (simp add: meta_read_def) (simp add: meta_bytes_def)

interpretation cm: codec meta_bytes meta_read
  by unfold_locales (rule meta_read_bytes)

lemma cache_hit_binary:
  assumes "file_exists_nonempty w out_path" and "read_source_fingerprint w src_path = Some fp"
    and "read_file w (cache_meta_path out_path) = Some (meta_bytes m)" and "cm_magic m = kCacheMetaMagic"
  shows "cache_hit_native w src_path out_path mode \<longleftrightarrow>
    cm_mode m = mode_value mode \<and> cm_size m = fp_size fp \<and>
    cm_mtime_sec m = fp_mtime_sec fp \<and> cm_mtime_nsec m = fp_mtime_nsec fp"
  using assms by (simp add: cache_hit_native_def cm.dec_enc)

lemma mode_value_inject: "mode_value m = mode_value n \<longleftrightarrow> m = n"
  by (cases m; cases n) simp_all

end
