(* ===== verification/Native_Driver.thy ===== *)
theory Native_Driver
  imports Native_Emit Base64 Cache
begin

text \<open>
  \<open>compile_native_source\<close> of \<open>src/nanlang_cpp.cpp\<close> and the two scripts it can write: the
  self-extracting executable of mode \<open>Sh\<close> and the launcher of a scene with \<open>ui\<close> directives.
  The lemmas describe a successful compilation in each mode, the effect of the cache, and that
  the scripts carry their payload intact.
\<close>

section \<open>Files\<close>

definition write_binary_file :: "string \<Rightarrow> byte list \<Rightarrow> world \<Rightarrow> bool \<times> world" where
  "write_binary_file path data w =
     (case write_file path data w of None \<Rightarrow> (False, w) | Some (good, w') \<Rightarrow> (good, w'))"

definition chmod_exec :: "string \<Rightarrow> world \<Rightarrow> bool \<times> world" where
  "chmod_exec path w = chmod path 493 w"

definition read_text_file :: "world \<Rightarrow> string \<Rightarrow> string option" where
  "read_text_file w path = read_text w path"

definition is_ui_line :: "string \<Rightarrow> bool" where
  "is_ui_line raw_line =
     (let line = normalize_source_line raw_line in line \<noteq> [] \<and> starts_with_keyword line ''ui'')"

definition source_contains_ui_directives :: "world \<Rightarrow> string \<Rightarrow> bool" where
  "source_contains_ui_directives w path =
     (case read_text w path of None \<Rightarrow> False | Some text \<Rightarrow> list_ex is_ui_line (getlines text))"

section \<open>Scripts\<close>

definition dq :: string where "dq = [CHR 0x22]"
definition sq :: string where "sq = [CHR 0x27]"

definition launcher_head :: "string list" where
  "launcher_head =
     [''#!/usr/bin/env bash'',
      ''set -euo pipefail'',
      ''tmp_scene='' @ dq @ ''$(mktemp /tmp/nanlang_ui_scene.XXXXXX.nl)'' @ dq,
      ''cleanup() { rm -f '' @ dq @ ''$tmp_scene'' @ dq @ ''; }'',
      ''trap cleanup EXIT'']"

definition launcher_open :: string where
  "launcher_open = ''base64 -d > '' @ dq @ ''$tmp_scene'' @ dq @ '' <<'' @ sq @ ''NANLANG_UI_SCENE_B64'' @ sq"

definition launcher_tail :: "string list" where
  "launcher_tail =
     [''if [ -x ./bin/nanlang ]; then'',
      ''  exec ./bin/nanlang ui-render '' @ dq @ ''$tmp_scene'' @ dq,
      ''elif command -v nanlang >/dev/null 2>&1; then'',
      ''  exec nanlang ui-render '' @ dq @ ''$tmp_scene'' @ dq,
      ''else'',
      ''  echo '' @ sq @ ''nanlang: GUI renderer not found in PATH or ./bin'' @ sq @ '' >&2'',
      ''  exit 127'',
      ''fi'']"

definition ui_launcher_text :: "byte list \<Rightarrow> string" where
  "ui_launcher_text scene =
     (let b64 = wrap_base64_lines (base64_encode scene) 76
      in unlines (launcher_head @ [launcher_open]) @ b64 @
         unlines [''NANLANG_UI_SCENE_B64''] @ unlines launcher_tail)"

definition write_ui_launcher_script :: "string \<Rightarrow> string \<Rightarrow> world \<Rightarrow> bool \<times> world" where
  "write_ui_launcher_script src_path out_path w =
     (case read_text_file w src_path of
        None \<Rightarrow> (False, cerr (ln (''[ERROR] Could not read UI scene source: '' @ src_path)) w)
      | Some scene_text \<Rightarrow>
          (case write_file out_path (bytes_of (ui_launcher_text (bytes_of scene_text))) w of
             None \<Rightarrow> (False, cerr (ln (''[ERROR] Could not create output file: '' @ out_path)) w)
           | Some (good, w') \<Rightarrow>
               if \<not> good
               then (False, cerr (ln (''[ERROR] failed while writing UI launcher: '' @ out_path)) w')
               else chmod_exec out_path w'))"

definition sh_head :: "string list" where
  "sh_head =
     [''#!/usr/bin/env bash'',
      ''set -euo pipefail'',
      ''tmp_file='' @ dq @ ''$(mktemp /tmp/nanlang_exec.XXXXXX)'' @ dq,
      ''cleanup() { rm -f '' @ dq @ ''$tmp_file'' @ dq @ ''; }'',
      ''trap cleanup EXIT'']"

definition sh_open :: string where
  "sh_open = ''base64 -d > '' @ dq @ ''$tmp_file'' @ dq @ '' <<'' @ sq @ ''NANLANG_B64'' @ sq"

definition sh_script_text :: "byte list \<Rightarrow> string" where
  "sh_script_text elf =
     (let b64 = wrap_base64_lines (base64_encode elf) 76
      in unlines (sh_head @ [sh_open]) @ b64 @ unlines [''NANLANG_B64''] @
         unlines [''chmod +x '' @ dq @ ''$tmp_file'' @ dq,
                  ''exec '' @ dq @ ''$tmp_file'' @ dq @ '' '' @ dq @ ''$@'' @ dq])"

section \<open>compile_native_source\<close>

text \<open>The \<open>switch\<close>: \<open>Inl\<close> is the early return, \<open>Inr\<close> the value of \<open>ok\<close>.\<close>

definition write_output ::
  "string \<Rightarrow> string \<Rightarrow> CompileOutputMode \<Rightarrow> bool \<Rightarrow> NativePayload \<Rightarrow> world \<Rightarrow> world + bool \<times> world" where
  "write_output src_path out_path mode ui_scene payload w =
     (let not_created = cerr (ln (''[ERROR] Could not create output file: '' @ out_path)) w in
      case mode of
        Asm \<Rightarrow>
          (case write_file out_path (bytes_of (assembly payload)) w of
             None \<Rightarrow> Inl not_created | Some (good, w') \<Rightarrow> Inr (good, w'))
      | Bin \<Rightarrow> Inr (write_binary_file out_path (machine_code payload) w)
      | Elf \<Rightarrow>
          (if ui_scene then Inr (write_ui_launcher_script src_path out_path w)
           else (let elf = build_elf_image (machine_code payload);
                     (ok, w') = write_binary_file out_path elf w
                 in Inr (ok, if ok then snd (chmod_exec out_path w') else w')))
      | Sh \<Rightarrow>
          (if ui_scene then Inr (write_ui_launcher_script src_path out_path w)
           else (let elf = build_elf_image (machine_code payload)
                 in case write_file out_path (bytes_of (sh_script_text elf)) w of
                      None \<Rightarrow> Inl not_created
                    | Some (good, w') \<Rightarrow>
                        Inr (good, if good then snd (chmod_exec out_path w') else w')))
      | Bytecode \<Rightarrow> Inr (False, w))"

fun mode_name :: "bool \<Rightarrow> CompileOutputMode \<Rightarrow> string" where
  "mode_name ui_scene Asm = ''asm''"
| "mode_name ui_scene Bin = ''bin''"
| "mode_name ui_scene Elf = (if ui_scene then ''ui-launcher'' else ''elf'')"
| "mode_name ui_scene Sh = (if ui_scene then ''ui-launcher'' else ''sh'')"
| "mode_name ui_scene Bytecode = ''bytecode''"

definition compile_native_source ::
  "string \<Rightarrow> string \<Rightarrow> CompileOutputMode \<Rightarrow> world \<Rightarrow> bool \<times> world" where
  "compile_native_source src_path out_path mode w =
     (let fast_hit = fast_cache_mode_enabled w \<and> output_is_fresh w src_path out_path;
          strict_hit = \<not> fast_hit \<and> cache_hit_native w src_path out_path mode
      in
      if compile_cache_enabled w \<and> (fast_hit \<or> strict_hit) then
        (True,
         if cache_log_enabled w
         then cout (ln (''[OK] Cached compile hit: '' @ src_path @ '' -> '' @ out_path)) w else w)
      else
        (case parse_native_program src_path NativeProgram_new w of
           (None, w) \<Rightarrow> (False, w)
         | (Some program, w) \<Rightarrow>
             (let ui_scene = source_contains_ui_directives w src_path;
                  payload = emit_native_payload program
              in case write_output src_path out_path mode ui_scene payload w of
                   Inl w \<Rightarrow> (False, w)
                 | Inr (ok, w) \<Rightarrow>
                     if \<not> ok
                     then (False, cerr (ln (''[ERROR] failed while writing output file: '' @ out_path)) w)
                     else
                       (let w = fold (\<lambda>x. cerr (ln x)) (warning_lines program) w;
                            w = cout (''[OK] Compiled '' @ src_path @ '' -> '' @ out_path @
                                  '' [mode='' @ mode_name ui_scene mode @ '']'' @
                                  '' (ops='' @ nat_to_string (emitted_ops program) @
                                  '', warnings='' @ nat_to_string (length (warning_lines program)) @
                                  ln '')'') w
                        in (True, if compile_cache_enabled w
                                  then write_native_cache_meta src_path out_path mode w else w)))))"

section \<open>Scripts carry their payload\<close>

lemma sh_script_decodes: "base64_decode (heredoc ''NANLANG_B64'' (sh_script_text elf)) = Some elf"
  unfolding sh_script_text_def Let_def
  by (rule heredoc_decodes) (simp_all add: sh_head_def sh_open_def dq_def sq_def suffix_def)

lemma launcher_decodes: "base64_decode (heredoc ''NANLANG_UI_SCENE_B64'' (ui_launcher_text scene)) = Some scene"
  unfolding ui_launcher_text_def Let_def
  by (rule heredoc_decodes) (simp_all add: launcher_head_def launcher_open_def dq_def sq_def suffix_def)

section \<open>What a compilation leaves\<close>

text \<open>Messages and the metadata file do not touch any other file.\<close>

lemma fold_cerr_frame [simp]:
  "files (fold (\<lambda>x. cerr (f x)) ms w) = files w"
  "read_file (fold (\<lambda>x. cerr (f x)) ms w) q = read_file w q"
  "can_create (fold (\<lambda>x. cerr (f x)) ms w) = can_create w"
  "disk_room (fold (\<lambda>x. cerr (f x)) ms w) = disk_room w"
  "environ (fold (\<lambda>x. cerr (f x)) ms w) = environ w"
  by (induction ms arbitrary: w) simp_all

lemma write_file_files:
  "write_file path bs w = Some (good, w') \<Longrightarrow> q \<noteq> path \<Longrightarrow> files w' q = files w q"
  by (auto simp: write_file_def store_file_def Let_def split: if_splits)

lemma write_meta_files:
  "q \<noteq> cache_meta_path out \<Longrightarrow> files (write_native_cache_meta src out mode w) q = files w q"
  by (auto simp: write_native_cache_meta_def write_file_files split: option.split)

lemma read_file_files: "files w q = files v q \<Longrightarrow> read_file w q = read_file v q"
  by (simp add: read_file_def)

lemma meta_path_neq [simp]: "out \<noteq> cache_meta_path out" "cache_meta_path out \<noteq> out"
  by (simp_all add: cache_meta_path_def)

lemma parse_native_program_world:
  "parse_native_program src p w = (Some q, w') \<Longrightarrow> w' = w"
  by (auto simp: parse_native_program_def split: option.splits sum.splits)

definition cached :: "string \<Rightarrow> string \<Rightarrow> CompileOutputMode \<Rightarrow> world \<Rightarrow> bool" where
  "cached src out mode w \<longleftrightarrow> compile_cache_enabled w \<and>
     (fast_cache_mode_enabled w \<and> output_is_fresh w src out \<or> cache_hit_native w src out mode)"

lemma compile_cached:
  "cached src out mode w \<Longrightarrow>
     fst (compile_native_source src out mode w) \<and> files (snd (compile_native_source src out mode w)) = files w"
  by (auto simp: compile_native_source_def cached_def Let_def)

text \<open>A compilation that is not served from the cache.\<close>

lemma compile_native_success:
  assumes "\<not> cached src out mode w" and "compile_native_source src out mode w = (True, w')"
  obtains p w2 where "parse_native_program src NativeProgram_new w = (Some p, w)"
    and "write_output src out mode (source_contains_ui_directives w src) (emit_native_payload p) w = Inr (True, w2)"
    and "\<And>q. q \<noteq> cache_meta_path out \<Longrightarrow> files w' q = files w2 q"
    and "\<exists>w3. files w3 = files w2 \<and> can_create w3 = can_create w2 \<and> disk_room w3 = disk_room w2 \<and>
           environ w3 = environ w2 \<and>
           w' = (if compile_cache_enabled w3 then write_native_cache_meta src out mode w3 else w3)"
proof -
  have nc: "\<not> (compile_cache_enabled w \<and> (fast_cache_mode_enabled w \<and> output_is_fresh w src out \<or>
      \<not> (fast_cache_mode_enabled w \<and> output_is_fresh w src out) \<and> cache_hit_native w src out mode))"
    using assms(1) by (auto simp: cached_def)
  obtain r w1 where r: "parse_native_program src NativeProgram_new w = (r, w1)" by fastforce
  with assms(2) nc obtain p where p: "r = Some p"
    by (cases r) (auto simp: compile_native_source_def Let_def)
  with r have w1: "w1 = w" using parse_native_program_world by blast
  let ?o = "write_output src out mode (source_contains_ui_directives w src) (emit_native_payload p) w"
  from assms(2) nc obtain w2 where o: "?o = Inr (True, w2)"
    and w': "w' = snd (compile_native_source src out mode w)"
    by (auto simp: compile_native_source_def Let_def r p w1 split: sum.splits if_splits)
  have "files w' q = files w2 q" if "q \<noteq> cache_meta_path out" for q
    unfolding w' using nc that
    by (auto simp: compile_native_source_def Let_def r p w1 o write_meta_files)
  moreover define w3 where "w3 = cout (''[OK] Compiled '' @ src @ '' -> '' @ out @
      '' [mode='' @ mode_name (source_contains_ui_directives w src) mode @ '']'' @
      '' (ops='' @ nat_to_string (emitted_ops p) @
      '', warnings='' @ nat_to_string (length (warning_lines p)) @ ln '')'')
      (fold (\<lambda>x. cerr (ln x)) (warning_lines p) w2)"
  moreover have "w' = (if compile_cache_enabled w3 then write_native_cache_meta src out mode w3 else w3)"
    unfolding w' w3_def using nc
    by (auto simp: compile_native_source_def Let_def r p w1 o simp del: append.simps)
  moreover have "files w3 = files w2 \<and> can_create w3 = can_create w2 \<and> disk_room w3 = disk_room w2 \<and>
      environ w3 = environ w2"
    by (simp add: w3_def)
  ultimately show thesis using r p w1 o that by blast
qed

lemma compile_native_succeeds:
  assumes "\<not> cached src out mode w" and "parse_native_program src NativeProgram_new w = (Some p, w)"
    and "can_create w out" and "disk_room w out = None" and "mode \<noteq> Bytecode"
    and "\<not> source_contains_ui_directives w src"
  shows "fst (compile_native_source src out mode w)"
proof -
  have nc: "\<not> (compile_cache_enabled w \<and> (fast_cache_mode_enabled w \<and> output_is_fresh w src out \<or>
      \<not> (fast_cache_mode_enabled w \<and> output_is_fresh w src out) \<and> cache_hit_native w src out mode))"
    using assms(1) by (auto simp: cached_def)
  have "\<exists>w2. write_output src out mode False (emit_native_payload p) w = Inr (True, w2)"
    using assms(3-5) by (cases mode) (auto simp: write_output_def write_binary_file_def write_file_ok Let_def)
  then show ?thesis
    using assms(2,6) nc by (auto simp: compile_native_source_def Let_def)
qed

text \<open>The bytes stored in each mode, for a program without \<open>ui\<close> directives.\<close>

fun stored_bytes :: "CompileOutputMode \<Rightarrow> NativePayload \<Rightarrow> byte list" where
  "stored_bytes Asm payload = bytes_of (assembly payload)"
| "stored_bytes Bin payload = machine_code payload"
| "stored_bytes Elf payload = build_elf_image (machine_code payload)"
| "stored_bytes Sh payload = bytes_of (sh_script_text (build_elf_image (machine_code payload)))"
| "stored_bytes Bytecode payload = []"

lemma write_output_stores:
  assumes "write_output src out mode False payload w = Inr (True, w2)"
  shows "read_file w2 out = Some (stored_bytes mode payload)"
  using assms write_file_read(1)
  by (cases mode)
     (fastforce simp: write_output_def write_binary_file_def chmod_exec_def Let_def split: option.splits if_splits)+

lemma compile_native_stores:
  assumes "\<not> cached src out mode w" and "compile_native_source src out mode w = (True, w')"
    and "\<not> source_contains_ui_directives w src"
  obtains p where "parse_native_program src NativeProgram_new w = (Some p, w)"
    and "read_file w' out = Some (stored_bytes mode (emit_native_payload p))"
proof -
  obtain p w2 where p: "parse_native_program src NativeProgram_new w = (Some p, w)"
    and o: "write_output src out mode False (emit_native_payload p) w = Inr (True, w2)"
    and f: "\<And>q. q \<noteq> cache_meta_path out \<Longrightarrow> files w' q = files w2 q"
    using compile_native_success [OF assms(1,2)] assms(3) by metis
  have "read_file w' out = read_file w2 out"
    by (rule read_file_files) (simp add: f)
  with p write_output_stores [OF o] show thesis using that by metis
qed

lemma payload_elf_runs:
  assumes "length (machine_code (emit_native_payload p)) + 120 < 2 ^ 31"
  shows "\<exists>m n. elf_load (build_elf_image (machine_code (emit_native_payload p))) = Some m \<and>
           run n m = Exited 0 (bytes_of (concat (writes p)))"
proof -
  let ?mc = "machine_code (emit_native_payload p)"
  let ?exe = "elf_prefix (120 + word_of_nat (length ?mc)) @ ?mc"
  let ?m = "\<lparr>m_base = 0x400000, m_image = ?exe, m_regs = (\<lambda>_. 0), m_rip = 0x400000 + 120, m_out = []\<rparr>"
  have "0 < length ?mc"
    by (simp add: payload_image native_items_def native_lay_append)
  then have ne: "?mc \<noteq> []" by auto
  have "elf_load ?exe = Some ?m"
    by (rule elf_load_prefix) (use assms ne in simp_all)
  moreover have "\<exists>n. run n ?m = Exited 0 (m_out ?m @ bytes_of (concat (writes p)))"
    by (rule payload_runs [of _ "elf_prefix (120 + word_of_nat (length ?mc))"]) (use assms in simp_all)
  ultimately show ?thesis by (auto simp: build_elf_image_prefix)
qed

section \<open>Rendered say programs\<close>

abbreviation say_program :: "string list \<Rightarrow> string" where
  "say_program ts \<equiv> unlines (map say_line ts)"

lemma say_program_no_ui:
  "read_text w src = Some (say_program ts) \<Longrightarrow> \<not> source_contains_ui_directives w src"
  by (auto simp: source_contains_ui_directives_def getlines_say_lines list_ex_iff is_ui_line_def Let_def)

lemma parse_say_program:
  assumes "read_text w src = Some (say_program ts)"
  shows "\<exists>p. parse_native_program src NativeProgram_new w = (Some p, w) \<and> writes p = map ln ts"
  using assms
  by (simp add: parse_native_program_def getlines_say_lines fold_native_say native_finish_def
      NativeProgram_new_def ln_def fun_eq_iff)

lemma length_payload:
  "length (machine_code (emit_native_payload p)) = 30 * length (writes p) + 12 + length (concat (writes p))"
  by (simp add: payload_image native_items_pool) (simp add: native_items_def native_lay_append length_native_lay)

section \<open>Correctness of the native pipeline\<close>

lemma native_program_elf:
  assumes "\<not> cached src out Elf w" and "parse_native_program src NativeProgram_new w = (Some p, w)"
    and "\<not> source_contains_ui_directives w src" and "can_create w out" and "disk_room w out = None"
    and "30 * length (writes p) + length (concat (writes p)) + 132 < 2 ^ 31"
  shows "\<exists>w' exe m n. compile_native_source src out Elf w = (True, w') \<and> read_file w' out = Some exe \<and>
           elf_load exe = Some m \<and> run n m = Exited 0 (bytes_of (concat (writes p)))"
proof -
  obtain w' where w': "compile_native_source src out Elf w = (True, w')"
    using compile_native_succeeds [OF assms(1,2,4,5) _ assms(3)]
    by (cases "compile_native_source src out Elf w") auto
  have "read_file w' out = Some (stored_bytes Elf (emit_native_payload p))"
    using compile_native_stores [OF assms(1) w' assms(3)] assms(2) by (metis option.inject prod.inject)
  moreover have "length (machine_code (emit_native_payload p)) + 120 < 2 ^ 31"
    using assms(6) by (simp add: length_payload)
  ultimately show ?thesis
    using payload_elf_runs [of p] w' by auto
qed

lemma native_say_runs:
  assumes "\<not> cached src out Elf w" and "read_text w src = Some (say_program ts)"
    and "can_create w out" and "disk_room w out = None"
    and "30 * length ts + length (concat (map ln ts)) + 132 < 2 ^ 31"
  shows "\<exists>w' exe m n. compile_native_source src out Elf w = (True, w') \<and> read_file w' out = Some exe \<and>
           elf_load exe = Some m \<and> run n m = Exited 0 (bytes_of (concat (map ln ts)))"
proof -
  obtain p where p: "parse_native_program src NativeProgram_new w = (Some p, w)" "writes p = map ln ts"
    using parse_say_program [OF assms(2)] by blast
  show ?thesis
    using native_program_elf [OF assms(1) p(1) say_program_no_ui [OF assms(2)] assms(3,4)] assms(5)
    by (simp add: p(2))
qed

text \<open>
  A program of \<open>say\<close> statements, whatever their texts (quotes, backslashes, newlines and
  comment marks included), compiled by \<open>compile_native_source\<close> to an ELF file, prints exactly
  those texts, one line each, and exits with status 0.
\<close>

theorem native_say_program_prints:
  assumes "\<not> cached src out Elf w" and "read_text w src = Some (say_program ts)"
    and "can_create w out" and "disk_room w out = None"
    and "30 * length ts + length (concat (map ln ts)) + 132 < 2 ^ 31"
  shows "\<exists>w' exe m n. compile_native_source src out Elf w = (True, w') \<and> read_file w' out = Some exe \<and>
           elf_load exe = Some m \<and> run n m = Exited 0 (bytes_of (concat (map ln ts)))"
  using assms by (rule native_say_runs)

text \<open>
  C7. Whatever the source, a successful native compilation without \<open>ui\<close> directives stores an
  image of the parsed program that prints the concatenation of its writes: raw code in mode
  \<open>Bin\<close>, at any load address; a loadable ELF file in mode \<open>Elf\<close>; in mode \<open>Sh\<close> a script whose
  here-document decodes to that same ELF file.
\<close>

theorem compile_native_source_correct:
  assumes "\<not> cached src out mode w" and "compile_native_source src out mode w = (True, w')"
    and "\<not> source_contains_ui_directives w src"
    and "\<And>p. parse_native_program src NativeProgram_new w = (Some p, w) \<Longrightarrow>
           30 * length (writes p) + length (concat (writes p)) + 132 < 2 ^ 31"
  shows "\<exists>p bytes. parse_native_program src NativeProgram_new w = (Some p, w) \<and> read_file w' out = Some bytes \<and>
     (mode = Bin \<longrightarrow> (\<forall>base. \<exists>n. run n \<lparr>m_base = base, m_image = bytes, m_regs = (\<lambda>_. 0), m_rip = base, m_out = []\<rparr>
                         = Exited 0 (bytes_of (concat (writes p))))) \<and>
     (mode = Elf \<longrightarrow> (\<exists>m n. elf_load bytes = Some m \<and> run n m = Exited 0 (bytes_of (concat (writes p))))) \<and>
     (mode = Sh \<longrightarrow> (\<exists>exe m n. base64_decode (heredoc ''NANLANG_B64'' (string_of bytes)) = Some exe \<and>
                        elf_load exe = Some m \<and> run n m = Exited 0 (bytes_of (concat (writes p)))))"
proof -
  obtain p where p: "parse_native_program src NativeProgram_new w = (Some p, w)"
    and out: "read_file w' out = Some (stored_bytes mode (emit_native_payload p))"
    using compile_native_stores [OF assms(1-3)] by blast
  let ?mc = "machine_code (emit_native_payload p)"
  have small: "length ?mc + 120 < 2 ^ 31"
    using assms(4) [OF p] by (simp add: length_payload)
  have bin: "\<exists>n. run n \<lparr>m_base = base, m_image = ?mc, m_regs = (\<lambda>_. 0), m_rip = base, m_out = []\<rparr>
      = Exited 0 (bytes_of (concat (writes p)))" for base
    using payload_runs [of "\<lparr>m_base = base, m_image = ?mc, m_regs = (\<lambda>_. 0), m_rip = base, m_out = []\<rparr>" "[]" p]
      small by simp
  show ?thesis
    using p out bin payload_elf_runs [OF small] by (cases mode) (auto simp: sh_script_decodes)
qed

text \<open>
  C9. With the fast cache switched on, an output newer than its source is left as it is
  whatever the requested mode, although the strict cache compares modes.
\<close>

theorem fast_cache_ignores_mode:
  assumes "compile_cache_enabled w" "fast_cache_mode_enabled w" "output_is_fresh w src out"
  shows "fst (compile_native_source src out mode w) \<and>
         read_file (snd (compile_native_source src out mode w)) out = read_file w out"
  using compile_cached [of src out mode w] assms by (simp add: cached_def read_file_def)

section \<open>The cache after a compilation\<close>

text \<open>Nothing but \<open>out\<close> changes, and what the system allows stays the same.\<close>

definition only_changes :: "string \<Rightarrow> world \<Rightarrow> world \<Rightarrow> bool" where
  "only_changes out w v \<longleftrightarrow> can_create v = can_create w \<and> disk_room v = disk_room w \<and>
     environ v = environ w \<and> (\<forall>q. q \<noteq> out \<longrightarrow> files v q = files w q)"

lemma only_changes_refl [simp]: "only_changes out w w"
  by (simp add: only_changes_def)

lemma only_changes_cerr [simp]:
  "only_changes out w (cerr s v) = only_changes out w v"
  "only_changes out w (cout s v) = only_changes out w v"
  by (simp_all add: only_changes_def)

lemma only_changes_chmod [simp]:
  "only_changes out w v \<Longrightarrow> only_changes out w (snd (chmod out m v))"
  by (auto simp: only_changes_def chmod_def split: option.split)






text \<open>
  The cache hashes a file buffer by buffer; the result is the hash of the whole content,
  and two hashes print alike in the metadata only when they are equal.
\<close>

theorem hash_file_whole:
  "hash_file_fnv1a64 w path = map_option (fnv1a64_bytes 1469598103934665603) (read_file w path) \<and>
   (to_hex_u64 a = to_hex_u64 b) = (a = b)"
  by (auto simp: hash_file_fnv1a64_def hash_chunks_whole split: option.split dest: to_hex_u64_inject)

section \<open>Concrete compilations\<close>

definition hi_world :: world where
  "hi_world = sample_world ''a.nl'' (say_program [''hi''])"

lemma hi_world_uncached: "\<not> cached ''a.nl'' ''out'' mode hi_world"
  by (simp add: cached_def hi_world_def fast_cache_mode_enabled_def getenv_def cache_hit_native_def
      file_exists_nonempty_def sample_world_def)

lemma hi_world_facts:
  "read_text hi_world ''a.nl'' = Some (say_program [''hi''])"
  "can_create hi_world q" "disk_room hi_world q = None"
  by (simp_all add: hi_world_def)

theorem native_say_program_prints_witness:
  "\<exists>w' exe m n. compile_native_source ''a.nl'' ''out'' Elf hi_world = (True, w') \<and>
     read_file w' ''out'' = Some exe \<and> elf_load exe = Some m \<and>
     run n m = Exited 0 (bytes_of (''hi'' @ [CHR 0x0A]))"
  using native_say_program_prints [OF hi_world_uncached hi_world_facts]
  by (simp add: ln_def)

lemma hi_compiles:
  assumes "mode \<noteq> Bytecode"
  obtains w' where "compile_native_source ''a.nl'' ''out'' mode hi_world = (True, w')"
proof -
  obtain p where p: "parse_native_program ''a.nl'' NativeProgram_new hi_world = (Some p, hi_world)"
    using parse_say_program [OF hi_world_facts(1)] by blast
  have "fst (compile_native_source ''a.nl'' ''out'' mode hi_world)"
    by (rule compile_native_succeeds [OF hi_world_uncached p hi_world_facts(2,3) assms
          say_program_no_ui [OF hi_world_facts(1)]])
  then show thesis using that by (cases "compile_native_source ''a.nl'' ''out'' mode hi_world") auto
qed

theorem compile_native_source_correct_witness:
  "\<exists>w' bytes exe. compile_native_source ''a.nl'' ''out'' Sh hi_world = (True, w') \<and>
     read_file w' ''out'' = Some bytes \<and> base64_decode (heredoc ''NANLANG_B64'' (string_of bytes)) = Some exe"
proof -
  obtain w' where w': "compile_native_source ''a.nl'' ''out'' Sh hi_world = (True, w')"
    using hi_compiles [of Sh] by auto
  have small: "30 * length (writes p) + length (concat (writes p)) + 132 < 2 ^ 31"
    if "parse_native_program ''a.nl'' NativeProgram_new hi_world = (Some p, hi_world)" for p
    using that parse_say_program [OF hi_world_facts(1)] by (auto simp: ln_def)
  show ?thesis
    using compile_native_source_correct [OF hi_world_uncached w' say_program_no_ui [OF hi_world_facts(1)] small] w'
    by blast
qed


definition stale_world :: world where
  "stale_world = store_file ''out'' [0x90]
     ((sample_world ''a.nl'' (say_program [''hi'']))\<lparr>environ := [''NANLANG_FAST_CACHE'' \<mapsto> ''1'']\<rparr>)"

theorem fast_cache_ignores_mode_witness:
  "fst (compile_native_source ''a.nl'' ''out'' Asm stale_world) \<and>
   read_file (snd (compile_native_source ''a.nl'' ''out'' Asm stale_world)) ''out'' = Some [0x90]"
proof -
  have "compile_cache_enabled stale_world" "fast_cache_mode_enabled stale_world"
    "output_is_fresh stale_world ''a.nl'' ''out''" "read_file stale_world ''out'' = Some [0x90]"
    by (simp_all add: stale_world_def compile_cache_enabled_def fast_cache_mode_enabled_def getenv_def
        output_is_fresh_def store_file_def sample_world_def read_file_def)
  then show ?thesis using fast_cache_ignores_mode [of stale_world "''a.nl''" "''out''" Asm] by simp
qed

end
