(* ===== verification/Bytecode_VM.thy ===== *)
theory Bytecode_VM
  imports Native_Frontend Little_Endian
begin

text \<open>
  The byte code path of \<open>src/nanlang_cpp.cpp\<close>: \<open>compile_source\<close>, which writes the NAN3
  format, and the virtual machine \<open>run_bytecode\<close>. The opcodes are those of \<open>NanOpcode\<close> in
  \<open>include/nan_binary.h\<close>. The lemmas relate the two by a list of abstract operations: the
  compiler's loop appends encoded operations, and the machine, which always terminates, prints
  what they say up to the first halt.
\<close>

section \<open>Format\<close>

definition MAGIC_BYTES :: "byte list" where
  "MAGIC_BYTES = bytes_of ''NAN3''"

definition OP_HALT :: byte where "OP_HALT = 0x01"
definition OP_SAY :: byte where "OP_SAY = 0x02"
definition OP_LOAD :: byte where "OP_LOAD = 0x03"
definition OP_STORE :: byte where "OP_STORE = 0x04"
definition PULSE_PORT :: byte where "PULSE_PORT = 0x10"
definition EMIT_PORT :: byte where "EMIT_PORT = 0x11"

lemmas opcodes = OP_HALT_def OP_SAY_def OP_LOAD_def OP_STORE_def

definition emit_store_sequence :: "byte list \<Rightarrow> byte \<Rightarrow> byte \<Rightarrow> byte list" where
  "emit_store_sequence out val addr = out @ [OP_LOAD] @ [val] @ [OP_STORE] @ [addr]"

section \<open>The compiler\<close>

text \<open>\<open>std::stoul\<close> with base 0: a minus sign negates modulo \<open>2 ^ 64\<close>; \<open>None\<close> is a throw.\<close>

definition stoul0 :: "string \<Rightarrow> nat option" where
  "stoul0 s =
     (case strtol_raw 0 s of
        None \<Rightarrow> None
      | Some (v, _) \<Rightarrow> if \<bar>v\<bar> < 2 ^ 64 then Some (nat (v mod 2 ^ 64)) else None)"

record bc_compile =
  bc :: "byte list"
  bc_line_no :: nat
  bc_ops :: nat
  bc_warnings :: "string list"
  bc_has_halt :: bool
  bc_warned_if :: bool
  bc_warned_loop :: bool
  bc_warned_return :: bool

definition bc_warn :: "nat \<Rightarrow> string \<Rightarrow> bc_compile \<Rightarrow> bc_compile" where
  "bc_warn n msg s = s\<lparr>bc_warnings := bc_warnings s @ [line_warning n msg]\<rparr>"

text \<open>The \<open>@addr = value\<close> statement.\<close>

definition mmio_line :: "string \<Rightarrow> bc_compile \<Rightarrow> string + bc_compile" where
  "mmio_line line s =
     (let n = bc_line_no s in
      case find_char (CHR ''='') line of
        None \<Rightarrow> Inr (bc_warn n (''malformed MMIO write ignored: '' @ line) s)
      | Some eq \<Rightarrow>
          (let addr_tok = trim (substr line 1 (eq - 1));
               rhs = trim (drop (eq + 1) line);
               rhs = (if rhs \<noteq> [] \<and> last rhs = CHR '';'' then butlast rhs else rhs);
               rhs = trim rhs
           in case (stoul0 addr_tok, stoul0 rhs) of
                (Some addr, Some val) \<Rightarrow>
                  if 0xFF < addr \<or> 0xFF < val
                  then Inl (''[ERROR] line '' @ nat_to_string n @
                            '': MMIO address/value must fit in uint8_t'' @ [CHR 0x0A])
                  else Inr (s\<lparr>bc := emit_store_sequence (bc s) (word_of_nat val) (word_of_nat addr),
                              bc_ops := bc_ops s + 2\<rparr>)
              | _ \<Rightarrow> Inr (bc_warn n (''unsupported MMIO expression ignored: '' @ line) s)))"

definition bc_line :: "string \<Rightarrow> bc_compile \<Rightarrow> string + bc_compile" where
  "bc_line raw_line s0 =
     (let s = s0\<lparr>bc_line_no := bc_line_no s0 + 1\<rparr>;
          n = bc_line_no s;
          line = normalize_source_line raw_line
      in
      if line = [] then Inr s
      else if is_brace_line line then Inr s
      else if starts_with_keyword line ''if'' \<or> starts_with_keyword line ''else'' then
        (if \<not> bc_warned_if s
         then Inr ((bc_warn n ''conditional flow is currently linearized by the minimal compiler.'' s)
                     \<lparr>bc_warned_if := True\<rparr>)
         else Inr s)
      else if starts_with_keyword line ''loop'' \<or> starts_with_keyword line ''break'' then
        (if \<not> bc_warned_loop s
         then Inr ((bc_warn n ''loop flow is currently linearized by the minimal compiler.'' s)
                     \<lparr>bc_warned_loop := True\<rparr>)
         else Inr s)
      else if starts_with_keyword line ''return'' then
        (if \<not> bc_warned_return s
         then Inr ((bc_warn n ''return statements are ignored in bytecode stub mode.'' s)
                     \<lparr>bc_warned_return := True\<rparr>)
         else Inr s)
      else if is_ignored_decl line then Inr s
      else if starts_with_keyword line ''say'' then
        (case extract_quoted_string line of
           None \<Rightarrow> Inl (''[ERROR] line '' @ nat_to_string n @ '': malformed say string literal'' @ [CHR 0x0A])
         | Some text \<Rightarrow>
             Inr (s\<lparr>bc := append_u32_le (bc s @ [OP_SAY]) (word_of_nat (length text)) @ bytes_of text,
                    bc_ops := bc_ops s + 1\<rparr>))
      else if starts_with_keyword line ''halt'' then
        Inr (s\<lparr>bc := bc s @ [OP_HALT], bc_ops := bc_ops s + 1, bc_has_halt := True\<rparr>)
      else if starts_with_keyword line ''pulse'' \<or> starts_with_keyword line ''emit'' then
        (case parse_pulse_or_emit line of
           None \<Rightarrow> Inl (''[ERROR] line '' @ nat_to_string n @ '': malformed pulse/emit statement'' @ [CHR 0x0A])
         | Some (is_pulse, signal) \<Rightarrow>
             Inr (s\<lparr>bc := emit_store_sequence (bc s) signal (if is_pulse then PULSE_PORT else EMIT_PORT),
                    bc_ops := bc_ops s + 2\<rparr>))
      else if line \<noteq> [] \<and> hd line = CHR ''@'' then mmio_line line s
      else if starts_with_keyword line ''@macro'' \<or> starts_with_keyword line ''NAN3'' \<or>
              starts_with_keyword line ''@nan_magic'' then Inr s
      else Inr (bc_warn n (''unsupported statement ignored: '' @ line) s))"

definition bc_init :: bc_compile where
  "bc_init = \<lparr>bc = MAGIC_BYTES, bc_line_no = 0, bc_ops = 0, bc_warnings = [], bc_has_halt = False,
     bc_warned_if = False, bc_warned_loop = False, bc_warned_return = False\<rparr>"

definition bc_finish :: "bc_compile \<Rightarrow> bc_compile" where
  "bc_finish s =
     (if bc_ops s = 0 \<or> \<not> bc_has_halt s then s\<lparr>bc := bc s @ [OP_HALT], bc_ops := bc_ops s + 1\<rparr> else s)"

definition compile_source :: "string \<Rightarrow> string \<Rightarrow> world \<Rightarrow> bool \<times> world" where
  "compile_source src_path out_path w =
     (case read_text w src_path of
        None \<Rightarrow> (False, cerr (''[ERROR] Source not found: '' @ src_path @ [CHR 0x0A]) w)
      | Some text \<Rightarrow>
          (case fold_lines bc_line (getlines text) bc_init of
             Inl msg \<Rightarrow> (False, cerr msg w)
           | Inr s0 \<Rightarrow>
               (let s = bc_finish s0 in
                case write_file out_path (bc s) w of
                  None \<Rightarrow> (False, cerr (''[ERROR] Could not create output file: '' @ out_path @ [CHR 0x0A]) w)
                | Some (good, w) \<Rightarrow>
                    if \<not> good
                    then (False, cerr (''[ERROR] failed while finalizing output file: '' @ out_path @ [CHR 0x0A]) w)
                    else
                      (let w = fold (\<lambda>x. cerr (x @ [CHR 0x0A])) (bc_warnings s) w
                       in (True, cout (''[OK] Compiled '' @ src_path @ '' -> '' @ out_path @
                             '' (ops='' @ nat_to_string (bc_ops s) @ '', warnings='' @
                             nat_to_string (length (bc_warnings s)) @ '')'' @ [CHR 0x0A]) w)))))"

section \<open>The virtual machine\<close>

definition hex_lower :: "byte \<Rightarrow> string" where
  "hex_lower b = [''0123456789abcdef'' ! unat (drop_bit 4 b), ''0123456789abcdef'' ! unat (b AND 0x0F)]"

definition rt_error :: "string \<Rightarrow> nat \<Rightarrow> world \<Rightarrow> bool \<times> bool \<times> world" where
  "rt_error msg off w = (False, False, cerr (''[RT] '' @ msg @ nat_to_string off @ [CHR 0x0A]) w)"

text \<open>
  The dispatch loop on the bytes from offset \<open>off\<close>: the result tells whether the loop ended
  without an error and whether it halted.
\<close>

function vm_loop :: "nat \<Rightarrow> byte \<Rightarrow> byte list \<Rightarrow> world \<Rightarrow> bool \<times> bool \<times> world" where
  "vm_loop off acc [] w = (True, False, w)"
| "vm_loop off acc (op # p) w =
     (if op = OP_HALT then (True, True, w)
      else if op = OP_SAY then
        (if length p < 4 then rt_error ''Truncated SAY length at offset '' off w
         else
           (let len = unat (le32 p) in
            if length (drop 4 p) < len then rt_error ''Truncated SAY payload at offset '' (off + 5) w
            else vm_loop (off + 5 + len) acc (drop len (drop 4 p))
                   (cout (string_of (take len (drop 4 p)) @ [CHR 0x0A]) w)))
      else if op = OP_LOAD then
        (case p of [] \<Rightarrow> rt_error ''Truncated LOAD immediate at offset '' off w
         | imm # p' \<Rightarrow> vm_loop (off + 2) imm p' w)
      else if op = OP_STORE then
        (case p of [] \<Rightarrow> rt_error ''Truncated STORE address at offset '' off w
         | addr # p' \<Rightarrow>
             vm_loop (off + 2) acc p'
               (if addr = PULSE_PORT then cout (''[pulse] '' @ signal_name acc @ [CHR 0x0A]) w
                else if addr = EMIT_PORT then cout (''[emit] '' @ signal_name acc @ [CHR 0x0A]) w
                else w))
      else rt_error (''Unsupported opcode 0x'' @ hex_lower op @ '' at offset '') off w)"
  by pat_completeness auto
termination by (relation "measure (\<lambda>(off, acc, p, w). length p)") auto

definition run_bytecode :: "string \<Rightarrow> world \<Rightarrow> bool \<times> world" where
  "run_bytecode path w =
     (case read_file w path of
        None \<Rightarrow> (False, cerr (''[ERROR] Bytecode not found: '' @ path @ [CHR 0x0A]) w)
      | Some bytes \<Rightarrow>
          if length bytes < 4
          then (False, cerr (''[ERROR] Bytecode is truncated: '' @ path @ [CHR 0x0A]) w)
          else if take 4 bytes \<noteq> MAGIC_BYTES
          then (False, cerr (''[RT] Invalid magic. Expected NAN3.'' @ [CHR 0x0A]) w)
          else
            (let (ok, halted, w) = vm_loop 4 0 (drop 4 bytes) w in
             if \<not> ok then (False, w)
             else if \<not> halted
             then (True, cerr (''[RT] Program reached EOF without HALT.'' @ [CHR 0x0A]) w)
             else (True, w)))"

section \<open>Operations\<close>

datatype vm_op = OSay string | OSignal byte byte | OHalt

fun encode_op :: "vm_op \<Rightarrow> byte list" where
  "encode_op (OSay t) = OP_SAY # le_u32 (word_of_nat (length t)) @ bytes_of t"
| "encode_op (OSignal v addr) = [OP_LOAD, v, OP_STORE, addr]"
| "encode_op OHalt = [OP_HALT]"

fun op_output :: "vm_op \<Rightarrow> string" where
  "op_output (OSay t) = t @ [CHR 0x0A]"
| "op_output (OSignal v addr) =
     (if addr = PULSE_PORT then ''[pulse] '' @ signal_name v @ [CHR 0x0A]
      else if addr = EMIT_PORT then ''[emit] '' @ signal_name v @ [CHR 0x0A] else [])"
| "op_output OHalt = []"

fun op_fits :: "vm_op \<Rightarrow> bool" where
  "op_fits (OSay t) = (length t < 2 ^ 32)"
| "op_fits _ = True"

text \<open>What a list of operations prints: everything before the first halt.\<close>

fun ops_output :: "vm_op list \<Rightarrow> string" where
  "ops_output [] = []"
| "ops_output (x # xs) = (if x = OHalt then [] else op_output x @ ops_output xs)"

abbreviation encode_ops :: "vm_op list \<Rightarrow> byte list" where
  "encode_ops ops \<equiv> concat (map encode_op ops)"

lemma cout_cout [simp]: "cout s (cout t w) = cout (t @ s) w"
  by (simp add: cout_def)

lemma cout_Nil [simp]: "cout [] w = w"
  by (simp add: cout_def)

lemma vm_loop_ops:
  "list_all op_fits ops \<Longrightarrow>
   vm_loop off acc (encode_ops ops) w = (True, OHalt \<in> set ops, cout (ops_output ops) w)"
proof (induction ops arbitrary: off acc w)
  case (Cons x ops)
  then show ?case
    by (cases x) (simp_all add: opcodes unat_of_nat take_bit_nat_eq_self)
qed simp

lemma run_encoded:
  assumes "read_file w path = Some (MAGIC_BYTES @ encode_ops ops)" and "list_all op_fits ops" and "OHalt \<in> set ops"
  shows "run_bytecode path w = (True, cout (ops_output ops) w)"
  using assms by (simp add: run_bytecode_def vm_loop_ops MAGIC_BYTES_def)

section \<open>The compiler emits operations\<close>

text \<open>The byte code so far is the magic and the operations \<open>ops\<close>, all of a size that fits.\<close>

definition bc_emits :: "vm_op list \<Rightarrow> bc_compile \<Rightarrow> bool" where
  "bc_emits ops s \<longleftrightarrow> bc s = MAGIC_BYTES @ encode_ops ops \<and> list_all op_fits ops \<and>
     (bc_has_halt s \<longleftrightarrow> OHalt \<in> set ops) \<and> (ops \<noteq> [] \<longrightarrow> 0 < bc_ops s)"

lemma bc_emits_simps [simp]:
  "bc_emits ops (bc_warn n m s) = bc_emits ops s"
  "bc_emits ops (s\<lparr>bc_line_no := k\<rparr>) = bc_emits ops s"
  "bc_emits ops (s\<lparr>bc_warned_if := b\<rparr>) = bc_emits ops s"
  "bc_emits ops (s\<lparr>bc_warned_loop := b\<rparr>) = bc_emits ops s"
  "bc_emits ops (s\<lparr>bc_warned_return := b\<rparr>) = bc_emits ops s"
  by (simp_all add: bc_emits_def bc_warn_def)

lemma bc_emits_store:
  "bc_emits ops s \<Longrightarrow> bc_emits (ops @ [OSignal v a])
     (s\<lparr>bc := emit_store_sequence (bc s) v a, bc_ops := bc_ops s + 2\<rparr>)"
  by (auto simp: bc_emits_def emit_store_sequence_def)

lemma bc_emits_say:
  "bc_emits ops s \<Longrightarrow> length t < 2 ^ 32 \<Longrightarrow> bc_emits (ops @ [OSay t])
     (s\<lparr>bc := append_u32_le (bc s @ [OP_SAY]) (word_of_nat (length t)) @ bytes_of t, bc_ops := bc_ops s + 1\<rparr>)"
  by (auto simp: bc_emits_def)

lemma bc_emits_halt:
  "bc_emits ops s \<Longrightarrow> bc_emits (ops @ [OHalt])
     (s\<lparr>bc := bc s @ [OP_HALT], bc_ops := bc_ops s + 1, bc_has_halt := True\<rparr>)"
  by (auto simp: bc_emits_def)

text \<open>A literal is no longer than its line, so a line of bounded length fits.\<close>

lemma length_unescape: "length (unescape_string s) \<le> length s"
  by (induction s rule: unescape_string.induct) (simp_all add: le_SucI)

lemma length_extract_loop: "extract_loop i e r s = Some t \<Longrightarrow> length t \<le> length r + length s"
proof (induction i e r s rule: extract_loop.induct)
  case (2 i e r c cs)
  then show ?case
    using length_unescape [of r] by (fastforce split: if_splits)
qed simp

lemma length_extract: "extract_quoted_string s = Some t \<Longrightarrow> length t \<le> length s"
  using length_extract_loop by (fastforce simp: extract_quoted_string_def)

lemma length_trim_by: "length (trim_by P s) \<le> length s"
proof -
  have "length (dropWhile P (rev (dropWhile P s))) \<le> length (rev (dropWhile P s))"
    by (rule length_dropWhile_le)
  also have "\<dots> \<le> length s" by (simp add: length_dropWhile_le)
  finally show ?thesis by (simp add: trim_by_def)
qed

lemma length_normalize: "length (normalize_source_line l) \<le> length l"
proof -
  have "length (strip_line_comment l) \<le> length l"
    by (simp add: strip_line_comment_def substr_def split: option.split)
  then show ?thesis
    using length_trim_by [of isspace "strip_line_comment l"] by (simp add: normalize_source_line_eq)
qed

text \<open>What a line adds to the operations, for the lines both back ends treat alike.\<close>

definition common_line :: "string \<Rightarrow> bool" where
  "common_line raw \<longleftrightarrow> length raw < 2 ^ 32 \<and>
     (let line = normalize_source_line raw
      in \<not> starts_with_keyword line ''ui'' \<and> \<not> (line \<noteq> [] \<and> hd line = CHR ''@''))"

definition is_halt_line :: "string \<Rightarrow> bool" where
  "is_halt_line raw \<longleftrightarrow> starts_with_keyword (normalize_source_line raw) ''halt''"

text \<open>
  The native program and the byte code after the same lines: the writes, joined, are what the
  operations print.
\<close>

definition same_output :: "native_parse \<Rightarrow> vm_op list \<Rightarrow> bool" where
  "same_output s ops \<longleftrightarrow> concat (writes (prog s)) = concat (map op_output ops)"

definition lines_agree :: "bool \<Rightarrow> vm_op list \<Rightarrow> string + native_parse \<Rightarrow> string + bc_compile \<Rightarrow> bool" where
  "lines_agree halt ops r b \<longleftrightarrow>
     (case b of Inl _ \<Rightarrow> isl r
      | Inr s' \<Rightarrow> (\<exists>n' more. r = Inr n' \<and> bc_emits (ops @ more) s' \<and> same_output n' (ops @ more) \<and>
                    (OHalt \<in> set more \<longrightarrow> halt) \<and> (halt \<longrightarrow> set more \<subseteq> {OHalt})))"

lemma lines_agree_Inl [simp]: "lines_agree halt ops (Inl e) (Inl e')"
  by (simp add: lines_agree_def)

lemma lines_agree_skip:
  "bc_emits ops s' \<Longrightarrow> same_output n' ops \<Longrightarrow> lines_agree halt ops (Inr n') (Inr s')"
  unfolding lines_agree_def by (auto intro: exI [of _ "[]"])

lemma lines_agree_op:
  "bc_emits (ops @ [x]) s' \<Longrightarrow> same_output n' (ops @ [x]) \<Longrightarrow> (x = OHalt \<longrightarrow> halt) \<Longrightarrow> (halt \<longrightarrow> x = OHalt) \<Longrightarrow>
   lines_agree halt ops (Inr n') (Inr s')"
  unfolding lines_agree_def by (auto intro: exI [of _ "[x]"])

lemma keyword_halt_only:
  assumes "starts_with_keyword line ''halt''"
  shows "\<not> starts_with_keyword line ''say''" "\<not> starts_with_keyword line ''ui''"
    "\<not> starts_with_keyword line ''pulse''" "\<not> starts_with_keyword line ''emit''"
  using assms by (auto simp: starts_with_keyword_def prefix_def)

lemma same_output_simps [simp]:
  "same_output (s\<lparr>line_no := k\<rparr>) ops = same_output s ops"
  "same_output (s\<lparr>prog := p\<rparr>) ops = (concat (writes p) = concat (map op_output ops))"
  "same_output (s\<lparr>warned_if := b\<rparr>) ops = same_output s ops"
  "same_output (s\<lparr>warned_loop := b\<rparr>) ops = same_output s ops"
  "same_output (s\<lparr>warned_return := b\<rparr>) ops = same_output s ops"
  "writes (add_warning m p) = writes p" "writes (ui_warn n m l p) = writes p"
  by (simp_all add: same_output_def add_warning_def ui_warn_def)

lemma lines_agree_if:
  "(b \<Longrightarrow> lines_agree h ops x x') \<Longrightarrow> (\<not> b \<Longrightarrow> lines_agree h ops y y') \<Longrightarrow>
   lines_agree h ops (if b then x else y) (if b then x' else y')"
  by simp

lemma lines_agree_step:
  assumes common: "common_line raw" and bc: "bc_emits ops s" and same: "same_output m ops"
  shows "lines_agree (is_halt_line raw) ops (native_line raw m) (bc_line raw s)"
proof -
  define l where "l = normalize_source_line raw"
  let ?kw = "starts_with_keyword l"
  have len: "length l < 2 ^ 32"
    using common length_normalize [of raw] by (simp add: common_line_def l_def Let_def)
  have noui: "\<not> ?kw ''ui''" and noat: "\<not> (l \<noteq> [] \<and> hd l = CHR ''@'')"
    using common by (simp_all add: common_line_def l_def Let_def)
  have halt_raw: "is_halt_line raw = ?kw ''halt''" by (simp add: is_halt_line_def l_def)
  define flow where "flow \<longleftrightarrow> l = [] \<or> is_brace_line l \<or> ?kw ''if'' \<or> ?kw ''else'' \<or> ?kw ''loop'' \<or>
      ?kw ''break'' \<or> ?kw ''return'' \<or> is_ignored_decl l"
  note unf = native_line_def bc_line_def Let_def l_def [symmetric]
  define s1 where "s1 = s\<lparr>bc_line_no := bc_line_no s + 1\<rparr>"
  have bc1: "bc_emits ops s1" by (simp add: s1_def bc)
  have skip: "lines_agree (is_halt_line raw) ops (if c then Inr m1 else Inr m2) (if d then Inr s1 else Inr s2)"
    if "same_output m1 ops" "same_output m2 ops" "bc_emits ops s1" "bc_emits ops s2" for c d m1 m2 s1 s2
    using that by (auto intro: lines_agree_skip)
  note same' = same [unfolded same_output_def]
  consider (flow) flow
    | (say) "\<not> flow" "?kw ''say''"
    | (halt) "\<not> flow" "\<not> ?kw ''say''" "?kw ''halt''"
    | (signal) "\<not> flow" "\<not> ?kw ''say''" "\<not> ?kw ''halt''" "?kw ''pulse'' \<or> ?kw ''emit''"
    | (other) "\<not> flow" "\<not> ?kw ''say''" "\<not> ?kw ''halt''" "\<not> (?kw ''pulse'' \<or> ?kw ''emit'')"
    by blast
  then show ?thesis
  proof cases
    case flow
    consider "(l = [])"
      | "\<not> (l = [])" "is_brace_line l"
      | "\<not> (l = [])" "\<not> is_brace_line l" "(?kw ''if'' \<or> ?kw ''else'')"
      | "\<not> (l = [])" "\<not> is_brace_line l" "\<not> (?kw ''if'' \<or> ?kw ''else'')" "(?kw ''loop'' \<or> ?kw ''break'')"
      | "\<not> (l = [])" "\<not> is_brace_line l" "\<not> (?kw ''if'' \<or> ?kw ''else'')" "\<not> (?kw ''loop'' \<or> ?kw ''break'')" "?kw ''return''"
      | "\<not> (l = [])" "\<not> is_brace_line l" "\<not> (?kw ''if'' \<or> ?kw ''else'')" "\<not> (?kw ''loop'' \<or> ?kw ''break'')" "\<not> ?kw ''return''" "is_ignored_decl l"
      using flow unfolding flow_def by blast
    then show ?thesis
    proof cases
      case 1
      then show ?thesis
        unfolding unf
        by (simp only: if_True if_False simp_thms) (rule lines_agree_skip; simp add: bc same same')
    next
      case 2
      then show ?thesis
        unfolding unf
        by (simp only: if_True if_False simp_thms) (rule lines_agree_skip; simp add: bc same same')
    next
      case 3
      then show ?thesis
        unfolding unf
        by (simp only: if_True if_False simp_thms) (rule skip; simp add: bc same same')
    next
      case 4
      then show ?thesis
        unfolding unf
        by (simp only: if_True if_False simp_thms) (rule skip; simp add: bc same same')
    next
      case 5
      then show ?thesis
        unfolding unf
        by (simp only: if_True if_False simp_thms) (rule skip; simp add: bc same same')
    next
      case 6
      then show ?thesis
        unfolding unf
        by (simp only: if_True if_False simp_thms) (rule lines_agree_skip; simp add: bc same same')
    qed
  next
    case say
    show ?thesis
    proof (cases "extract_quoted_string l")
      case None
      then show ?thesis using say by (simp add: unf flow_def)
    next
      case (Some t)
      then have fits: "length t < 2 ^ 32" using length_extract len by fastforce
      have nh: "\<not> is_halt_line raw" using say keyword_halt_only(1) [of l] halt_raw by blast
      show ?thesis
        using say Some same' nh unfolding unf flow_def de_Morgan_disj
        by (simp only: if_True if_False simp_thms option.case)
           (rule lines_agree_op [where x = "OSay t", OF bc_emits_say [OF bc1 fits, unfolded s1_def]]; simp)
    qed
  next
    case halt
    then show ?thesis
      using keyword_halt_only(3,4) [of l] same' noui halt_raw unfolding unf flow_def de_Morgan_disj
      by (simp only: if_True if_False simp_thms)
         (rule lines_agree_op [where x = OHalt, OF bc_emits_halt [OF bc1, unfolded s1_def]]; simp)
  next
    case signal
    have nh: "\<not> is_halt_line raw" using signal halt_raw by blast
    show ?thesis
    proof (cases "parse_pulse_or_emit l")
      case None
      then show ?thesis using signal noui by (simp add: unf flow_def)
    next
      case (Some bv)
      obtain b v where bv: "bv = (b, v)" by fastforce
      show ?thesis
        using signal noui Some same' nh unfolding unf flow_def de_Morgan_disj bv
        by (simp only: if_True if_False simp_thms option.case prod.case)
           (rule lines_agree_op [where x = "OSignal v (if b then PULSE_PORT else EMIT_PORT)",
              OF bc_emits_store [OF bc1, unfolded s1_def]]; simp add: PULSE_PORT_def EMIT_PORT_def)
    qed
  next
    case other
    then show ?thesis
      using noui noat unfolding unf flow_def de_Morgan_disj
      by (simp only: if_True if_False simp_thms) (rule skip; simp add: bc same same')
  qed
qed

lemma fold_agree:
  assumes "\<forall>l \<in> set ls. common_line l" and "bc_emits ops s" and "same_output m ops"
    and "fold_lines bc_line ls s = Inr s'"
  shows "\<exists>m' more. fold_lines native_line ls m = Inr m' \<and> bc_emits (ops @ more) s' \<and>
           same_output m' (ops @ more) \<and>
           ((\<forall>l \<in> set ls. \<not> is_halt_line l) \<longrightarrow> OHalt \<notin> set more) \<and>
           ((\<forall>l \<in> set ls. is_halt_line l) \<longrightarrow> set more \<subseteq> {OHalt})"
  using assms
proof (induction ls arbitrary: ops s m)
  case Nil
  then show ?case by (auto intro: exI [of _ "[]"])
next
  case (Cons l ls)
  from Cons.prems(4) obtain s1 where s1: "bc_line l s = Inr s1" "fold_lines bc_line ls s1 = Inr s'"
    by (auto split: sum.splits)
  from lines_agree_step [OF _ Cons.prems(2,3), of l] Cons.prems(1) s1(1)
  obtain m1 xs where m1: "native_line l m = Inr m1" "bc_emits (ops @ xs) s1" "same_output m1 (ops @ xs)"
      "OHalt \<in> set xs \<longrightarrow> is_halt_line l" "is_halt_line l \<longrightarrow> set xs \<subseteq> {OHalt}"
    by (auto simp: lines_agree_def)
  from Cons.IH [OF _ m1(2,3) s1(2)] Cons.prems(1)
  obtain m' ys where m': "fold_lines native_line ls m1 = Inr m'" "bc_emits ((ops @ xs) @ ys) s'"
      "same_output m' ((ops @ xs) @ ys)" "(\<forall>l \<in> set ls. \<not> is_halt_line l) \<longrightarrow> OHalt \<notin> set ys"
      "(\<forall>l \<in> set ls. is_halt_line l) \<longrightarrow> set ys \<subseteq> {OHalt}"
    by auto
  show ?case
    by (rule exI [of _ m'], rule exI [of _ "xs @ ys"]) (use m1 m' in auto)
qed

lemma fold_lines_append:
  "fold_lines f (xs @ ys) s = (case fold_lines f xs s of Inl e \<Rightarrow> Inl e | Inr s' \<Rightarrow> fold_lines f ys s')"
  by (induction xs arbitrary: s) (auto split: sum.split)

lemma ops_output_app:
  "OHalt \<notin> set xs \<Longrightarrow> ops_output (xs @ ys) = concat (map op_output xs) @ ops_output ys"
  by (induction xs) auto

lemma ops_output_halts: "set ys \<subseteq> {OHalt} \<Longrightarrow> ops_output ys = [] \<and> concat (map op_output ys) = []"
  by (induction ys) auto

lemma bc_finish_emits:
  "bc_emits ops s \<Longrightarrow> \<exists>more. set more \<subseteq> {OHalt} \<and> bc (bc_finish s) = MAGIC_BYTES @ encode_ops (ops @ more) \<and>
     list_all op_fits (ops @ more) \<and> OHalt \<in> set (ops @ more)"
  by (cases "OHalt \<in> set ops")
     (auto simp: bc_finish_def bc_emits_def intro: exI [of _ "[]"] exI [of _ "[OHalt]"])

lemma fold_warn_frame: "read_file (fold (\<lambda>x. cerr (f x)) ms v) q = read_file v q"
  by (induction ms arbitrary: v) simp_all

lemma compile_source_stores:
  assumes "read_text w src = Some content" and "compile_source src out w = (True, w')"
  obtains s where "fold_lines bc_line (getlines content) bc_init = Inr s"
    and "read_file w' out = Some (bc (bc_finish s))"
proof -
  obtain s where s: "fold_lines bc_line (getlines content) bc_init = Inr s"
    using assms by (auto simp: compile_source_def split: sum.splits)
  then obtain v where "write_file out (bc (bc_finish s)) w = Some (True, v)" "read_file w' out = read_file v out"
    using assms by (auto simp: compile_source_def Let_def fold_warn_frame split: option.splits if_splits)
  then have "read_file w' out = Some (bc (bc_finish s))"
    using write_file_read(1) by simp
  with s show thesis using that by blast
qed

lemma vm_prints_writes:
  assumes "read_text w src = Some content" and "getlines content = body @ halts"
    and "\<forall>l \<in> set body. common_line l \<and> \<not> is_halt_line l"
    and "\<forall>l \<in> set halts. common_line l \<and> is_halt_line l"
    and "compile_source src out w = (True, w')"
  shows "\<exists>p. parse_native_program src NativeProgram_new w = (Some p, w) \<and>
           run_bytecode out w' = (True, cout (concat (writes p)) w')"
proof -
  define m0 where "m0 = \<lparr>prog = NativeProgram_new, line_no = 0, warned_if = False, warned_loop = False,
      warned_return = False\<rparr>"
  have init: "bc_emits [] bc_init" "same_output m0 []"
    by (simp_all add: bc_emits_def bc_init_def same_output_def m0_def NativeProgram_new_def)
  obtain s where s: "fold_lines bc_line (body @ halts) bc_init = Inr s"
    and out: "read_file w' out = Some (bc (bc_finish s))"
    using compile_source_stores [OF assms(1,5)] assms(2) by metis
  from s obtain s1 where s1: "fold_lines bc_line body bc_init = Inr s1" "fold_lines bc_line halts s1 = Inr s"
    by (auto simp: fold_lines_append split: sum.splits)
  obtain m1 xs where xs: "fold_lines native_line body m0 = Inr m1" "bc_emits xs s1" "same_output m1 xs"
      "OHalt \<notin> set xs"
    using fold_agree [OF _ init s1(1)] assms(3) by auto
  obtain m2 ys where ys: "fold_lines native_line halts m1 = Inr m2" "bc_emits (xs @ ys) s" "same_output m2 (xs @ ys)"
      "set ys \<subseteq> {OHalt}"
    using fold_agree [OF _ xs(2,3) s1(2)] assms(4) by auto
  obtain zs where zs: "set zs \<subseteq> {OHalt}" "bc (bc_finish s) = MAGIC_BYTES @ encode_ops ((xs @ ys) @ zs)"
      "list_all op_fits ((xs @ ys) @ zs)" "OHalt \<in> set ((xs @ ys) @ zs)"
    using bc_finish_emits [OF ys(2)] by blast
  have "run_bytecode out w' = (True, cout (ops_output ((xs @ ys) @ zs)) w')"
    using out zs run_encoded by metis
  moreover have "ops_output ((xs @ ys) @ zs) = concat (writes (prog m2))"
    using xs(4) ys(3,4) zs(1) ops_output_halts [of ys] ops_output_halts [of "ys @ zs"]
    by (simp add: ops_output_app same_output_def)
  moreover have "parse_native_program src NativeProgram_new w = (Some (native_finish (prog m2)), w)"
    using xs(1) ys(1) assms(1,2) by (simp add: parse_native_program_def fold_lines_append m0_def)
  ultimately show ?thesis by (simp add: native_finish_def)
qed

text \<open>
  C13. The byte code back end agrees with the native one: on a source without \<open>ui\<close> and \<open>@\<close>
  statements and with its \<open>halt\<close>s at the end, the machine runs the compiled file without an
  error and prints exactly what the native program writes.
\<close>

theorem vm_agrees_with_native:
  assumes "read_text w src = Some content" and "getlines content = body @ halts"
    and "\<forall>l \<in> set body. common_line l \<and> \<not> is_halt_line l"
    and "\<forall>l \<in> set halts. common_line l \<and> is_halt_line l"
    and "compile_source src out w = (True, w')"
  shows "\<exists>p. parse_native_program src NativeProgram_new w = (Some p, w) \<and>
           run_bytecode out w' = (True, cout (concat (writes p)) w')"
  using assms by (rule vm_prints_writes)

section \<open>A concrete program\<close>

definition vm_source :: string where
  "vm_source = unlines (map say_line [''hi''] @ [''pulse ^;'', ''halt;''])"

lemma vm_source_lines:
  "getlines vm_source = [say_line ''hi'', ''pulse ^;''] @ [''halt;'']"
  unfolding vm_source_def using getlines_unlines [of "[say_line ''hi'', ''pulse ^;'', ''halt;'']"]
  by (simp add: newline_free_say_line)

lemma common_lineI:
  "length raw < 2 ^ 32 \<Longrightarrow> \<not> starts_with_keyword (normalize_source_line raw) ''ui'' \<Longrightarrow>
   take 1 (normalize_source_line raw) \<noteq> ''@'' \<Longrightarrow> common_line raw"
  by (cases "normalize_source_line raw") (auto simp: common_line_def Let_def)

lemma vm_source_kinds:
  "\<forall>l \<in> set [say_line ''hi'', ''pulse ^;'']. common_line l \<and> \<not> is_halt_line l"
  "\<forall>l \<in> set [''halt;'']. common_line l \<and> is_halt_line l"
proof -
  have n: "normalize_source_line ''pulse ^;'' = ''pulse ^;''" "normalize_source_line ''halt;'' = ''halt;''"
    by code_simp+
  have "common_line (say_line ''hi'')"
  proof (rule common_lineI)
    show "length (say_line ''hi'') < 2 ^ 32" by (simp add: say_line_def quote_for_log_def log_escape_def)
    show "take 1 (normalize_source_line (say_line ''hi'')) \<noteq> ''@''" by (simp only: normalize_say_line) (simp add: say_line_def)
  qed simp
  then show "\<forall>l \<in> set [say_line ''hi'', ''pulse ^;'']. common_line l \<and> \<not> is_halt_line l"
    "\<forall>l \<in> set [''halt;'']. common_line l \<and> is_halt_line l"
    by (auto intro!: common_lineI simp: n is_halt_line_def)
       (simp_all add: starts_with_keyword_def say_line_def)
qed

lemma vm_source_compiles:
  "\<exists>w'. compile_source ''a.nl'' ''out'' (sample_world ''a.nl'' vm_source) = (True, w')"
proof -
  define ls where "ls = [say_line ''hi'', ''pulse ^;''] @ [''halt;'']"
  have "\<not> isl (fold_lines bc_line ls bc_init)" unfolding ls_def by code_simp
  then obtain s where s: "fold_lines bc_line ls bc_init = Inr s"
    by (cases "fold_lines bc_line ls bc_init") auto
  have "getlines vm_source = ls" by (simp only: vm_source_lines ls_def)
  then show ?thesis
    by (simp add: compile_source_def s write_file_ok Let_def)
qed

theorem vm_agrees_with_native_witness:
  "\<exists>w' (p :: NativeProgram). compile_source ''a.nl'' ''out'' (sample_world ''a.nl'' vm_source) = (True, w') \<and>
     run_bytecode ''out'' w' = (True, cout (concat (writes p)) w')"
proof -
  obtain w' where w': "compile_source ''a.nl'' ''out'' (sample_world ''a.nl'' vm_source) = (True, w')"
    using vm_source_compiles by blast
  show ?thesis
    using vm_agrees_with_native [OF sample_world_simps(1) vm_source_lines vm_source_kinds w'] w' by blast
qed

end
