(* ===== verification/Ui_Scene.thy ===== *)
theory Ui_Scene
  imports Native_Frontend Complex_Main
begin

text \<open>
  The UI scene of \<open>src/nanlang_cpp.cpp\<close>: \<open>UiWidget\<close>, \<open>UiChart\<close>, \<open>UiScene\<close>, the parser
  \<open>parse_ui_scene\<close> and the mouse handlers \<open>on_ui_button_press\<close>, \<open>on_ui_button_release\<close> and
  \<open>on_ui_motion\<close>, which are its interaction state machine. A \<open>double\<close> is taken as the exact
  rational it denotes, its arithmetic as exact; a handler's request to redraw is dropped (the
  drawing itself is in \<open>Ui_Drawing\<close>). A narrowing cast to \<open>int\<close> wraps.
\<close>

section \<open>Scenes\<close>

datatype UiKind = LabelWidget | ButtonWidget | SliderWidget

record UiWidget =
  uw_kind :: UiKind
  uw_window_id :: int
  uw_widget_id :: int
  uw_text :: string
  uw_min :: int
  uw_max :: int
  uw_current :: int

definition UiWidget_new :: UiWidget where
  "UiWidget_new = \<lparr>uw_kind = LabelWidget, uw_window_id = 0, uw_widget_id = 0, uw_text = [],
     uw_min = 0, uw_max = 100, uw_current = 0\<rparr>"

record UiChart =
  ch_present :: bool
  ch_window_id :: int
  ch_chart_id :: int
  ch_samples :: int
  ch_values :: "int list"

record UiScene =
  sc_has_magic :: bool
  sc_has_ui :: bool
  sc_app_begin :: bool
  sc_app_end :: bool
  sc_horizontal :: bool
  sc_spacing :: int
  sc_window_id :: int
  sc_width :: int
  sc_height :: int
  sc_title :: string
  sc_widgets :: "UiWidget list"
  sc_chart :: UiChart
  sc_notes :: "string list"
  sc_dragging :: int
  sc_hovered :: int
  sc_clicked :: int
  sc_mouse_x :: rat
  sc_mouse_y :: rat

definition UiScene_new :: UiScene where
  "UiScene_new = \<lparr>sc_has_magic = False, sc_has_ui = False, sc_app_begin = False, sc_app_end = False,
     sc_horizontal = False, sc_spacing = 12, sc_window_id = 1, sc_width = 1280, sc_height = 720,
     sc_title = ''NanLang UI'', sc_widgets = [],
     sc_chart = \<lparr>ch_present = False, ch_window_id = 0, ch_chart_id = 0, ch_samples = 0, ch_values = []\<rparr>,
     sc_notes = [], sc_dragging = -1, sc_hovered = -1, sc_clicked = -1, sc_mouse_x = -1, sc_mouse_y = -1\<rparr>"

fun widget_kind_name :: "UiKind \<Rightarrow> string" where
  "widget_kind_name LabelWidget = ''Label''"
| "widget_kind_name ButtonWidget = ''Button''"
| "widget_kind_name SliderWidget = ''Slider''"

text \<open>\<open>static_cast<int>\<close> of a \<open>long long\<close>.\<close>

definition to_int :: "int \<Rightarrow> int" where
  "to_int v = sint (word_of_int v :: 32 word)"

section \<open>parse_ui_scene\<close>

definition scene_note :: "string \<Rightarrow> UiScene \<Rightarrow> UiScene" where
  "scene_note m s = s\<lparr>sc_notes := sc_notes s @ [m]\<rparr>"

definition scene_line_note :: "nat \<Rightarrow> string \<Rightarrow> UiScene \<Rightarrow> UiScene" where
  "scene_line_note n m = scene_note (''line '' @ nat_to_string n @ '': '' @ m)"

definition scene_app :: "string \<Rightarrow> UiScene \<Rightarrow> UiScene" where
  "scene_app action s =
     (if action = ''begin'' then scene_note ''app begin'' (s\<lparr>sc_app_begin := True\<rparr>)
      else if action = ''end'' then scene_note ''app end'' (s\<lparr>sc_app_end := True\<rparr>)
      else s)"

definition scene_window :: "string \<Rightarrow> string list \<Rightarrow> nat \<Rightarrow> UiScene \<Rightarrow> UiScene" where
  "scene_window action tokens n s =
     (if action = ''create'' then
        (if length tokens < 6 then scene_line_note n ''window create missing args'' s
         else (case parse_int_tokens [tokens ! 3, tokens ! 4, tokens ! 5] of
                 Some [window_id, width, height] \<Rightarrow>
                   s\<lparr>sc_window_id := to_int window_id, sc_width := max 320 (to_int width),
                     sc_height := max 240 (to_int height)\<rparr>
               | _ \<Rightarrow> s))
      else if action = ''title'' then
        (if length tokens < 5 then scene_line_note n ''window title missing args'' s
         else s\<lparr>sc_title := tokens ! 4\<rparr>)
      else s)"

definition scene_layout :: "string \<Rightarrow> string list \<Rightarrow> nat \<Rightarrow> UiScene \<Rightarrow> UiScene" where
  "scene_layout action tokens n s =
     (if action = ''vertical'' \<or> action = ''horizontal'' then
        (if length tokens < 5 then scene_line_note n ''layout missing args'' s
         else (case parse_int_tokens [tokens ! 3, tokens ! 4] of
                 Some [window_id, spacing] \<Rightarrow>
                   s\<lparr>sc_horizontal := (action = ''horizontal''), sc_spacing := to_int spacing\<rparr>
               | _ \<Rightarrow> s))
      else s)"

definition scene_text_widget :: "string \<Rightarrow> string list \<Rightarrow> nat \<Rightarrow> UiScene \<Rightarrow> UiScene" where
  "scene_text_widget grp tokens n s =
     (if length tokens < 5 then scene_line_note n (grp @ '' missing args'') s
      else (case parse_int_tokens [tokens ! 2, tokens ! 3] of
              Some [window_id, widget_id] \<Rightarrow>
                s\<lparr>sc_widgets := sc_widgets s @
                   [UiWidget_new\<lparr>uw_kind := (if grp = ''label'' then LabelWidget else ButtonWidget),
                      uw_window_id := to_int window_id, uw_widget_id := to_int widget_id,
                      uw_text := tokens ! 4\<rparr>]\<rparr>
            | _ \<Rightarrow> scene_line_note n (''invalid '' @ grp @ '' id'') s))"

definition scene_slider :: "string list \<Rightarrow> nat \<Rightarrow> UiScene \<Rightarrow> UiScene" where
  "scene_slider tokens n s =
     (if length tokens < 7 then scene_line_note n ''slider missing args'' s
      else (case parse_int_tokens [tokens ! 2, tokens ! 3, tokens ! 4, tokens ! 5, tokens ! 6] of
              Some [window_id, widget_id, min_v, max_v, current] \<Rightarrow>
                s\<lparr>sc_widgets := sc_widgets s @
                   [UiWidget_new\<lparr>uw_kind := SliderWidget, uw_window_id := to_int window_id,
                      uw_widget_id := to_int widget_id, uw_min := to_int min_v, uw_max := to_int max_v,
                      uw_current := to_int current\<rparr>]\<rparr>
            | _ \<Rightarrow> scene_line_note n ''invalid slider args'' s))"

text \<open>
  \<open>resize(idx + 1, 0)\<close> when the index is past the end, then the store. Memory is taken as unbounded: the
  exception \<open>resize\<close> throws for an index that no vector can have is not modelled.
\<close>

definition set_value :: "int list \<Rightarrow> nat \<Rightarrow> int \<Rightarrow> int list" where
  "set_value vs idx v =
     (let vs = (if length vs \<le> idx then vs @ replicate (idx + 1 - length vs) 0 else vs) in vs[idx := v])"

definition scene_chart :: "string \<Rightarrow> string list \<Rightarrow> nat \<Rightarrow> UiScene \<Rightarrow> UiScene" where
  "scene_chart action tokens n s =
     (if action = ''begin'' then
        (if length tokens < 6 then scene_line_note n ''chart begin missing args'' s
         else (case parse_int_tokens [tokens ! 3, tokens ! 4, tokens ! 5] of
                 Some [window_id, chart_id, samples] \<Rightarrow>
                   s\<lparr>sc_chart := \<lparr>ch_present = True, ch_window_id = to_int window_id,
                        ch_chart_id = to_int chart_id, ch_samples = to_int samples, ch_values = []\<rparr>\<rparr>
               | _ \<Rightarrow> s))
      else if action = ''point'' then
        (if length tokens < 6 then scene_line_note n ''chart point missing args'' s
         else (case parse_int_tokens [tokens ! 3, tokens ! 4, tokens ! 5] of
                 Some [chart_id, index, val] \<Rightarrow>
                   (let c = sc_chart s;
                        c = (if \<not> ch_present c
                             then c\<lparr>ch_present := True, ch_chart_id := to_int chart_id\<rparr> else c);
                        idx = nat (max 0 index)
                    in s\<lparr>sc_chart := c\<lparr>ch_values := set_value (ch_values c) idx (to_int val)\<rparr>\<rparr>)
               | _ \<Rightarrow> s))
      else if action = ''commit'' then s\<lparr>sc_chart := (sc_chart s)\<lparr>ch_present := True\<rparr>\<rparr>
      else s)"

definition scene_directive :: "string list \<Rightarrow> nat \<Rightarrow> UiScene \<Rightarrow> UiScene" where
  "scene_directive tokens n s =
     (let grp = tokens ! 1; action = (if 2 < length tokens then tokens ! 2 else []) in
      if grp = ''app'' then scene_app action s
      else if grp = ''window'' then scene_window action tokens n s
      else if grp = ''layout'' then scene_layout action tokens n s
      else if grp = ''label'' \<or> grp = ''button'' then scene_text_widget grp tokens n s
      else if grp = ''slider'' then scene_slider tokens n s
      else if grp = ''chart'' then scene_chart action tokens n s
      else if grp = ''frame'' \<and> action = ''present'' then scene_note ''frame present'' s
      else scene_line_note n ''unsupported ui directive'' s)"

text \<open>The loop body on (line number, \<open>saw_ui\<close>, scene).\<close>

definition scene_line :: "string \<Rightarrow> nat \<times> bool \<times> UiScene \<Rightarrow> nat \<times> bool \<times> UiScene" where
  "scene_line raw_line = (\<lambda>(n0, saw_ui, s).
     (let n = n0 + 1; line = normalize_source_line raw_line in
      if line = [] \<or> is_brace_line line then (n, saw_ui, s)
      else if starts_with_keyword line ''NAN3'' \<or> starts_with_keyword line ''@nan_magic''
        then (n, saw_ui, s\<lparr>sc_has_magic := True\<rparr>)
      else if \<not> starts_with_keyword line ''ui'' then (n, saw_ui, s)
      else
        (let (tokens, ok) = tokenize_ui_directive line in
         if \<not> ok \<or> length tokens < 2
         then (n, saw_ui, scene_line_note n ''malformed ui directive'' s)
         else (n, True, scene_directive tokens n (s\<lparr>sc_has_ui := True\<rparr>)))))"

definition parse_ui_scene :: "string \<Rightarrow> UiScene \<Rightarrow> world \<Rightarrow> bool \<times> UiScene \<times> world" where
  "parse_ui_scene src_path scene w =
     (case read_text w src_path of
        None \<Rightarrow> (False, scene, cerr (''[ERROR] UI scene not found: '' @ src_path @ [CHR 0x0A]) w)
      | Some text \<Rightarrow>
          (let (n, saw_ui, s) = fold scene_line (getlines text) (0, False, scene) in (saw_ui, s, w)))"

section \<open>Mouse handlers\<close>

text \<open>\<open>int\<close> of a non-negative quotient, and the cast that truncates towards zero.\<close>

definition trunc :: "rat \<Rightarrow> int" where
  "trunc r = (if 0 \<le> r then \<lfloor>r\<rfloor> else \<lceil>r\<rceil>)"

record card_layout =
  cl_cols :: nat
  cl_card_w :: rat
  cl_card_h :: rat
  cl_gap :: rat

definition card_layout_of :: "UiScene \<Rightarrow> int \<Rightarrow> card_layout" where
  "card_layout_of s w_width =
     (let margin = 24;
          gap = max 8 (of_int (sc_spacing s)) :: rat;
          horizontal = sc_horizontal s;
          widget_count = length (sc_widgets s);
          usable_w = of_int w_width - 2 * margin;
          min_card_w = (if horizontal then 270 else usable_w);
          cols = (if horizontal \<and> 0 < widget_count
                  then max 1 (nat (trunc ((usable_w + gap) / (min_card_w + gap)))) else 1);
          cols = min cols widget_count;
          cols = max 1 cols
      in \<lparr>cl_cols = cols,
          cl_card_w = (if horizontal then (usable_w - gap * (of_nat cols - 1)) / of_nat cols else usable_w),
          cl_card_h = (if horizontal then 154 else 92),
          cl_gap = gap\<rparr>)"

definition in_card :: "card_layout \<Rightarrow> nat \<Rightarrow> rat \<Rightarrow> rat \<Rightarrow> bool" where
  "in_card cl i x y =
     (let row = i div cl_cols cl; col = i mod cl_cols cl;
          card_x = 24 + of_nat col * (cl_card_w cl + cl_gap cl);
          card_y = (24 + 126) + of_nat row * (cl_card_h cl + cl_gap cl)
      in card_x \<le> x \<and> x < card_x + cl_card_w cl \<and> card_y \<le> y \<and> y < card_y + cl_card_h cl)"

text \<open>The loop over the widgets: labels under the pointer are passed over.\<close>

fun press_loop :: "card_layout \<Rightarrow> rat \<Rightarrow> rat \<Rightarrow> nat \<Rightarrow> UiWidget list \<Rightarrow> UiScene \<Rightarrow> bool \<times> UiScene" where
  "press_loop cl x y i [] s = (False, s)"
| "press_loop cl x y i (w # ws) s =
     (if in_card cl i x y then
        (case uw_kind w of
           SliderWidget \<Rightarrow> (True, s\<lparr>sc_dragging := uw_widget_id w\<rparr>)
         | ButtonWidget \<Rightarrow> (True, s\<lparr>sc_clicked := uw_widget_id w\<rparr>)
         | LabelWidget \<Rightarrow> press_loop cl x y (i + 1) ws s)
      else press_loop cl x y (i + 1) ws s)"

definition on_ui_button_press :: "nat \<Rightarrow> rat \<Rightarrow> rat \<Rightarrow> int \<Rightarrow> UiScene \<Rightarrow> bool \<times> UiScene" where
  "on_ui_button_press button x y w_width s =
     (if button \<noteq> 1 then (False, s)
      else press_loop (card_layout_of s w_width) x y 0 (sc_widgets s)
             (s\<lparr>sc_mouse_x := x, sc_mouse_y := y\<rparr>))"

definition on_ui_button_release :: "nat \<Rightarrow> UiScene \<Rightarrow> world \<Rightarrow> bool \<times> UiScene \<times> world" where
  "on_ui_button_release button s w =
     (if button \<noteq> 1 then (False, s, w)
      else if 0 \<le> sc_dragging s then (True, s\<lparr>sc_dragging := -1\<rparr>, w)
      else if 0 \<le> sc_clicked s then
        (True, s\<lparr>sc_clicked := -1\<rparr>,
         cout (''[UI] Button #'' @ int_to_string (sc_clicked s) @ '' clicked'' @ [CHR 0x0A]) w)
      else (False, s, w))"

text \<open>\<open>std::clamp(v, lo, hi)\<close>, defined when \<open>lo \<le> hi\<close>.\<close>

definition clamp :: "int \<Rightarrow> int \<Rightarrow> int \<Rightarrow> int" where
  "clamp v lo hi = (if v < lo then lo else if hi < v then hi else v)"

text \<open>The sum is an \<open>int\<close> and wraps.\<close>

definition drag_value :: "rat \<Rightarrow> UiWidget \<Rightarrow> int" where
  "drag_value delta wd = clamp (to_int (uw_current wd + to_int (trunc (delta * (1 / 2))))) (uw_min wd) (uw_max wd)"

text \<open>The loop stops at the first slider with the dragged id.\<close>

fun motion_loop :: "int \<Rightarrow> rat \<Rightarrow> UiWidget list \<Rightarrow> world \<Rightarrow> UiWidget list \<times> world" where
  "motion_loop i delta [] w = ([], w)"
| "motion_loop i delta (wd # wds) w =
     (if uw_widget_id wd = i \<and> uw_kind wd = SliderWidget then
        (wd\<lparr>uw_current := drag_value delta wd\<rparr> # wds,
         cout (''[UI] Slider #'' @ int_to_string (uw_widget_id wd) @ '' = '' @
               int_to_string (drag_value delta wd) @ [CHR 0x0A]) w)
      else (let (wds', w') = motion_loop i delta wds w in (wd # wds', w')))"

definition on_ui_motion :: "rat \<Rightarrow> rat \<Rightarrow> UiScene \<Rightarrow> world \<Rightarrow> UiScene \<times> world" where
  "on_ui_motion x y s w =
     (let (wds, w') = (if 0 \<le> sc_dragging s
                       then motion_loop (sc_dragging s) (x - sc_mouse_x s) (sc_widgets s) w
                       else (sc_widgets s, w))
      in (s\<lparr>sc_widgets := wds, sc_mouse_x := x, sc_mouse_y := y\<rparr>, w'))"

section \<open>Parsed scenes\<close>

definition scene_ok :: "UiScene \<Rightarrow> bool" where
  "scene_ok s \<longleftrightarrow> 320 \<le> sc_width s \<and> 240 \<le> sc_height s \<and> sc_dragging s = -1 \<and> sc_clicked s = -1"

lemma scene_ok_note [simp]: "scene_ok (scene_note m s) = scene_ok s"
  by (simp add: scene_ok_def scene_note_def)

lemma scene_ok_update [simp]:
  "scene_ok (s\<lparr>sc_app_begin := b\<rparr>) = scene_ok s" "scene_ok (s\<lparr>sc_app_end := b\<rparr>) = scene_ok s"
  "scene_ok (s\<lparr>sc_has_ui := b\<rparr>) = scene_ok s" "scene_ok (s\<lparr>sc_has_magic := b\<rparr>) = scene_ok s"
  "scene_ok (s\<lparr>sc_title := t\<rparr>) = scene_ok s" "scene_ok (s\<lparr>sc_widgets := ws\<rparr>) = scene_ok s"
  "scene_ok (s\<lparr>sc_chart := c\<rparr>) = scene_ok s" "scene_ok (s\<lparr>sc_horizontal := b, sc_spacing := i\<rparr>) = scene_ok s"
  "scene_ok s \<Longrightarrow> scene_ok (s\<lparr>sc_window_id := i, sc_width := max 320 a, sc_height := max 240 h\<rparr>)"
  by (simp_all add: scene_ok_def)

lemma scene_branches:
  "(b \<Longrightarrow> scene_ok x) \<Longrightarrow> (\<not> b \<Longrightarrow> scene_ok y) \<Longrightarrow> scene_ok (if b then x else y)"
  "scene_ok n \<Longrightarrow> (\<And>v. scene_ok (g v)) \<Longrightarrow> scene_ok (case r of None \<Rightarrow> n | Some v \<Rightarrow> g v)"
  "scene_ok n \<Longrightarrow> (\<And>v vs. scene_ok (h v vs)) \<Longrightarrow> scene_ok (case xs of [] \<Rightarrow> n | v # vs \<Rightarrow> h v vs)"
  by (simp_all split: option.split list.split)

lemma scene_directive_ok:
  assumes "scene_ok s"
  shows "scene_ok (scene_directive tokens n s)"
  unfolding scene_directive_def scene_app_def scene_window_def scene_layout_def scene_text_widget_def
    scene_slider_def scene_chart_def scene_line_note_def Let_def
  by (rule scene_branches | (simp only: scene_ok_note scene_ok_update assms; fail))+

lemma scene_line_ok: "scene_ok (snd (snd t)) \<Longrightarrow> scene_ok (snd (snd (scene_line raw t)))"
  by (cases t; cases "tokenize_ui_directive (normalize_source_line raw)")
     (simp add: scene_line_def Let_def scene_directive_ok scene_line_note_def)

interpretation scene_lines: invariant "\<lambda>raw s t. t = scene_line raw s" "\<lambda>t. scene_ok (snd (snd t))"
  by unfold_locales (simp add: scene_line_ok)

lemmas fold_scene_line_ok = scene_lines.run_ops [OF refl]

text \<open>A chart point is stored at its index; points before it that were never set are 0.\<close>

lemma set_value_nth:
  "set_value vs i v ! j = (if j = i then v else if j < length vs then vs ! j else if j < i then 0 else set_value vs i v ! j)"
  by (auto simp: set_value_def Let_def nth_append nth_list_update)

lemma length_set_value: "length (set_value vs i v) = max (length vs) (i + 1)"
  by (simp add: set_value_def Let_def)

section \<open>Interaction\<close>

datatype ui_event = Press nat rat rat int | Release nat | Motion rat rat

text \<open>One event, and the scenes events lead to.\<close>

inductive ui_step :: "UiScene \<Rightarrow> ui_event \<Rightarrow> UiScene \<Rightarrow> bool" where
  press: "ui_step s (Press b x y wd) (snd (on_ui_button_press b x y wd s))"
| release: "ui_step s (Release b) (fst (snd (on_ui_button_release b s w)))"
| motion: "ui_step s (Motion x y) (fst (on_ui_motion x y s w))"

inductive_simps ui_step_simps:
  "ui_step s (Press b x y wd) t" "ui_step s (Release b) t" "ui_step s (Motion x y) t"

definition ui_reach :: "UiScene \<Rightarrow> UiScene \<Rightarrow> bool" where
  "ui_reach = reaches (\<lambda>e s t. ui_step s e t)"

lemma ui_reach_step: "ui_step s e t \<Longrightarrow> ui_reach s t"
  unfolding ui_reach_def by (rule reaches_step [OF reaches_refl])

text \<open>What no event changes of a widget, and what a drag respects.\<close>

definition same_widget :: "UiWidget \<Rightarrow> UiWidget \<Rightarrow> bool" where
  "same_widget a b \<longleftrightarrow> b = a\<lparr>uw_current := uw_current b\<rparr>"

lemma same_widget_fields:
  "same_widget a b \<Longrightarrow> uw_kind b = uw_kind a \<and> uw_widget_id b = uw_widget_id a \<and>
     uw_min b = uw_min a \<and> uw_max b = uw_max a \<and> uw_text b = uw_text a"
  by (cases a; cases b) (simp add: same_widget_def)

lemma same_widget_refl [simp]: "same_widget a a"
  by (cases a) (simp add: same_widget_def)

definition slider_ok :: "UiWidget \<Rightarrow> bool" where
  "slider_ok wd \<longleftrightarrow> uw_kind wd = SliderWidget \<longrightarrow> uw_min wd \<le> uw_current wd \<and> uw_current wd \<le> uw_max wd"

lemma clamp_range: "lo \<le> hi \<Longrightarrow> lo \<le> clamp v lo hi \<and> clamp v lo hi \<le> hi"
  by (simp add: clamp_def)

lemma drag_slider_ok: "slider_ok wd \<Longrightarrow> slider_ok (wd\<lparr>uw_current := drag_value d wd\<rparr>)"
  using clamp_range [of "uw_min wd" "uw_max wd"] by (auto simp: slider_ok_def drag_value_def)

lemma motion_loop_widgets:
  "list_all2 same_widget ws (fst (motion_loop i d ws w))"
  "list_all slider_ok ws \<Longrightarrow> list_all slider_ok (fst (motion_loop i d ws w))"
  by (induction ws arbitrary: w) (auto simp: same_widget_def drag_slider_ok list.rel_refl case_prod_unfold Let_def)

definition has_widget :: "UiKind \<Rightarrow> int \<Rightarrow> UiScene \<Rightarrow> bool" where
  "has_widget k i s \<longleftrightarrow> (\<exists>wd \<in> set (sc_widgets s). uw_kind wd = k \<and> uw_widget_id wd = i)"

definition interaction_ok :: "UiScene \<Rightarrow> bool" where
  "interaction_ok s \<longleftrightarrow>
     (sc_dragging s = -1 \<or> has_widget SliderWidget (sc_dragging s) s) \<and>
     (sc_clicked s = -1 \<or> has_widget ButtonWidget (sc_clicked s) s) \<and>
     list_all slider_ok (sc_widgets s)"

lemma interaction_ok_pick:
  assumes "interaction_ok s" "wd \<in> set (sc_widgets s)"
  shows "uw_kind wd = SliderWidget \<Longrightarrow> interaction_ok (s\<lparr>sc_dragging := uw_widget_id wd\<rparr>)"
    and "uw_kind wd = ButtonWidget \<Longrightarrow> interaction_ok (s\<lparr>sc_clicked := uw_widget_id wd\<rparr>)"
  using assms unfolding interaction_ok_def has_widget_def by auto

lemma press_loop_ok:
  assumes "interaction_ok s" and "set ws \<subseteq> set (sc_widgets s)"
  shows "interaction_ok (snd (press_loop cl x y i ws s)) \<and> sc_widgets (snd (press_loop cl x y i ws s)) = sc_widgets s"
  using assms(2)
  by (induction ws arbitrary: i)
     (simp_all add: assms(1) interaction_ok_pick [OF assms(1)] split: UiKind.split)

lemma has_widget_same:
  assumes "list_all2 same_widget (sc_widgets s) (sc_widgets t)" "has_widget k i s"
  shows "has_widget k i t"
proof -
  from assms(2) obtain j where "j < length (sc_widgets s)"
    "uw_kind (sc_widgets s ! j) = k" "uw_widget_id (sc_widgets s ! j) = i"
    by (auto simp: has_widget_def in_set_conv_nth)
  moreover have "same_widget (sc_widgets s ! j) (sc_widgets t ! j)" "length (sc_widgets s) = length (sc_widgets t)"
    using assms(1) calculation(1) by (auto simp: list_all2_conv_all_nth)
  then have "uw_kind (sc_widgets t ! j) = uw_kind (sc_widgets s ! j)"
    "uw_widget_id (sc_widgets t ! j) = uw_widget_id (sc_widgets s ! j)"
    using same_widget_fields by blast+
  ultimately show ?thesis
    using \<open>length (sc_widgets s) = _\<close> unfolding has_widget_def
    by (intro bexI [of _ "sc_widgets t ! j"]) simp_all
qed

lemma interaction_ok_step: "ui_step s e t \<Longrightarrow> interaction_ok s \<Longrightarrow> interaction_ok t \<and> list_all2 same_widget (sc_widgets s) (sc_widgets t)"
proof (induction rule: ui_step.induct)
  case (press s b x y wd)
  let ?s = "s\<lparr>sc_mouse_x := x, sc_mouse_y := y\<rparr>"
  have "interaction_ok ?s" using press by (simp add: interaction_ok_def has_widget_def)
  then show ?case
    using press press_loop_ok [of ?s "sc_widgets s" "card_layout_of s wd" x y 0]
    by (simp add: on_ui_button_press_def list.rel_refl)
next
  case (release s b w)
  then show ?case
    by (auto simp: on_ui_button_release_def interaction_ok_def has_widget_def list.rel_refl)
next
  case (motion s x y w)
  let ?t = "fst (on_ui_motion x y s w)"
  have ws: "list_all2 same_widget (sc_widgets s) (sc_widgets ?t)" "list_all slider_ok (sc_widgets ?t)"
    and ids: "sc_dragging ?t = sc_dragging s" "sc_clicked ?t = sc_clicked s"
    using motion motion_loop_widgets [where ws = "sc_widgets s"]
    by (auto simp: on_ui_motion_def case_prod_unfold Let_def interaction_ok_def list.rel_refl)
  show ?case
    using motion ws ids has_widget_same [OF ws(1)] by (auto simp: interaction_ok_def)
qed

lemma list_all2_same_trans:
  "list_all2 same_widget xs ys \<Longrightarrow> list_all2 same_widget ys zs \<Longrightarrow> list_all2 same_widget xs zs"
proof (rule list_all2_trans)
  fix a b c assume "same_widget a b" "same_widget b c"
  then show "same_widget a c" by (cases a; cases b; cases c) (simp add: same_widget_def)
qed

interpretation ui_inter: invariant "\<lambda>e s t. ui_step s e t"
  "\<lambda>t. interaction_ok t \<and> list_all2 same_widget ws (sc_widgets t)" for ws
  by unfold_locales (auto dest: interaction_ok_step intro: list_all2_same_trans)

lemma interaction_ok_reach:
  "ui_reach s t \<Longrightarrow> interaction_ok s \<Longrightarrow> interaction_ok t \<and> list_all2 same_widget (sc_widgets s) (sc_widgets t)"
  using ui_inter.reach [where s = s and t = t and ws = "sc_widgets s"] by (auto simp: ui_reach_def list.rel_refl)

section \<open>Properties\<close>

text \<open>
  A scene the parser fills from the defaults, from whatever file, is at least 320 by 240 and
  in the idle interaction state.
\<close>

theorem parsed_scene_ok:
  "scene_ok (fst (snd (parse_ui_scene src UiScene_new w)))"
proof -
  have "scene_ok UiScene_new" by (simp add: scene_ok_def UiScene_new_def)
  then show ?thesis
    using fold_scene_line_ok [of "(0, False, UiScene_new)"]
    by (auto simp: parse_ui_scene_def case_prod_unfold Let_def split: option.split)
qed

text \<open>
  C22. Whatever the mouse does, a drag or a pending click always belongs to a slider or button of
  the scene, sliders that start within their range stay within it, and no widget changes
  except in its current value.
\<close>

theorem interaction_invariant:
  assumes "ui_reach s t" and "sc_dragging s = -1" and "sc_clicked s = -1"
    and "list_all slider_ok (sc_widgets s)"
  shows "interaction_ok t \<and> list_all2 same_widget (sc_widgets s) (sc_widgets t)"
  by (rule interaction_ok_reach [OF assms(1)]) (use assms in \<open>simp add: interaction_ok_def\<close>)

section \<open>A scene\<close>

definition slider_scene :: UiScene where
  "slider_scene = UiScene_new\<lparr>sc_widgets :=
     [UiWidget_new\<lparr>uw_kind := SliderWidget, uw_widget_id := 7, uw_current := 50\<rparr>]\<rparr>"

lemma slider_scene_ok: "list_all slider_ok (sc_widgets slider_scene)"
  by (simp add: slider_scene_def slider_ok_def UiWidget_new_def)

theorem interaction_invariant_witness:
  "interaction_ok (snd (on_ui_button_press 1 100 200 800 slider_scene)) \<and>
   sc_dragging (snd (on_ui_button_press 1 100 200 800 slider_scene)) = 7"
proof -
  have "ui_reach slider_scene (snd (on_ui_button_press 1 100 200 800 slider_scene))"
    by (rule ui_reach_step) (rule ui_step.press)
  then have "interaction_ok (snd (on_ui_button_press 1 100 200 800 slider_scene))"
    using interaction_invariant slider_scene_ok by (simp add: slider_scene_def UiScene_new_def)
  then show ?thesis
    by (simp add: on_ui_button_press_def slider_scene_def UiScene_new_def UiWidget_new_def
        card_layout_of_def in_card_def Let_def)
qed

end
