(* ===== verification/Binary_Ops.thy ===== *)
theory Binary_Ops
  imports Little_Endian World
begin

text \<open>
  The binary tools of \<open>include/nan_binary.h\<close> and their demonstrations in
  \<open>src/binary_ops.cpp\<close>: NOP stripping, bit swapping, run-length coding, patching, the
  hardware-key cipher, the Hamming code and the resource catalog. A \<open>size_t\<close> is a natural
  number, except where its wrap-around decides a bounds test (\<open>patch\<close>). The two loops that
  undo one another are interpretations of the locale \<open>codec\<close>.
\<close>

section \<open>Opcodes, NOPs, bits\<close>

datatype NanOpcode =
    NOP | HALT | SAY | LOAD | STORE | ADD | SUB | JMP | JZ | XOR_OP | OR_OP | AND_OP | SHL | SHR | CALL | RET

fun opcode_value :: "NanOpcode \<Rightarrow> byte" where
  "opcode_value NOP = 0x00" | "opcode_value HALT = 0x01" | "opcode_value SAY = 0x02"
| "opcode_value LOAD = 0x03" | "opcode_value STORE = 0x04" | "opcode_value ADD = 0x05"
| "opcode_value SUB = 0x06" | "opcode_value JMP = 0x07" | "opcode_value JZ = 0x08"
| "opcode_value XOR_OP = 0x09" | "opcode_value OR_OP = 0x0A" | "opcode_value AND_OP = 0x0B"
| "opcode_value SHL = 0x0C" | "opcode_value SHR = 0x0D" | "opcode_value CALL = 0x0E"
| "opcode_value RET = 0x0F"

fun strip_nops :: "byte list \<Rightarrow> byte list" where
  "strip_nops [] = []"
| "strip_nops (b # bs) = (if b \<noteq> opcode_value NOP then b # strip_nops bs else strip_nops bs)"

text \<open>The shifts are done in \<open>int\<close>; the result is cut to a byte.\<close>

definition bit_swap_xor :: "byte \<Rightarrow> byte \<Rightarrow> byte" where
  "bit_swap_xor a key =
     ucast ((ucast a :: u32) XOR ucast key XOR (push_bit 4 (ucast key) OR drop_bit 4 (ucast key)))"

section \<open>Run-length coding\<close>

text \<open>How far the run of \<open>val\<close> goes on: at most 254 more bytes.\<close>

fun run_more :: "byte \<Rightarrow> nat \<Rightarrow> byte list \<Rightarrow> nat" where
  "run_more val cnt [] = cnt"
| "run_more val cnt (b # bs) = (if b = val \<and> cnt < 255 then run_more val (cnt + 1) bs else cnt)"

lemma run_more_ge: "cnt \<le> run_more val cnt bs"
  by (induction val cnt bs rule: run_more.induct) auto

lemma run_more_pos [simp]: "0 < run_more val (Suc 0) bs"
  using run_more_ge [of "Suc 0" val bs] by simp

function rle_compress :: "byte list \<Rightarrow> byte list" where
  "rle_compress [] = []"
| "rle_compress (val # bs) =
     (let cnt = run_more val 1 bs
      in word_of_nat cnt # val # rle_compress (drop cnt (val # bs)))"
  by pat_completeness auto
termination
  by (relation "measure length") simp_all

fun rle_decompress :: "byte list \<Rightarrow> byte list" where
  "rle_decompress (cnt # val # rest) = replicate (unat cnt) val @ rle_decompress rest"
| "rle_decompress _ = []"

section \<open>Patching\<close>

definition BinaryPatcher_open :: "world \<Rightarrow> string \<Rightarrow> byte list \<times> world" where
  "BinaryPatcher_open w path =
     (case read_file w path of
        None \<Rightarrow> ([], cerr (''[PATCH] File not found: '' @ path @ [CHR 0x0A]) w)
      | Some bytes \<Rightarrow> (bytes, w))"

text \<open>
  The bounds test adds two \<open>size_t\<close>, so it wraps. \<open>None\<close> is the copy outside the image that
  then follows; otherwise the flag returned and the image.
\<close>

definition patch :: "byte list \<Rightarrow> u64 \<Rightarrow> byte list \<Rightarrow> (bool \<times> byte list) option" where
  "patch img off patch_bytes =
     (if word_of_nat (length img) < off + word_of_nat (length patch_bytes) then Some (False, img)
      else if unat off + length patch_bytes \<le> length img
      then Some (True, take (unat off) img @ patch_bytes @ drop (unat off + length patch_bytes) img)
      else None)"

text \<open>The search: \<open>i\<close> from 0 while \<open>i + needle.size() <= image.size()\<close>.\<close>

function find_from :: "byte list \<Rightarrow> nat \<Rightarrow> byte list \<Rightarrow> nat option" where
  "find_from needle i img =
     (if i + length needle \<le> length img then
        (if take (length needle) (drop i img) = needle then Some i else find_from needle (i + 1) img)
      else None)"
  by auto
termination by (relation "measure (\<lambda>(needle, i, img). length img + 1 - i)") auto

declare find_from.simps [simp del]

definition find_and_patch :: "byte list \<Rightarrow> byte list \<Rightarrow> byte list \<Rightarrow> (bool \<times> byte list) option" where
  "find_and_patch img needle replacement =
     (case find_from needle 0 img of
        Some i \<Rightarrow> patch img (word_of_nat i) replacement
      | None \<Rightarrow> Some (False, img))"

definition save :: "byte list \<Rightarrow> string \<Rightarrow> world \<Rightarrow> bool \<times> world" where
  "save img path w =
     (case write_file path img w of None \<Rightarrow> (False, w) | Some (good, w') \<Rightarrow> (good, w'))"

section \<open>Cipher and code\<close>

text \<open>The key's bytes in memory order.\<close>

definition hw_key_xor :: "byte list \<Rightarrow> u64 \<Rightarrow> byte list" where
  "hw_key_xor data cpu_id =
     (let key = le_u64 cpu_id in map (\<lambda>i. data ! i XOR key ! (i mod 8)) [0..<length data])"

definition hamming_encode :: "byte \<Rightarrow> byte" where
  "hamming_encode nibble =
     (let d1 = drop_bit 3 nibble AND 1; d2 = drop_bit 2 nibble AND 1;
          d3 = drop_bit 1 nibble AND 1; d4 = nibble AND 1;
          p1 = d1 XOR d2 XOR d4;
          p2 = d1 XOR d3 XOR d4;
          p3 = d2 XOR d3 XOR d4
      in push_bit 6 p1 OR push_bit 5 p2 OR push_bit 4 d1 OR
         push_bit 3 p3 OR push_bit 2 d2 OR push_bit 1 d3 OR d4)"

definition hamming_decode_correct :: "byte \<Rightarrow> byte" where
  "hamming_decode_correct code =
     (let p1 = drop_bit 6 code AND 1; p2 = drop_bit 5 code AND 1;
          d1 = drop_bit 4 code AND 1; p3 = drop_bit 3 code AND 1;
          d2 = drop_bit 2 code AND 1; d3 = drop_bit 1 code AND 1; d4 = code AND 1;
          s1 = p1 XOR d1 XOR d2 XOR d4;
          s2 = p2 XOR d1 XOR d3 XOR d4;
          s3 = p3 XOR d2 XOR d3 XOR d4;
          syndrome = push_bit 2 s1 OR push_bit 1 s2 OR s3;
          code = (if syndrome \<noteq> 0 then code XOR push_bit (7 - unat syndrome) 1 else code)
      in push_bit 3 (drop_bit 4 code AND 1) OR push_bit 2 (drop_bit 2 code AND 1) OR
         push_bit 1 (drop_bit 1 code AND 1) OR (code AND 1))"

section \<open>Embedded resources\<close>

record EmbeddedResource =
  er_name :: string
  er_data :: "byte list"

definition push16 :: "u16 \<Rightarrow> byte list \<Rightarrow> byte list" where
  "push16 v binary = binary @ [ucast (v AND 0xFF)] @ [ucast (drop_bit 8 v AND 0xFF)]"

definition push32 :: "u32 \<Rightarrow> byte list \<Rightarrow> byte list" where
  "push32 v binary = binary @ [ucast (v AND 0xFF)] @ [ucast (drop_bit 8 v AND 0xFF)] @
     [ucast (drop_bit 16 v AND 0xFF)] @ [ucast (drop_bit 24 v AND 0xFF)]"

definition embed_resource :: "EmbeddedResource \<Rightarrow> byte list \<Rightarrow> byte list" where
  "embed_resource r binary =
     push32 (word_of_nat (length (er_data r)))
       (push16 (word_of_nat (length (er_name r))) binary @ bytes_of (er_name r)) @ er_data r"

definition embed_resources :: "byte list \<Rightarrow> EmbeddedResource list \<Rightarrow> byte list" where
  "embed_resources binary resources =
     fold embed_resource resources (push32 (word_of_nat (length resources)) binary)"

section \<open>Demonstrations\<close>

definition hex_nat :: "nat \<Rightarrow> string" where
  "hex_nat n = (if n < 16 then [digit_char n]
                else (let hs = rev (map (\<lambda>k. digit_char (n div 16 ^ k mod 16)) [0..<16]) in dropWhile ((=) (CHR ''0'')) hs))"

definition run_obfuscation_demo :: "byte list \<Rightarrow> u64 \<Rightarrow> world \<Rightarrow> world option" where
  "run_obfuscation_demo data cpu_id w =
     (let enc = hw_key_xor data cpu_id; dec = hw_key_xor enc cpu_id in
      if data = [] then None
      else Some (cout (''[OBFUS] Original[0]='' @ nat_to_string (unat (data ! 0)) @
             '' Encrypted[0]='' @ nat_to_string (unat (enc ! 0)) @
             '' Decrypted[0]='' @ nat_to_string (unat (dec ! 0)) @
             (if dec = data then ''  [MATCH]'' else ''  [MISMATCH]'') @ [CHR 0x0A]) w))"

definition run_compression_demo :: "byte list \<Rightarrow> world \<Rightarrow> world" where
  "run_compression_demo data w =
     (let compressed = rle_compress data; decompressed = rle_decompress compressed
      in cout (''[COMPRESS] original='' @ nat_to_string (length data) @
            '' compressed='' @ nat_to_string (length compressed) @
            '' restored='' @ nat_to_string (length decompressed) @
            (if decompressed = data then '' [OK]'' else '' [FAIL]'') @ [CHR 0x0A]) w)"

definition run_selfheal_demo :: "byte \<Rightarrow> world \<Rightarrow> world" where
  "run_selfheal_demo nibble w =
     (let encoded = hamming_encode nibble;
          corrupted = encoded XOR 0x08;
          corrected = hamming_decode_correct corrupted
      in cout (''[HAMMING] nibble=0x'' @ hex_nat (unat nibble) @
            '' encoded=0x'' @ hex_nat (unat encoded) @
            '' corrupted=0x'' @ hex_nat (unat corrupted) @
            '' corrected=0x'' @ hex_nat (unat corrected) @
            (if corrected = nibble then '' [HEALED]'' else '' [FAIL]'') @ [CHR 0x0A]) w)"

definition run_binary_patch_demo :: "string \<Rightarrow> u64 \<Rightarrow> byte list \<Rightarrow> world \<Rightarrow> world option" where
  "run_binary_patch_demo path off patch_bytes w =
     (let (img, w) = BinaryPatcher_open w path in
      if img = [] then Some (cerr (''[PATCH] Empty image, aborting.'' @ [CHR 0x0A]) w)
      else case patch img off patch_bytes of
        None \<Rightarrow> None
      | Some (ok, img) \<Rightarrow>
          (let w = cout (''[PATCH] offset=0x'' @ hex_nat (unat off) @ '' status='' @
                      (if ok then ''OK'' else ''FAIL'') @ [CHR 0x0A]) w
           in Some (if ok
                    then (let out = path @ ''.patched''; w = snd (save img out w)
                          in cout (''[PATCH] Saved: '' @ out @ [CHR 0x0A]) w)
                    else w)))"

section \<open>Stripping and swapping\<close>

lemma strip_nops_filter: "strip_nops bs = filter (\<lambda>b. b \<noteq> 0) bs"
  by (induction bs) auto

lemma xor_cancel: "((a :: 'a::len word) XOR b) XOR b = a"
  by (rule bit_word_eqI) (auto simp: bit_xor_iff)

lemma bit_swap_xor_twice: "bit_swap_xor (bit_swap_xor a key) key = a"
  by (rule bit_word_eqI) (auto simp: bit_swap_xor_def bit_simps dest: bit_imp_le_length)

section \<open>Runs\<close>

lemma run_more_le: "cnt \<le> 255 \<Longrightarrow> run_more val cnt bs \<le> 255"
  by (induction val cnt bs rule: run_more.induct) auto

lemma run_more_take:
  "run_more val cnt bs - cnt \<le> length bs \<and>
   take (run_more val cnt bs - cnt) bs = replicate (run_more val cnt bs - cnt) val"
proof (induction val cnt bs rule: run_more.induct)
  case (2 val cnt b bs)
  show ?case
  proof (cases "b = val \<and> cnt < 255")
    case True
    have "run_more val cnt (b # bs) - cnt = Suc (run_more val (cnt + 1) bs - (cnt + 1))"
      using True run_more_ge [of "cnt + 1" val bs] by simp
    then show ?thesis using 2 True by simp
  qed auto
qed simp

lemma rle_roundtrip: "rle_decompress (rle_compress bs) = bs"
proof (induction bs rule: rle_compress.induct)
  case (2 val bs)
  define cnt where "cnt = run_more val (Suc 0) bs"
  have cnt: "1 \<le> cnt" "cnt \<le> 255" "take (cnt - 1) bs = replicate (cnt - 1) val"
    using run_more_ge [of 1 val bs] run_more_le [of 1 val bs] run_more_take [of val 1 bs] by (auto simp: cnt_def)
  have c: "cnt = Suc (cnt - 1)" using cnt(1) by simp
  have "take cnt (val # bs) = replicate cnt val"
    by (subst (1 2) c) (simp only: take_Suc_Cons cnt(3) replicate_Suc)
  then have "replicate cnt val @ drop cnt (val # bs) = val # bs"
    using append_take_drop_id [of cnt "val # bs"] by simp
  moreover have "unat (word_of_nat cnt :: byte) = cnt"
    using cnt(2) by (simp add: unat_of_nat take_bit_nat_eq_self)
  ultimately show ?case
    using 2 [OF refl] by (simp add: cnt_def [symmetric] Let_def)
qed simp

lemma length_rle: "length (rle_compress bs) \<le> 2 * length bs"
proof (induction bs rule: rle_compress.induct)
  case (2 val bs)
  have "1 \<le> run_more val 1 bs" by (rule run_more_ge)
  then have "length (drop (run_more val 1 bs) (val # bs)) \<le> length bs" by simp
  then show ?case using 2 [OF refl] by (simp add: Let_def)
qed simp

interpretation rle: codec rle_compress "\<lambda>b. Some (rle_decompress b)"
  by unfold_locales (simp add: rle_roundtrip)

section \<open>The key cipher\<close>

lemma hw_key_xor_twice: "hw_key_xor (hw_key_xor data k) k = data"
proof (rule nth_equalityI)
  fix i assume "i < length (hw_key_xor (hw_key_xor data k) k)"
  then show "hw_key_xor (hw_key_xor data k) k ! i = data ! i"
    by (simp add: hw_key_xor_def Let_def xor_cancel)
qed (simp add: hw_key_xor_def Let_def)

interpretation hw: codec "\<lambda>d. hw_key_xor d k" "\<lambda>d. Some (hw_key_xor d k)" for k
  by unfold_locales (simp add: hw_key_xor_twice)

section \<open>Searching\<close>

definition occurs_at :: "byte list \<Rightarrow> byte list \<Rightarrow> nat \<Rightarrow> bool" where
  "occurs_at needle img i \<longleftrightarrow> i + length needle \<le> length img \<and> take (length needle) (drop i img) = needle"

definition first_at :: "byte list \<Rightarrow> byte list \<Rightarrow> nat \<Rightarrow> bool" where
  "first_at needle img i \<longleftrightarrow> occurs_at needle img i \<and> (\<forall>j < i. \<not> occurs_at needle img j)"

lemma find_from_Some:
  "find_from needle i img = Some k \<Longrightarrow>
     occurs_at needle img k \<and> i \<le> k \<and> (\<forall>j. i \<le> j \<and> j < k \<longrightarrow> \<not> occurs_at needle img j)"
proof (induction needle i img rule: find_from.induct)
  case (1 needle i img)
  show ?case
  proof (cases "occurs_at needle img i")
    case True
    then show ?thesis using 1(2) by (subst (asm) find_from.simps) (auto simp: occurs_at_def)
  next
    case False
    then have f: "find_from needle (i + 1) img = Some k" and a: "i + length needle \<le> length img"
      "take (length needle) (drop i img) \<noteq> needle"
      using 1(2) by (subst (asm) find_from.simps; auto simp: occurs_at_def split: if_splits)+
    have "\<not> occurs_at needle img j" if "i \<le> j" "j < k" for j
      using 1(1) [OF a f] that False by (cases "j = i") auto
    then show ?thesis using 1(1) [OF a f] by auto
  qed
qed

lemma find_from_None:
  "find_from needle i img = None \<Longrightarrow> \<forall>j \<ge> i. \<not> occurs_at needle img j"
proof (induction needle i img rule: find_from.induct)
  case (1 needle i img)
  show ?case
  proof (cases "i + length needle \<le> length img")
    case True
    then have n: "take (length needle) (drop i img) \<noteq> needle" "find_from needle (i + 1) img = None"
      using 1(2) by (subst (asm) find_from.simps; auto split: if_splits)+
    have "\<not> occurs_at needle img j" if "i \<le> j" for j
      using 1(1) [OF True n] that n(1) by (cases "j = i") (auto simp: occurs_at_def)
    then show ?thesis by blast
  qed (auto simp: occurs_at_def)
qed

lemma patch_inside:
  assumes "length img < 2 ^ 63" "i + length bs \<le> length img"
  shows "patch img (word_of_nat i) bs = Some (True, take i img @ bs @ drop (i + length bs) img)"
proof -
  have u: "unat (word_of_nat k :: u64) = k" if "k < 2 ^ 64" for k
    using that by (simp add: unat_of_nat take_bit_nat_eq_self)
  have "unat (word_of_nat (i + length bs) :: u64) = i + length bs" "unat (word_of_nat (length img) :: u64) = length img"
    "unat (word_of_nat i :: u64) = i"
    using assms by (intro u; simp)+
  then have "\<not> (word_of_nat (length img) :: u64) < word_of_nat (i + length bs)"
    using assms(2) by (simp add: word_less_nat_alt)
  then show ?thesis
    using assms \<open>unat (word_of_nat i :: u64) = i\<close> by (simp add: patch_def)
qed

lemma patch_outside:
  assumes "length img < 2 ^ 63" "length bs < 2 ^ 63" "unat off + length bs < 2 ^ 64"
    and "length img < unat off + length bs"
  shows "patch img off bs = Some (False, img)"
proof -
  have "unat (off + word_of_nat (length bs)) = unat off + length bs"
  proof -
    have "unat (word_of_nat (length bs) :: u64) = length bs"
      using assms(2) by (simp add: unat_of_nat take_bit_nat_eq_self)
    then show ?thesis using assms(3) by (subst unat_plus_simple [THEN iffD1]) (simp_all add: no_olen_add_nat)
  qed
  moreover have "unat (word_of_nat (length img) :: u64) = length img"
    using assms(1) by (simp add: unat_of_nat take_bit_nat_eq_self)
  ultimately show ?thesis using assms(4) by (simp add: patch_def word_less_nat_alt)
qed

section \<open>The Hamming code\<close>

text \<open>Every nibble survives, and of the seven bits exactly 1 and 4 are not corrected.\<close>

definition hamming_ok :: "byte \<Rightarrow> bool" where
  "hamming_ok n \<longleftrightarrow> hamming_decode_correct (hamming_encode n) = n \<and>
   (\<forall>k < 7. (hamming_decode_correct (hamming_encode n XOR push_bit k 1) = n) = (k \<noteq> 1 \<and> k \<noteq> 4))"

lemma all_below_7: "(\<forall>k < (7::nat). P k) \<longleftrightarrow> P 0 \<and> P 1 \<and> P 2 \<and> P 3 \<and> P 4 \<and> P 5 \<and> P 6"
proof -
  have "(\<forall>k < (7::nat). P k) \<longleftrightarrow> (\<forall>k \<in> set [0..<7]. P k)" by auto
  then show ?thesis by (simp add: upt_rec numeral_eq_Suc)
qed

lemma hamming_table:
  "hamming_ok 0" "hamming_ok 1" "hamming_ok 2" "hamming_ok 3" "hamming_ok 4" "hamming_ok 5"
  "hamming_ok 6" "hamming_ok 7" "hamming_ok 8" "hamming_ok 9" "hamming_ok 10" "hamming_ok 11"
  "hamming_ok 12" "hamming_ok 13" "hamming_ok 14" "hamming_ok 15"
  by (simp_all add: hamming_ok_def all_below_7 hamming_encode_def hamming_decode_correct_def)

lemma nibble_cases:
  assumes "n < (16 :: byte)"
  shows "n \<in> {0, 1, 2, 3, 4, 5, 6, 7, 8, 9, 10, 11, 12, 13, 14, 15}"
proof -
  have "unat n \<in> set [0..<16]" using assms by (simp add: word_less_nat_alt)
  then have "(word_of_nat (unat n) :: byte) \<in> word_of_nat ` set [0..<16]" by (rule imageI)
  then have "n \<in> word_of_nat ` set [0..<16]" by simp
  then show ?thesis by (simp add: upt_rec)
qed

lemma hamming_nibble: "n < 16 \<Longrightarrow> hamming_ok n"
  using nibble_cases [of n] hamming_table by auto

lemma one_bit: "drop_bit k (x :: byte) AND 1 = of_bool (bit x k)"
  by (simp add: and_one_eq mod_2_eq_odd bit_iff_odd_drop_bit)

lemma packed_nibble:
  "push_bit 3 (of_bool a) OR push_bit 2 (of_bool b) OR push_bit 1 (of_bool c) OR of_bool d < (16 :: byte)"
  by (cases a; cases b; cases c; cases d) simp_all

lemma hamming_above: "hamming_decode_correct c < 16"
  unfolding hamming_decode_correct_def Let_def one_bit one_bit [of 0, simplified drop_bit_0 id_apply]
  by (rule packed_nibble)

section \<open>The resource catalog\<close>

text \<open>
  The reader of the format the source documents: \<open>[count:4][name_len:2][name][data_len:4][data]\<dots>\<close>.
\<close>

definition read_resource :: "byte list \<Rightarrow> (EmbeddedResource \<times> byte list) option" where
  "read_resource bs =
     (if length bs < 2 then None
      else let n = unat (le16 bs); bs1 = drop 2 bs; bs2 = drop n bs1 in
        if length bs1 < n + 4 then None
        else let d = unat (le32 bs2); bs3 = drop 4 bs2 in
          if length bs3 < d then None
          else Some (\<lparr>er_name = string_of (take n bs1), er_data = take d bs3\<rparr>, drop d bs3))"

fun read_resources :: "nat \<Rightarrow> byte list \<Rightarrow> EmbeddedResource list option" where
  "read_resources 0 bs = Some []"
| "read_resources (Suc n) bs =
     (case read_resource bs of None \<Rightarrow> None
      | Some (r, rest) \<Rightarrow> map_option ((#) r) (read_resources n rest))"

definition read_catalog :: "byte list \<Rightarrow> EmbeddedResource list option" where
  "read_catalog bs = (if length bs < 4 then None else read_resources (unat (le32 bs)) (drop 4 bs))"

lemma push16_le: "push16 v bs = bs @ le_u16 v"
  by (simp add: push16_def le_u16_def bytes_simps)

lemma push32_le: "push32 v bs = bs @ le_u32 v"
  by (simp add: push32_def le_u32_def bytes_simps)

definition resource_image :: "EmbeddedResource \<Rightarrow> byte list" where
  "resource_image r = le_u16 (word_of_nat (length (er_name r))) @ bytes_of (er_name r) @
     le_u32 (word_of_nat (length (er_data r))) @ er_data r"

lemma embed_resource_image: "embed_resource r bs = bs @ resource_image r"
  by (simp add: embed_resource_def push16_le push32_le resource_image_def)

lemma fold_embed: "fold embed_resource rs bs = bs @ concat (map resource_image rs)"
  by (induction rs arbitrary: bs) (simp_all add: embed_resource_image)

definition resource_fits :: "EmbeddedResource \<Rightarrow> bool" where
  "resource_fits r \<longleftrightarrow> length (er_name r) < 2 ^ 16 \<and> length (er_data r) < 2 ^ 32"

lemma read_resource_image:
  assumes "resource_fits r"
  shows "read_resource (resource_image r @ rest) = Some (r, rest)"
proof -
  have "unat (word_of_nat (length (er_name r)) :: u16) = length (er_name r)"
    "unat (word_of_nat (length (er_data r)) :: u32) = length (er_data r)"
    using assms by (simp_all add: resource_fits_def unat_of_nat take_bit_nat_eq_self)
  then show ?thesis
    by (cases r) (simp add: read_resource_def resource_image_def Let_def bytes_simps del: map_map)
qed

lemma read_resources_image:
  "\<forall>r \<in> set rs. resource_fits r \<Longrightarrow>
   read_resources (length rs) (concat (map resource_image rs) @ rest) = Some rs"
  by (induction rs) (simp_all add: read_resource_image)

lemma read_catalog_embed:
  assumes "\<forall>r \<in> set rs. resource_fits r" "length rs < 2 ^ 32"
  shows "embed_resources binary rs = binary @ drop (length binary) (embed_resources binary rs)"
    and "read_catalog (drop (length binary) (embed_resources binary rs)) = Some rs"
proof -
  have e: "embed_resources binary rs =
      binary @ le_u32 (word_of_nat (length rs)) @ concat (map resource_image rs)"
    by (simp add: embed_resources_def push32_le fold_embed)
  have n: "unat (word_of_nat (length rs) :: u32) = length rs"
    using assms(2) by (simp add: unat_of_nat take_bit_nat_eq_self)
  show "embed_resources binary rs = binary @ drop (length binary) (embed_resources binary rs)"
    by (simp add: e)
  show "read_catalog (drop (length binary) (embed_resources binary rs)) = Some rs"
    using read_resources_image [OF assms(1), of "[]"] by (simp add: e read_catalog_def n)
qed

section \<open>Properties\<close>

text \<open>
  Run-length coding loses nothing: decompressing a compressed vector gives it back, the
  compressed form has at most twice as many bytes, and the compression demonstration therefore
  always reports success.
\<close>

theorem rle_codec:
  "rle_decompress (rle_compress data) = data \<and> length (rle_compress data) \<le> 2 * length data \<and>
   run_compression_demo data w =
     cout (''[COMPRESS] original='' @ nat_to_string (length data) @
           '' compressed='' @ nat_to_string (length (rle_compress data)) @
           '' restored='' @ nat_to_string (length data) @ '' [OK]'' @ [CHR 0x0A]) w"
  by (simp add: rle.dec_enc [simplified] length_rle run_compression_demo_def Let_def)

text \<open>
  The hardware-key cipher and the bit swap are their own inverses and the cipher keeps the
  length, so the obfuscation demonstration always reports a match; on an empty vector it reads
  outside the vector.
\<close>

theorem obfuscation_involutive:
  "hw_key_xor (hw_key_xor data k) k = data \<and> length (hw_key_xor data k) = length data \<and>
   bit_swap_xor (bit_swap_xor a key) key = a \<and>
   run_obfuscation_demo data k w =
     (if data = [] then None
      else Some (cout (''[OBFUS] Original[0]='' @ nat_to_string (unat (data ! 0)) @
             '' Encrypted[0]='' @ nat_to_string (unat (hw_key_xor data k ! 0)) @
             '' Decrypted[0]='' @ nat_to_string (unat (data ! 0)) @ ''  [MATCH]'' @ [CHR 0x0A]) w))"
  using hw.dec_enc [of data k] bit_swap_xor_twice
  by (simp add: run_obfuscation_demo_def Let_def) (simp add: hw_key_xor_def)

text \<open>
  C34. The Hamming code restores a nibble from its code word and from the code word with one
  flipped bit in five of the seven positions; a flip of bit 1 or bit 4, the positions of two
  data bits, is always decoded to another nibble.
\<close>

theorem hamming_corrects_five_bits:
  assumes "nibble < 16" and "k < 7"
  shows "hamming_decode_correct (hamming_encode nibble) = nibble \<and>
         (hamming_decode_correct (hamming_encode nibble XOR push_bit k 1) = nibble \<longleftrightarrow> k \<noteq> 1 \<and> k \<noteq> 4)"
  using hamming_nibble [OF assms(1)] assms(2) by (simp_all add: hamming_ok_def)

lemma hamming_corrects_five_bits_witness:
  "hamming_decode_correct (hamming_encode 5) = 5 \<and>
   hamming_decode_correct (hamming_encode 5 XOR push_bit 4 1) \<noteq> 5"
  using hamming_corrects_five_bits [of 5 4] by simp

text \<open>
  The self-healing demonstration, which flips bit 3, reports success exactly for the values
  that are nibbles.
\<close>

theorem selfheal_demo_nibbles:
  "run_selfheal_demo b w =
     cout (''[HAMMING] nibble=0x'' @ hex_nat (unat b) @
           '' encoded=0x'' @ hex_nat (unat (hamming_encode b)) @
           '' corrupted=0x'' @ hex_nat (unat (hamming_encode b XOR 8)) @
           '' corrected=0x'' @ hex_nat (unat (hamming_decode_correct (hamming_encode b XOR 8))) @
           (if b < 16 then '' [HEALED]'' else '' [FAIL]'') @ [CHR 0x0A]) w"
proof -
  have "hamming_decode_correct (hamming_encode b XOR push_bit 3 1) = b" if "b < 16"
    using hamming_nibble [OF that] by (simp add: hamming_ok_def del: push_bit_of_1)
  then have "hamming_decode_correct (hamming_encode b XOR 8) = b \<longleftrightarrow> b < 16"
    using hamming_above [of "hamming_encode b XOR 8"] by auto
  then show ?thesis by (simp add: run_selfheal_demo_def Let_def)
qed

text \<open>
  Searching and patching replaces the first occurrence of the needle if the replacement
  fits there, and otherwise reports failure with the image unchanged; it never writes outside
  the image.
\<close>

theorem find_and_patch_first:
  assumes "length img < 2 ^ 63" and "length replacement < 2 ^ 63"
  shows "(\<forall>i. first_at needle img i \<longrightarrow>
            find_and_patch img needle replacement =
              (if i + length replacement \<le> length img
               then Some (True, take i img @ replacement @ drop (i + length replacement) img)
               else Some (False, img)))
       \<and> ((\<forall>i. \<not> first_at needle img i) \<longrightarrow> find_and_patch img needle replacement = Some (False, img))"
proof (cases "find_from needle 0 img")
  case None
  then show ?thesis
    using find_from_None [OF None] by (auto simp: first_at_def find_and_patch_def)
next
  case (Some k)
  then have k: "first_at needle img k" "k \<le> length img"
    using find_from_Some [OF Some] by (auto simp: first_at_def occurs_at_def)
  have u: "i = k" if "first_at needle img i" for i
    using k that by (metis first_at_def linorder_neqE_nat)
  have n: "unat (word_of_nat k :: u64) = k"
    using k(2) assms(1) by (simp add: unat_of_nat take_bit_nat_eq_self)
  have "find_and_patch img needle replacement =
      (if k + length replacement \<le> length img
       then Some (True, take k img @ replacement @ drop (k + length replacement) img) else Some (False, img))"
    using Some patch_inside [OF assms(1), of k replacement]
      patch_outside [OF assms, of "word_of_nat k"] k(2) assms n
    by (auto simp: find_and_patch_def)
  then show ?thesis using k(1) u by blast
qed

lemma find_and_patch_first_witness:
  "find_and_patch [1, 2, 3, 2, 3] [2, 3] [9, 9] = Some (True, [1, 9, 9, 2, 3])"
proof -
  have "first_at [2, 3] [1, 2, 3, 2, 3] 1" by (simp add: first_at_def occurs_at_def)
  then show ?thesis
    using find_and_patch_first [of "[1, 2, 3, 2, 3]" "[9, 9]" "[2, 3]"] by fastforce
qed

text \<open>
  C35. The bounds test of a patch adds offset and length modulo \<open>2 ^ 64\<close>: an offset that close
  to the end of the address space passes the test, and the copy writes outside the image.
\<close>

theorem patch_bounds_wrap:
  assumes "patch_bytes \<noteq> []" and "length patch_bytes < 2 ^ 64" and "length img < 2 ^ 64"
  shows "patch img (- word_of_nat (length patch_bytes)) patch_bytes = None"
proof -
  have "- word_of_nat (length patch_bytes) = (word_of_nat (2 ^ 64 - length patch_bytes) :: u64)"
    using assms(2) by (simp add: of_nat_diff del: power_numeral)
  moreover have "unat (word_of_nat (2 ^ 64 - length patch_bytes) :: u64) = 2 ^ 64 - length patch_bytes"
    using assms(1) by (simp add: unat_of_nat take_bit_nat_eq_self)
  ultimately have "unat (- word_of_nat (length patch_bytes) :: u64) + length patch_bytes = 2 ^ 64"
    using assms(2) by (simp only: le_add_diff_inverse2 less_imp_le)
  then show ?thesis using assms(3) by (simp add: patch_def)
qed

lemma patch_bounds_wrap_witness: "patch [1, 2, 3] (- 1) [7] = None"
  using patch_bounds_wrap [of "[7]" "[1, 2, 3]"] by simp

text \<open>
  Embedding resources leaves the binary in front untouched and appends a catalog from which
  the documented format reads back exactly the resources, in order, when the names, the data
  and their number fit the width of their length fields.
\<close>

theorem embed_resources_readable:
  assumes "\<forall>r \<in> set resources. length (er_name r) < 2 ^ 16 \<and> length (er_data r) < 2 ^ 32"
    and "length resources < 2 ^ 32"
  shows "\<exists>catalog. embed_resources binary resources = binary @ catalog \<and> read_catalog catalog = Some resources"
  using read_catalog_embed [of resources binary] assms by (auto simp: resource_fits_def)

lemma embed_resources_readable_witness:
  "\<exists>catalog. embed_resources [0x90] [\<lparr>er_name = ''a'', er_data = [1, 2]\<rparr>] = [0x90] @ catalog \<and>
     read_catalog catalog = Some [\<lparr>er_name = ''a'', er_data = [1, 2]\<rparr>]"
  by (rule embed_resources_readable) simp_all

end
