(* ===== verification/Ring_Buffers.thy ===== *)
theory Ring_Buffers
  imports World
begin

text \<open>
  The two ring buffers of the program: \<open>SignalBuffer\<close> (\<open>include/nan_pulse.h\<close>, 512 bytes) and
  \<open>WaitFreeQueue<T, N>\<close> (\<open>include/nan_perf.h\<close>, \<open>N\<close> a power of two), with their
  demonstrations in \<open>src/pulse_emitter.cpp\<close> and \<open>src/perf_ops.cpp\<close>. The locale
  \<open>bounded_fifo\<close> is the contract of a bounded first-in first-out queue, \<open>drained_fifo\<close> adds
  the loop that pops until nothing is left; both rings interpret them. Indices are natural
  numbers; where the code subtracts two \<open>size_t\<close> the wrap-around modulo \<open>2 ^ 64\<close> is
  written out. The concurrent use of the wait-free queue is the step relation of the theory
  \<open>Wait_Free\<close>.
\<close>

section \<open>The contract\<close>

text \<open>The loop of the demonstrations: push everything, count what was taken.\<close>

fun push_count :: "('a \<Rightarrow> 's \<Rightarrow> bool \<times> 's) \<Rightarrow> 'a list \<Rightarrow> 's \<Rightarrow> nat \<Rightarrow> 's \<times> nat" where
  "push_count push [] s n = (s, n)"
| "push_count push (v # vs) s n =
     (case push v s of (ok, s') \<Rightarrow> push_count push vs s' (if ok then n + 1 else n))"

text \<open>A client's sequence of calls and what it sees.\<close>

datatype 'a fifo_op = Push 'a | Pop
datatype 'a fifo_reply = Pushed bool | Popped "'a option"

fun run_ops :: "('a \<Rightarrow> 's \<Rightarrow> bool \<times> 's) \<Rightarrow> ('s \<Rightarrow> ('a \<times> 's) option) \<Rightarrow> 'a fifo_op list \<Rightarrow> 's \<Rightarrow>
    'a fifo_reply list \<times> 's" where
  "run_ops push pop [] s = ([], s)"
| "run_ops push pop (Push v # ops) s =
     (case push v s of (ok, s') \<Rightarrow> apfst ((#) (Pushed ok)) (run_ops push pop ops s'))"
| "run_ops push pop (Pop # ops) s =
     (case pop s of None \<Rightarrow> apfst ((#) (Popped None)) (run_ops push pop ops s)
      | Some (v, s') \<Rightarrow> apfst ((#) (Popped (Some v))) (run_ops push pop ops s'))"

text \<open>The specification: a list that holds at most \<open>cap\<close> elements.\<close>

definition list_push :: "nat \<Rightarrow> 'a \<Rightarrow> 'a list \<Rightarrow> bool \<times> 'a list" where
  "list_push cap v q = (if length q < cap then (True, q @ [v]) else (False, q))"

lemma list_push_cases:
  "length q < cap \<Longrightarrow> list_push cap v q = (True, q @ [v])"
  "\<not> length q < cap \<Longrightarrow> list_push cap v q = (False, q)"
  by (simp_all add: list_push_def)

fun list_pop :: "'a list \<Rightarrow> ('a \<times> 'a list) option" where
  "list_pop [] = None"
| "list_pop (v # q) = Some (v, q)"

locale bounded_fifo =
  fixes good :: "'s \<Rightarrow> bool" and contents :: "'s \<Rightarrow> 'a list" and cap :: nat and start :: 's
    and push :: "'a \<Rightarrow> 's \<Rightarrow> bool \<times> 's" and pop :: "'s \<Rightarrow> ('a \<times> 's) option"
  assumes start_good: "good start" and start_contents: "contents start = []"
    and bounded: "good s \<Longrightarrow> length (contents s) \<le> cap"
    and push_full: "good s \<Longrightarrow> length (contents s) = cap \<Longrightarrow> push v s = (False, s)"
    and push_room: "good s \<Longrightarrow> length (contents s) < cap \<Longrightarrow>
      \<exists>s'. push v s = (True, s') \<and> good s' \<and> contents s' = contents s @ [v]"
    and pop_empty: "good s \<Longrightarrow> contents s = [] \<Longrightarrow> pop s = None"
    and pop_first: "good s \<Longrightarrow> contents s = v # vs \<Longrightarrow>
      \<exists>s'. pop s = Some (v, s') \<and> good s' \<and> contents s' = vs"
begin

lemma push_count_full:
  "good s \<Longrightarrow> length (contents s) = cap \<Longrightarrow> push_count push vs s n = (s, n)"
  by (induction vs) (simp_all add: push_full)

lemma push_count_contents:
  "good s \<Longrightarrow>
   \<exists>s'. push_count push vs s n = (s', n + min (length vs) (cap - length (contents s))) \<and> good s' \<and>
        contents s' = contents s @ take (cap - length (contents s)) vs"
proof (induction vs arbitrary: s n)
  case (Cons v vs)
  show ?case
  proof (cases "length (contents s) = cap")
    case True
    then show ?thesis using Cons.prems push_count_full [of s "v # vs" n] by auto
  next
    case False
    then have l: "length (contents s) < cap" using bounded Cons.prems by (simp add: le_neq_implies_less)
    then obtain s' where s': "push v s = (True, s')" "good s'" "contents s' = contents s @ [v]"
      using push_room Cons.prems by blast
    obtain k where k: "cap - length (contents s) = Suc k" using l by (metis Suc_diff_Suc)
    then have "cap - length (contents s') = k" using s'(3) by simp
    then show ?thesis using Cons.IH [OF s'(2), of "n + 1"] s' k by auto
  qed
qed auto

lemma push_count_start:
  "\<exists>s'. push_count push vs start 0 = (s', min (length vs) cap) \<and> good s' \<and> contents s' = take cap vs"
  using push_count_contents [OF start_good, of vs 0] start_contents by simp

lemma run_ops_refines:
  "good s \<Longrightarrow>
   apsnd contents (run_ops push pop ops s) = run_ops (list_push cap) list_pop ops (contents s)"
proof (induction ops arbitrary: s)
  case (Cons op ops)
  show ?case
  proof (cases op)
    case (Push v)
    show ?thesis
    proof (cases "length (contents s) = cap")
      case True
      then show ?thesis using Cons by (simp add: Push push_full list_push_cases prod_eq_iff)
    next
      case False
      then have l: "length (contents s) < cap" using bounded Cons.prems by (simp add: le_neq_implies_less)
      then obtain s' where "push v s = (True, s')" "good s'" "contents s' = contents s @ [v]"
        using push_room [OF Cons.prems l, of v] by blast
      then show ?thesis
        using l Cons.IH [of s', symmetric] by (simp add: Push list_push_cases apsnd_def apfst_def map_prod_def split: prod.splits)
    qed
  next
    case Pop
    show ?thesis
    proof (cases "contents s")
      case Nil
      then show ?thesis using Cons by (simp add: Pop pop_empty prod_eq_iff)
    next
      case c: (Cons v vs)
      then show ?thesis
        using pop_first [OF Cons.prems c] Cons.IH by (auto simp: Pop prod_eq_iff)
    qed
  qed
qed simp

lemma replies: "fst (run_ops push pop ops start) = fst (run_ops (list_push cap) list_pop ops [])"
  using run_ops_refines [OF start_good, of ops] by (simp add: prod_eq_iff start_contents)

end

locale drained_fifo = bounded_fifo good contents cap start push pop
  for good :: "'s \<Rightarrow> bool" and contents :: "'s \<Rightarrow> 'a list" and cap :: nat and start :: 's
    and push :: "'a \<Rightarrow> 's \<Rightarrow> bool \<times> 's" and pop :: "'s \<Rightarrow> ('a \<times> 's) option" +
  fixes drain :: "'s \<Rightarrow> nat \<Rightarrow> ('s \<times> nat) option"
  assumes drain_pop: "drain s n = (case pop s of None \<Rightarrow> Some (s, n) | Some (v, s') \<Rightarrow> drain s' (n + 1))"
begin

lemma drain_all:
  "good s \<Longrightarrow> \<exists>s'. drain s n = Some (s', n + length (contents s)) \<and> good s' \<and> contents s' = []"
proof (induction "contents s" arbitrary: s n)
  case Nil
  then show ?case by (simp add: drain_pop pop_empty)
next
  case (Cons v vs)
  obtain s' where s': "pop s = Some (v, s')" "good s'" "contents s' = vs"
    using pop_first [OF Cons.prems] Cons.hyps(2) by (metis sym)
  have "length (contents s) = Suc (length vs)" by (simp flip: Cons.hyps(2))
  then show ?case
    using Cons.hyps(1) [of s' "n + 1"] s' by (simp add: drain_pop [of s n])
qed

end

section \<open>Ring arithmetic\<close>

definition ring_len :: "nat \<Rightarrow> nat \<Rightarrow> nat \<Rightarrow> nat" where
  "ring_len n h t = (if h \<le> t then t - h else t + n - h)"

definition ring_contents :: "nat \<Rightarrow> 'a list \<Rightarrow> nat \<Rightarrow> nat \<Rightarrow> 'a list" where
  "ring_contents n buf h t = map (\<lambda>k. buf ! ((h + k) mod n)) [0..<ring_len n h t]"

definition ring_ok :: "nat \<Rightarrow> 'a list \<Rightarrow> nat \<Rightarrow> nat \<Rightarrow> bool" where
  "ring_ok n buf h t \<longleftrightarrow> length buf = n \<and> h < n \<and> t < n"

lemma add_mod_if: "a < n \<Longrightarrow> k < n \<Longrightarrow> (a + k) mod n = (if a + k < n then a + k else a + k - n)" for n :: nat
  by (simp add: mod_if)

lemma succ_mod_if: "a < n \<Longrightarrow> (a + 1) mod n = (if a + 1 = n then 0 else a + 1)" "a < n \<Longrightarrow> Suc a mod n = (if Suc a = n then 0 else Suc a)" for n :: nat
  by (simp_all add: mod_if)

lemma length_ring_contents [simp]: "length (ring_contents n buf h t) = ring_len n h t"
  by (simp add: ring_contents_def)

lemma ring_len_bound: "h < n \<Longrightarrow> t < n \<Longrightarrow> ring_len n h t \<le> n - 1"
  by (auto simp: ring_len_def)

lemma ring_len_full: "h < n \<Longrightarrow> t < n \<Longrightarrow> ring_len n h t = n - 1 \<longleftrightarrow> (t + 1) mod n = h"
  by (auto simp: succ_mod_if ring_len_def)

lemma ring_contents_empty: "h < n \<Longrightarrow> t < n \<Longrightarrow> ring_contents n buf h t = [] \<longleftrightarrow> h = t"
  by (auto simp: ring_contents_def ring_len_def)

lemma ring_index_other:
  assumes "h < n" "t < n" "k < ring_len n h t"
  shows "(h + k) mod n \<noteq> t"
  using assms by (subst add_mod_if) (auto simp: ring_len_def split: if_splits)

lemma ring_contents_write:
  assumes "h < n" "t < n"
  shows "ring_contents n (buf[t := v]) h t = ring_contents n buf h t"
  unfolding ring_contents_def
proof (rule map_cong [OF refl])
  fix k assume "k \<in> set [0..<ring_len n h t]"
  then show "buf[t := v] ! ((h + k) mod n) = buf ! ((h + k) mod n)"
    using ring_index_other [OF assms, of k] by (intro nth_list_update_neq) auto
qed

lemma ring_contents_push:
  assumes ok: "ring_ok n buf h t" and room: "(t + 1) mod n \<noteq> h"
  shows "ring_contents n (buf[t := v]) h ((t + 1) mod n) = ring_contents n buf h t @ [v]"
proof -
  have b: "h < n" "t < n" "length buf = n" using ok by (auto simp: ring_ok_def)
  have l: "ring_len n h ((t + 1) mod n) = Suc (ring_len n h t)"
    using b room by (auto simp: succ_mod_if ring_len_def split: if_splits)
  have i: "(h + ring_len n h t) mod n = t"
    using b ring_len_bound [OF b(1,2)] by (subst add_mod_if) (auto simp: ring_len_def)
  have "ring_contents n (buf[t := v]) h ((t + 1) mod n) = ring_contents n (buf[t := v]) h t @ [v]"
    unfolding ring_contents_def l using b i by simp
  then show ?thesis by (simp add: ring_contents_write [OF b(1,2)])
qed

lemma ring_contents_pop:
  assumes "h < n" "t < n" "h \<noteq> t"
  shows "ring_contents n buf h t = buf ! h # ring_contents n buf ((h + 1) mod n) t"
proof -
  have l: "ring_len n h t = Suc (ring_len n ((h + 1) mod n) t)"
    using assms by (auto simp: succ_mod_if ring_len_def split: if_splits)
  have "map (\<lambda>k. buf ! ((h + k) mod n)) [0..<ring_len n h t] =
      buf ! h # map (\<lambda>k. buf ! ((h + Suc k) mod n)) [0..<ring_len n ((h + 1) mod n) t]"
    unfolding l using assms(1) by (simp add: upt_conv_Cons map_Suc_upt [symmetric] comp_def del: upt_Suc)
  also have "\<dots> = buf ! h # ring_contents n buf ((h + 1) mod n) t"
    by (simp add: ring_contents_def mod_simps)
  finally show ?thesis by (simp add: ring_contents_def)
qed

section \<open>SignalBuffer\<close>

record SignalBuffer =
  sb_data :: "byte list"
  sb_head :: nat
  sb_tail :: nat

definition SignalBuffer_new :: SignalBuffer where
  "SignalBuffer_new = \<lparr>sb_data = replicate 512 0, sb_head = 0, sb_tail = 0\<rparr>"

definition SignalBuffer_push :: "byte \<Rightarrow> SignalBuffer \<Rightarrow> bool \<times> SignalBuffer" where
  "SignalBuffer_push v b =
     (if (sb_tail b + 1) mod 512 = sb_head b then (False, b)
      else (True, b\<lparr>sb_data := (sb_data b)[sb_tail b := v], sb_tail := (sb_tail b + 1) mod 512\<rparr>))"

definition SignalBuffer_pop :: "SignalBuffer \<Rightarrow> (byte \<times> SignalBuffer) option" where
  "SignalBuffer_pop b =
     (if sb_head b = sb_tail b then None
      else Some (sb_data b ! sb_head b, b\<lparr>sb_head := (sb_head b + 1) mod 512\<rparr>))"

definition SignalBuffer_empty :: "SignalBuffer \<Rightarrow> bool" where
  "SignalBuffer_empty b \<longleftrightarrow> sb_head b = sb_tail b"

definition SignalBuffer_size :: "SignalBuffer \<Rightarrow> nat" where
  "SignalBuffer_size b = ((sb_tail b + 2 ^ 64 - sb_head b) mod 2 ^ 64 + 512) mod 2 ^ 64 mod 512"

partial_function (option) SignalBuffer_drain :: "SignalBuffer \<Rightarrow> nat \<Rightarrow> (SignalBuffer \<times> nat) option" where
  "SignalBuffer_drain b popped =
     (case SignalBuffer_pop b of None \<Rightarrow> Some (b, popped) | Some (v, b') \<Rightarrow> SignalBuffer_drain b' (popped + 1))"

definition bool_digit :: "bool \<Rightarrow> string" where
  "bool_digit b = (if b then ''1'' else ''0'')"

definition run_signal_buffer_demo :: "int \<Rightarrow> world \<Rightarrow> world option" where
  "run_signal_buffer_demo items w =
     (let (buf, pushed) = push_count SignalBuffer_push
            (map (\<lambda>i. word_of_nat i AND 0xFF) [0..<nat items]) SignalBuffer_new 0;
          w = cout (''[SIGBUF] Pushed='' @ nat_to_string pushed @ '' size='' @
                nat_to_string (SignalBuffer_size buf) @ [CHR 0x0A]) w
      in case SignalBuffer_drain buf 0 of
           None \<Rightarrow> None
         | Some (buf, popped) \<Rightarrow>
             Some (cout (''[SIGBUF] Popped='' @ nat_to_string popped @ '' empty='' @
                 bool_digit (SignalBuffer_empty buf) @ [CHR 0x0A]) w))"

section \<open>WaitFreeQueue\<close>

text \<open>\<open>n\<close> is the template parameter \<open>N\<close>, \<open>z\<close> the value-initialised element.\<close>

record 'a WaitFreeQueue =
  wq_head :: nat
  wq_tail :: nat
  wq_buffer :: "'a list"

definition WaitFreeQueue_new :: "nat \<Rightarrow> 'a \<Rightarrow> 'a WaitFreeQueue" where
  "WaitFreeQueue_new n z = \<lparr>wq_head = 0, wq_tail = 0, wq_buffer = replicate n z\<rparr>"

definition WaitFreeQueue_push :: "nat \<Rightarrow> 'a \<Rightarrow> 'a WaitFreeQueue \<Rightarrow> bool \<times> 'a WaitFreeQueue" where
  "WaitFreeQueue_push n val q =
     (let t = wq_tail q; nxt = (t + 1) AND (n - 1)
      in if nxt = wq_head q then (False, q)
         else (True, q\<lparr>wq_buffer := (wq_buffer q)[t := val], wq_tail := nxt\<rparr>))"

definition WaitFreeQueue_pop :: "nat \<Rightarrow> 'a WaitFreeQueue \<Rightarrow> ('a \<times> 'a WaitFreeQueue) option" where
  "WaitFreeQueue_pop n q =
     (let h = wq_head q
      in if h = wq_tail q then None
         else Some (wq_buffer q ! h, q\<lparr>wq_head := (h + 1) AND (n - 1)\<rparr>))"

definition WaitFreeQueue_empty :: "'a WaitFreeQueue \<Rightarrow> bool" where
  "WaitFreeQueue_empty q \<longleftrightarrow> wq_head q = wq_tail q"

partial_function (option) WaitFreeQueue_drain ::
  "nat \<Rightarrow> 'a WaitFreeQueue \<Rightarrow> nat \<Rightarrow> ('a WaitFreeQueue \<times> nat) option" where
  "WaitFreeQueue_drain n q popped =
     (case WaitFreeQueue_pop n q of None \<Rightarrow> Some (q, popped)
      | Some (v, q') \<Rightarrow> WaitFreeQueue_drain n q' (popped + 1))"

definition run_waitfree_demo :: "int \<Rightarrow> world \<Rightarrow> world option" where
  "run_waitfree_demo count w =
     (let (q, pushed) = push_count (WaitFreeQueue_push 256)
            (map (\<lambda>i. word_of_nat i :: u64) [0..<nat count]) (WaitFreeQueue_new 256 0) 0
      in case WaitFreeQueue_drain 256 q 0 of
           None \<Rightarrow> None
         | Some (q, popped) \<Rightarrow>
             Some (cout (''[WAITFREE] count='' @ int_to_string count @ '' pushed='' @ nat_to_string pushed @
                 '' popped='' @ nat_to_string popped @ [CHR 0x0A]) w))"

section \<open>Both are bounded queues\<close>

definition sb_contents :: "SignalBuffer \<Rightarrow> byte list" where
  "sb_contents b = ring_contents 512 (sb_data b) (sb_head b) (sb_tail b)"

definition sb_ok :: "SignalBuffer \<Rightarrow> bool" where
  "sb_ok b \<longleftrightarrow> ring_ok 512 (sb_data b) (sb_head b) (sb_tail b)"

definition wq_contents :: "nat \<Rightarrow> 'a WaitFreeQueue \<Rightarrow> 'a list" where
  "wq_contents n q = ring_contents n (wq_buffer q) (wq_head q) (wq_tail q)"

definition wq_ok :: "nat \<Rightarrow> 'a WaitFreeQueue \<Rightarrow> bool" where
  "wq_ok n q \<longleftrightarrow> ring_ok n (wq_buffer q) (wq_head q) (wq_tail q)"

lemma and_pow2: "x AND (2 ^ k - Suc 0) = x mod 2 ^ k" for x :: nat
  by (simp add: take_bit_eq_mod [symmetric] take_bit_eq_mask mask_eq_exp_minus_1)

text \<open>The steps of a ring, for any representation.\<close>

lemmas ring_facts = ring_len_full ring_contents_empty ring_len_bound ring_ok_def

interpretation sb: drained_fifo sb_ok sb_contents 511 SignalBuffer_new
    SignalBuffer_push SignalBuffer_pop SignalBuffer_drain
proof
  show "sb_ok SignalBuffer_new" "sb_contents SignalBuffer_new = []"
    by (simp_all add: sb_ok_def sb_contents_def SignalBuffer_new_def ring_facts)
  fix s v vs n assume ok: "sb_ok s"
  then have r: "ring_ok 512 (sb_data s) (sb_head s) (sb_tail s)" "sb_head s < 512" "sb_tail s < 512"
    by (simp_all add: sb_ok_def ring_ok_def)
  show "length (sb_contents s) \<le> 511"
    using ring_len_bound [OF r(2,3)] by (simp add: sb_contents_def)
  show "length (sb_contents s) = 511 \<Longrightarrow> SignalBuffer_push v s = (False, s)"
    using ring_len_full [OF r(2,3)] by (simp add: sb_contents_def SignalBuffer_push_def)
  show "length (sb_contents s) < 511 \<Longrightarrow>
      \<exists>s'. SignalBuffer_push v s = (True, s') \<and> sb_ok s' \<and> sb_contents s' = sb_contents s @ [v]"
    using ring_len_full [OF r(2,3)] ring_contents_push [OF r(1)] r(1)
    by (simp add: sb_contents_def SignalBuffer_push_def sb_ok_def ring_ok_def)
  show "sb_contents s = [] \<Longrightarrow> SignalBuffer_pop s = None"
    using ring_contents_empty [OF r(2,3), of "sb_data s"] by (simp add: sb_contents_def SignalBuffer_pop_def)
  show "sb_contents s = v # vs \<Longrightarrow>
      \<exists>s'. SignalBuffer_pop s = Some (v, s') \<and> sb_ok s' \<and> sb_contents s' = vs"
    using ring_contents_empty [OF r(2,3), of "sb_data s"] ring_contents_pop [OF r(2,3), of "sb_data s"] r(1)
    by (simp add: sb_contents_def SignalBuffer_pop_def sb_ok_def ring_ok_def split: if_splits)
next
  fix s n
  show "SignalBuffer_drain s n =
      (case SignalBuffer_pop s of None \<Rightarrow> Some (s, n) | Some (v, s') \<Rightarrow> SignalBuffer_drain s' (n + 1))"
    by (rule SignalBuffer_drain.simps)
qed

interpretation wq: drained_fifo "wq_ok (2 ^ k)" "wq_contents (2 ^ k)" "2 ^ k - 1" "WaitFreeQueue_new (2 ^ k) z"
    "WaitFreeQueue_push (2 ^ k)" "WaitFreeQueue_pop (2 ^ k)" "WaitFreeQueue_drain (2 ^ k)" for k z
proof
  let ?n = "2 ^ k :: nat"
  show "wq_ok ?n (WaitFreeQueue_new ?n z)" "wq_contents ?n (WaitFreeQueue_new ?n z) = []"
    by (simp_all add: wq_ok_def wq_contents_def WaitFreeQueue_new_def ring_facts)
  fix s v vs n assume ok: "wq_ok ?n s"
  then have r: "ring_ok ?n (wq_buffer s) (wq_head s) (wq_tail s)" "wq_head s < ?n" "wq_tail s < ?n"
    by (simp_all add: wq_ok_def ring_ok_def)
  show "length (wq_contents ?n s) \<le> ?n - 1"
    using ring_len_bound [OF r(2,3)] by (simp add: wq_contents_def)
  show "length (wq_contents ?n s) = ?n - 1 \<Longrightarrow> WaitFreeQueue_push ?n v s = (False, s)"
    using ring_len_full [OF r(2,3)] by (simp add: wq_contents_def WaitFreeQueue_push_def and_pow2)
  show "length (wq_contents ?n s) < ?n - 1 \<Longrightarrow>
      \<exists>s'. WaitFreeQueue_push ?n v s = (True, s') \<and> wq_ok ?n s' \<and> wq_contents ?n s' = wq_contents ?n s @ [v]"
    using ring_len_full [OF r(2,3)] ring_contents_push [OF r(1)] r(1)
    by (simp add: wq_contents_def WaitFreeQueue_push_def wq_ok_def ring_ok_def and_pow2 Let_def)
  show "wq_contents ?n s = [] \<Longrightarrow> WaitFreeQueue_pop ?n s = None"
    using ring_contents_empty [OF r(2,3), of "wq_buffer s"] by (simp add: wq_contents_def WaitFreeQueue_pop_def)
  show "wq_contents ?n s = v # vs \<Longrightarrow>
      \<exists>s'. WaitFreeQueue_pop ?n s = Some (v, s') \<and> wq_ok ?n s' \<and> wq_contents ?n s' = vs"
    using ring_contents_empty [OF r(2,3), of "wq_buffer s"] ring_contents_pop [OF r(2,3), of "wq_buffer s"] r(1)
    by (simp add: wq_contents_def WaitFreeQueue_pop_def wq_ok_def ring_ok_def and_pow2 Let_def split: if_splits)
next
  fix s n
  show "WaitFreeQueue_drain (2 ^ k) s n =
      (case WaitFreeQueue_pop (2 ^ k) s of None \<Rightarrow> Some (s, n)
       | Some (v, s') \<Rightarrow> WaitFreeQueue_drain (2 ^ k) s' (n + 1))"
    by (rule WaitFreeQueue_drain.simps)
qed

lemma wrapped_size:
  assumes "h < (512 :: nat)" "t < 512" "1024 < m"
  shows "((t + m - h) mod m + 512) mod m mod 512 = ring_len 512 h t"
proof (cases "h \<le> t")
  case True
  then have s: "t + m - h = (t - h) + m" by simp
  have "(t - h) mod m = t - h" by (rule mod_less) (use assms in linarith)
  then have e: "(t + m - h) mod m = t - h" by (simp only: s mod_add_self2)
  have "((t - h) + 512) mod m = (t - h) + 512" by (rule mod_less) (use assms in linarith)
  moreover have "(t - h) mod 512 = t - h" by (rule mod_less) (use assms in linarith)
  ultimately show ?thesis unfolding e by (simp only: True ring_len_def if_True mod_add_self2)
next
  case False
  define d where "d = h - t"
  have d: "0 < d" "d < 512" "t + m - h = m - d" using False assms by (simp_all add: d_def)
  have "(m - d) mod m = m - d" by (rule mod_less) (use d assms in linarith)
  moreover have "m - d + 512 = (512 - d) + m" using d assms(3) by linarith
  ultimately have "(t + m - h) mod m + 512 = (512 - d) + m" by (simp only: d(3))
  moreover have "(512 - d) mod m = 512 - d" "(512 - d) mod 512 = 512 - d"
    by (rule mod_less; use d assms in linarith)+
  ultimately have "((t + m - h) mod m + 512) mod m mod 512 = 512 - d" by (simp only: mod_add_self2)
  moreover have "512 - d = t + 512 - h" using False assms by (simp add: d_def)
  ultimately show ?thesis using False by (simp only: ring_len_def if_False)
qed

lemma SignalBuffer_size: "sb_ok b \<Longrightarrow> SignalBuffer_size b = length (sb_contents b)"
  by (simp only: SignalBuffer_size_def sb_contents_def length_ring_contents sb_ok_def ring_ok_def)
    (rule wrapped_size; simp)

section \<open>Properties\<close>

text \<open>
  C38. Whatever a client pushes and pops, the signal buffer answers like a list that holds at
  most 511 bytes: values come out once, in the order they went in, a push is refused only when
  511 are waiting and a pop only when none is.
\<close>

theorem signal_buffer_is_fifo:
  "fst (run_ops SignalBuffer_push SignalBuffer_pop ops SignalBuffer_new) = fst (run_ops (list_push 511) list_pop ops [])"
  by (rule sb.replies)

text \<open>
  Called from one thread, the wait-free queue of any power-of-two size answers like a list
  that holds at most one element less than the size.
\<close>

theorem wait_free_queue_is_fifo:
  "fst (run_ops (WaitFreeQueue_push (2 ^ k)) (WaitFreeQueue_pop (2 ^ k)) ops (WaitFreeQueue_new (2 ^ k) z)) =
   fst (run_ops (list_push (2 ^ k - 1)) list_pop ops [])"
  by (rule wq.replies)

lemma queue_demo_output:
  "run_signal_buffer_demo items w =
     (let m = nat_to_string (min (nat items) 511)
      in Some (cout (''[SIGBUF] Popped='' @ m @ '' empty=1'' @ [CHR 0x0A])
                (cout (''[SIGBUF] Pushed='' @ m @ '' size='' @ m @ [CHR 0x0A]) w)))
   \<and> run_waitfree_demo items w =
     (let m = nat_to_string (min (nat items) 255)
      in Some (cout (''[WAITFREE] count='' @ int_to_string items @ '' pushed='' @ m @ '' popped='' @ m @ [CHR 0x0A]) w))"
proof -
  obtain b where b: "push_count SignalBuffer_push (map (\<lambda>i. word_of_nat i AND 0xFF) [0..<nat items]) SignalBuffer_new 0 =
      (b, min (nat items) 511)" "sb_ok b" "length (sb_contents b) = min (nat items) 511"
    using sb.push_count_start [of "map (\<lambda>i. word_of_nat i AND 0xFF) [0..<nat items]"]
    by (auto simp: min.commute)
  obtain b' where b': "SignalBuffer_drain b 0 = Some (b', min (nat items) 511)" "sb_ok b'" "sb_contents b' = []"
    using sb.drain_all [OF b(2), of 0] b(3) by auto
  have e: "SignalBuffer_empty b'"
    using b'(2,3) by (simp add: SignalBuffer_empty_def sb_contents_def sb_ok_def ring_ok_def ring_contents_empty)
  obtain q where q: "push_count (WaitFreeQueue_push 256) (map (\<lambda>i. word_of_nat i :: u64) [0..<nat items]) (WaitFreeQueue_new 256 0) 0 =
      (q, min (nat items) 255)" "wq_ok 256 q" "length (wq_contents 256 q) = min (nat items) 255"
    using wq.push_count_start [of 8 "map (\<lambda>i. word_of_nat i :: u64) [0..<nat items]" 0]
    by (auto simp: min.commute)
  obtain q' where q': "WaitFreeQueue_drain 256 q 0 = Some (q', min (nat items) 255)"
    using wq.drain_all [of 8 q 0] q(2,3) by auto
  show ?thesis
    using SignalBuffer_size [OF b(2)] b b'(1) e q(1) q'
    by (simp add: run_signal_buffer_demo_def run_waitfree_demo_def bool_digit_def Let_def)
qed

text \<open>
  The two queue demonstrations end for every argument, and report as pushed and as popped
  the number of items asked for, at most 511 and 255, and an empty buffer afterwards.
\<close>

theorem queue_demos_report:
  "run_signal_buffer_demo items w =
     (let m = nat_to_string (min (nat items) 511)
      in Some (cout (''[SIGBUF] Popped='' @ m @ '' empty=1'' @ [CHR 0x0A])
                (cout (''[SIGBUF] Pushed='' @ m @ '' size='' @ m @ [CHR 0x0A]) w)))
   \<and> run_waitfree_demo items w =
     (let m = nat_to_string (min (nat items) 255)
      in Some (cout (''[WAITFREE] count='' @ int_to_string items @ '' pushed='' @ m @ '' popped='' @ m @ [CHR 0x0A]) w))"
  by (rule queue_demo_output)

end
