(* ===== verification/Wait_Free.thy ===== *)
theory Wait_Free
  imports Ring_Buffers
begin

text \<open>
  Concurrent use of the program's shared-memory objects, as step relations whose steps are the
  atomic operations of the code in any interleaving (the acquire and release orderings of the
  code make the sequentially consistent order of these steps the one the threads observe):
  \<open>WaitFreeQueue::push\<close> and \<open>pop\<close> (\<open>include/nan_perf.h\<close>) run by one producer and one
  consumer, and the spin lock \<open>TaskScheduler::core_sync\<close> (\<open>kernel/scheduler.cpp\<close>) run by
  any number of threads. The properties are invariants of the reachable states.
\<close>

section \<open>One producer, one consumer\<close>

text \<open>Where the producer stands in \<open>push\<close>: the locals \<open>val\<close> and \<open>t\<close> it holds there.\<close>

datatype 'a producer =
    PIdle
  | PLoaded 'a nat      \<comment> \<open>\<open>t\<close> loaded, the test against \<open>head\<close> comes next\<close>
  | PRoom 'a nat        \<comment> \<open>not full, \<open>buffer[t] = val\<close> comes next\<close>
  | PWritten 'a nat     \<comment> \<open>written, \<open>tail.store(next)\<close> comes next\<close>

datatype 'a consumer =
    CIdle
  | CLoaded nat         \<comment> \<open>\<open>h\<close> loaded, the test against \<open>tail\<close> comes next\<close>
  | CSome nat           \<comment> \<open>not empty, \<open>out = buffer[h]\<close> comes next\<close>
  | CRead nat 'a        \<comment> \<open>read, \<open>head.store\<close> comes next\<close>

record 'a spsc =
  sq :: "'a WaitFreeQueue"
  producer :: "'a producer"
  consumer :: "'a consumer"
  sent :: "'a list"       \<comment> \<open>the values whose \<open>push\<close> has stored the new tail\<close>
  received :: "'a list"   \<comment> \<open>the values whose \<open>pop\<close> has stored the new head\<close>

definition spsc_start :: "nat \<Rightarrow> 'a \<Rightarrow> 'a spsc" where
  "spsc_start n z =
     \<lparr>sq = WaitFreeQueue_new n z, producer = PIdle, consumer = CIdle, sent = [], received = []\<rparr>"

inductive spsc_step :: "nat \<Rightarrow> 'a spsc \<Rightarrow> 'a spsc \<Rightarrow> bool" for n where
  push_load: "producer s = PIdle \<Longrightarrow>
    spsc_step n s (s\<lparr>producer := PLoaded val (wq_tail (sq s))\<rparr>)"
| push_full: "producer s = PLoaded val t \<Longrightarrow> (t + 1) AND (n - 1) = wq_head (sq s) \<Longrightarrow>
    spsc_step n s (s\<lparr>producer := PIdle\<rparr>)"
| push_room: "producer s = PLoaded val t \<Longrightarrow> (t + 1) AND (n - 1) \<noteq> wq_head (sq s) \<Longrightarrow>
    spsc_step n s (s\<lparr>producer := PRoom val t\<rparr>)"
| push_write: "producer s = PRoom val t \<Longrightarrow>
    spsc_step n s (s\<lparr>sq := (sq s)\<lparr>wq_buffer := (wq_buffer (sq s))[t := val]\<rparr>, producer := PWritten val t\<rparr>)"
| push_store: "producer s = PWritten val t \<Longrightarrow>
    spsc_step n s (s\<lparr>sq := (sq s)\<lparr>wq_tail := (t + 1) AND (n - 1)\<rparr>, producer := PIdle, sent := sent s @ [val]\<rparr>)"
| pop_load: "consumer s = CIdle \<Longrightarrow>
    spsc_step n s (s\<lparr>consumer := CLoaded (wq_head (sq s))\<rparr>)"
| pop_empty: "consumer s = CLoaded h \<Longrightarrow> h = wq_tail (sq s) \<Longrightarrow>
    spsc_step n s (s\<lparr>consumer := CIdle\<rparr>)"
| pop_some: "consumer s = CLoaded h \<Longrightarrow> h \<noteq> wq_tail (sq s) \<Longrightarrow>
    spsc_step n s (s\<lparr>consumer := CSome h\<rparr>)"
| pop_read: "consumer s = CSome h \<Longrightarrow>
    spsc_step n s (s\<lparr>consumer := CRead h (wq_buffer (sq s) ! h)\<rparr>)"
| pop_store: "consumer s = CRead h v \<Longrightarrow>
    spsc_step n s (s\<lparr>sq := (sq s)\<lparr>wq_head := (h + 1) AND (n - 1)\<rparr>, consumer := CIdle, received := received s @ [v]\<rparr>)"

definition spsc_reach :: "nat \<Rightarrow> 'a \<Rightarrow> 'a spsc \<Rightarrow> bool" where
  "spsc_reach n z = reaches (\<lambda>_ :: unit. spsc_step n) (spsc_start n z)"

section \<open>The invariant\<close>

text \<open>Each thread's local copy of its own index is current, and what it has tested still holds.\<close>

fun producer_ok :: "nat \<Rightarrow> 'a WaitFreeQueue \<Rightarrow> 'a producer \<Rightarrow> bool" where
  "producer_ok n q PIdle = True"
| "producer_ok n q (PLoaded val t) = (t = wq_tail q)"
| "producer_ok n q (PRoom val t) = (t = wq_tail q \<and> (t + 1) mod n \<noteq> wq_head q)"
| "producer_ok n q (PWritten val t) = (t = wq_tail q \<and> (t + 1) mod n \<noteq> wq_head q \<and> wq_buffer q ! t = val)"

fun consumer_ok :: "'a WaitFreeQueue \<Rightarrow> 'a consumer \<Rightarrow> bool" where
  "consumer_ok q CIdle = True"
| "consumer_ok q (CLoaded h) = (h = wq_head q)"
| "consumer_ok q (CSome h) = (h = wq_head q \<and> h \<noteq> wq_tail q)"
| "consumer_ok q (CRead h v) = (h = wq_head q \<and> h \<noteq> wq_tail q \<and> wq_buffer q ! h = v)"

definition spsc_inv :: "nat \<Rightarrow> 'a spsc \<Rightarrow> bool" where
  "spsc_inv n s \<longleftrightarrow> wq_ok n (sq s) \<and> producer_ok n (sq s) (producer s) \<and> consumer_ok (sq s) (consumer s) \<and>
     sent s = received s @ wq_contents n (sq s)"

lemmas queue_simps = wq_ok_def wq_contents_def ring_ok_def

text \<open>Writing at the tail and storing it: what the other side relies on is not disturbed.\<close>

lemma consumer_ok_write:
  assumes "wq_ok n q" "consumer_ok q c" 
  shows "consumer_ok (q\<lparr>wq_buffer := (wq_buffer q)[wq_tail q := val]\<rparr>) c"
  using assms by (cases c) auto

lemma consumer_ok_store:
  assumes "wq_ok n q" "consumer_ok q c" "(wq_tail q + 1) mod n \<noteq> wq_head q"
  shows "consumer_ok (q\<lparr>wq_tail := (wq_tail q + 1) mod n\<rparr>) c"
  using assms by (cases c) auto

lemma producer_ok_store:
  assumes "wq_ok n q" "producer_ok n q p" "wq_head q \<noteq> wq_tail q"
  shows "producer_ok n (q\<lparr>wq_head := (wq_head q + 1) mod n\<rparr>) p"
  using assms by (cases p) (auto simp: queue_simps succ_mod_if split: if_splits)

lemma spsc_inv_start: "spsc_inv (2 ^ k) (spsc_start (2 ^ k) z)"
  by (simp add: spsc_inv_def spsc_start_def wq.start_good wq.start_contents)

lemma spsc_inv_step:
  assumes "spsc_step (2 ^ k) s s'" "spsc_inv (2 ^ k) s"
  shows "spsc_inv (2 ^ k) s'"
  using assms
proof cases
  case (push_write val t)
  then show ?thesis
    using assms(2) consumer_ok_write [of "2 ^ k" "sq s" "consumer s" val]
    by (auto simp: spsc_inv_def queue_simps ring_contents_write)
next
  case (push_store val t)
  then have t: "t = wq_tail (sq s)" "(t + 1) mod 2 ^ k \<noteq> wq_head (sq s)" "wq_buffer (sq s) ! t = val"
    and ok: "ring_ok (2 ^ k) (wq_buffer (sq s)) (wq_head (sq s)) (wq_tail (sq s))"
    using assms(2) by (auto simp: spsc_inv_def wq_ok_def)
  have "(wq_buffer (sq s))[t := val] = wq_buffer (sq s)" using t(3) by (metis list_update_id)
  then show ?thesis
    using push_store assms(2) t ok ring_contents_push [OF ok, of val]
      consumer_ok_store [of "2 ^ k" "sq s" "consumer s"]
    by (auto simp: spsc_inv_def queue_simps and_pow2)
next
  case (pop_store h v)
  then show ?thesis
    using assms(2) producer_ok_store [of "2 ^ k" "sq s" "producer s"] ring_contents_pop
    by (auto simp: spsc_inv_def queue_simps and_pow2)
qed (auto simp: spsc_inv_def and_pow2)

interpretation queue: invariant "\<lambda>_ :: unit. spsc_step (2 ^ k)" "spsc_inv (2 ^ k)" for k
  by unfold_locales (rule spsc_inv_step)

lemma spsc_reach_inv: "spsc_reach (2 ^ k) z s \<Longrightarrow> spsc_inv (2 ^ k) s"
  unfolding spsc_reach_def by (erule queue.reach) (rule spsc_inv_start)

section \<open>The spin lock\<close>

text \<open>
  A thread calls \<open>core_sync\<close> any number of times: the \<open>exchange\<close> stores \<open>true\<close> and returns
  the old flag; while that is \<open>true\<close> the thread stays at the loop.
\<close>

datatype sync_pc = Outside | Spinning | Critical

record scheduler =
  sync_flag :: bool
  pcs :: "nat \<Rightarrow> sync_pc"

definition scheduler_start :: scheduler where
  "scheduler_start = \<lparr>sync_flag = False, pcs = (\<lambda>_. Outside)\<rparr>"

inductive sync_step :: "scheduler \<Rightarrow> scheduler \<Rightarrow> bool" where
  enter: "pcs s i = Outside \<Longrightarrow> sync_step s (s\<lparr>pcs := (pcs s)(i := Spinning)\<rparr>)"
| exchange_busy: "pcs s i = Spinning \<Longrightarrow> sync_flag s \<Longrightarrow> sync_step s (s\<lparr>sync_flag := True\<rparr>)"
| exchange_free: "pcs s i = Spinning \<Longrightarrow> \<not> sync_flag s \<Longrightarrow>
    sync_step s (s\<lparr>sync_flag := True, pcs := (pcs s)(i := Critical)\<rparr>)"
| leave: "pcs s i = Critical \<Longrightarrow>
    sync_step s (s\<lparr>sync_flag := False, pcs := (pcs s)(i := Outside)\<rparr>)"

definition sync_reach :: "scheduler \<Rightarrow> bool" where
  "sync_reach = reaches (\<lambda>_ :: unit. sync_step) scheduler_start"

text \<open>The threads of the pool, true when joinable; a thread that was joined is not joinable any more.\<close>

definition join_workers :: "bool list \<Rightarrow> bool list" where
  "join_workers pool = map (\<lambda>joinable. if joinable then False else joinable) pool"

inductive_cases sync_stepE: "sync_step s s'"

definition sync_inv :: "scheduler \<Rightarrow> bool" where
  "sync_inv s \<longleftrightarrow>
     (if sync_flag s then \<exists>i. \<forall>j. pcs s j = Critical \<longleftrightarrow> j = i else \<forall>j. pcs s j \<noteq> Critical)"

lemma sync_inv_step: "sync_step s s' \<Longrightarrow> sync_inv s \<Longrightarrow> sync_inv s'"
  by (erule sync_stepE; force simp: sync_inv_def split: if_splits)

interpretation lock: invariant "\<lambda>_ :: unit. sync_step" sync_inv
  by unfold_locales (rule sync_inv_step)

lemma sync_reach_inv: "sync_reach s \<Longrightarrow> sync_inv s"
  unfolding sync_reach_def by (erule lock.reach) (simp add: sync_inv_def scheduler_start_def)

section \<open>Properties\<close>

text \<open>
  C12. However one producer and one consumer interleave, the consumer receives exactly the sent
  values in the order they were sent, at most one less than the size are on the way, and the
  verdicts are right when they are reached: \<open>push\<close> reports a full queue exactly when that many
  are waiting, \<open>pop\<close> an empty one exactly when none is.
\<close>

theorem wait_free_queue_linear:
  assumes "spsc_reach (2 ^ k) z s"
  shows "\<exists>pending. sent s = received s @ pending \<and> length pending \<le> 2 ^ k - 1 \<and>
    (\<forall>val t. producer s = PLoaded val t \<longrightarrow>
       ((t + 1) AND (2 ^ k - 1) = wq_head (sq s) \<longleftrightarrow> length pending = 2 ^ k - 1)) \<and>
    (\<forall>h. consumer s = CLoaded h \<longrightarrow> (h = wq_tail (sq s) \<longleftrightarrow> pending = []))"
proof -
  have inv: "spsc_inv (2 ^ k) s" using assms by (rule spsc_reach_inv)
  then have b: "wq_head (sq s) < 2 ^ k" "wq_tail (sq s) < 2 ^ k"
    by (simp_all add: spsc_inv_def queue_simps)
  then show ?thesis
    using inv ring_len_full [OF b] ring_contents_empty [OF b, of "wq_buffer (sq s)"] ring_len_bound [OF b]
    by (intro exI [of _ "wq_contents (2 ^ k) (sq s)"]) (auto simp: spsc_inv_def wq_contents_def and_pow2)
qed

lemma wait_free_queue_linear_witness:
  "\<exists>pending. sent (spsc_start (2 ^ 3) (0 :: nat)\<lparr>producer := PLoaded 7 0\<rparr>) =
     received (spsc_start (2 ^ 3) 0\<lparr>producer := PLoaded 7 0\<rparr>) @ pending \<and> length pending \<le> 2 ^ 3 - 1"
proof -
  have "spsc_reach (2 ^ 3) (0 :: nat) (spsc_start (2 ^ 3) 0\<lparr>producer := PLoaded 7 0\<rparr>)"
    unfolding spsc_reach_def
    by (rule reaches_step [OF reaches_refl])
       (use spsc_step.push_load [of "spsc_start (2 ^ 3) 0" "2 ^ 3" 7] in \<open>simp add: spsc_start_def WaitFreeQueue_new_def\<close>)
  from wait_free_queue_linear [OF this] show ?thesis by blast
qed

text \<open>Steps of its own a thread still needs before its call returns.\<close>

fun push_rank :: "'a producer \<Rightarrow> nat" where
  "push_rank PIdle = 0"
| "push_rank (PWritten v t) = 1"
| "push_rank (PRoom v t) = 2"
| "push_rank (PLoaded v t) = 3"

fun pop_rank :: "'a consumer \<Rightarrow> nat" where
  "pop_rank CIdle = 0"
| "pop_rank (CRead h v) = 1"
| "pop_rank (CSome h) = 2"
| "pop_rank (CLoaded h) = 3"

lemma producer_step:
  assumes "producer s \<noteq> PIdle"
  shows "\<exists>s'. spsc_step n s s' \<and> push_rank (producer s') < push_rank (producer s)"
proof (cases "producer s")
  case (PLoaded v t)
  show ?thesis
  proof (cases "(t + 1) AND (n - 1) = wq_head (sq s)")
    case True
    show ?thesis by (rule exI, rule conjI, rule push_full [OF PLoaded True]) (simp add: PLoaded)
  next
    case False
    show ?thesis by (rule exI, rule conjI, rule push_room [OF PLoaded False]) (simp add: PLoaded)
  qed
next
  case (PRoom v t)
  show ?thesis by (rule exI, rule conjI, rule push_write [OF PRoom]) (simp add: PRoom)
next
  case (PWritten v t)
  show ?thesis by (rule exI, rule conjI, rule push_store [OF PWritten]) (simp add: PWritten)
qed (use assms in simp)

lemma consumer_step:
  assumes "consumer s \<noteq> CIdle"
  shows "\<exists>s'. spsc_step n s s' \<and> pop_rank (consumer s') < pop_rank (consumer s)"
proof (cases "consumer s")
  case (CLoaded h)
  show ?thesis
  proof (cases "h = wq_tail (sq s)")
    case True
    show ?thesis by (rule exI, rule conjI, rule pop_empty [OF CLoaded True]) (simp add: CLoaded)
  next
    case False
    show ?thesis by (rule exI, rule conjI, rule pop_some [OF CLoaded False]) (simp add: CLoaded)
  qed
next
  case (CSome h)
  show ?thesis by (rule exI, rule conjI, rule pop_read [OF CSome]) (simp add: CSome)
next
  case (CRead h v)
  show ?thesis by (rule exI, rule conjI, rule pop_store [OF CRead]) (simp add: CRead)
qed (use assms in simp)

lemma step_ranks:
  "spsc_step n s s' \<Longrightarrow> producer s \<noteq> PIdle \<Longrightarrow>
     producer s' = producer s \<or> push_rank (producer s') < push_rank (producer s)"
  "spsc_step n s s' \<Longrightarrow> consumer s \<noteq> CIdle \<Longrightarrow>
     consumer s' = consumer s \<or> pop_rank (consumer s') < pop_rank (consumer s)"
  by (erule spsc_step.cases; simp)+

text \<open>
  C36. The queue is wait-free: a thread inside \<open>push\<close> or \<open>pop\<close> can always take its next step,
  every step of its own brings it closer to the end of the call, at most three of them after
  its first, and no step of the other thread takes it back.
\<close>

theorem queue_is_wait_free:
  "(producer s \<noteq> PIdle \<longrightarrow>
      (\<exists>s'. spsc_step n s s' \<and> push_rank (producer s') < push_rank (producer s)) \<and>
      (\<forall>s'. spsc_step n s s' \<longrightarrow> producer s' = producer s \<or> push_rank (producer s') < push_rank (producer s)) \<and>
      push_rank (producer s) \<le> 3) \<and>
   (consumer s \<noteq> CIdle \<longrightarrow>
      (\<exists>s'. spsc_step n s s' \<and> pop_rank (consumer s') < pop_rank (consumer s)) \<and>
      (\<forall>s'. spsc_step n s s' \<longrightarrow> consumer s' = consumer s \<or> pop_rank (consumer s') < pop_rank (consumer s)) \<and>
      pop_rank (consumer s) \<le> 3)"
  using producer_step [of s n] consumer_step [of s n] step_ranks [of n s]
  by (cases "producer s"; cases "consumer s") auto

lemma queue_is_wait_free_witness:
  "\<exists>s'. spsc_step 8 (spsc_start 8 (0 :: nat)\<lparr>producer := PLoaded 7 0\<rparr>) s' \<and> push_rank (producer s') < 3"
  using queue_is_wait_free [of "spsc_start 8 (0 :: nat)\<lparr>producer := PLoaded 7 0\<rparr>" 8] by simp

text \<open>
  C37. The spin lock of the scheduler excludes: in every reachable state at most one thread is
  in the critical section; and it does not get stuck: while some thread spins, either the
  thread inside can leave or a spinning thread can enter.
\<close>

theorem core_sync_excludes:
  assumes "sync_reach s"
  shows "(pcs s i = Critical \<and> pcs s j = Critical \<longrightarrow> i = j) \<and>
    (pcs s i = Spinning \<longrightarrow>
       (\<exists>s' j. sync_step s s' \<and> (pcs s j = Critical \<and> pcs s' j = Outside \<or> pcs s j = Spinning \<and> pcs s' j = Critical)))"
proof -
  have inv: "sync_inv s" using assms by (rule sync_reach_inv)
  have "\<exists>s' j. sync_step s s' \<and> (pcs s j = Critical \<and> pcs s' j = Outside \<or> pcs s j = Spinning \<and> pcs s' j = Critical)"
    if sp: "pcs s i = Spinning"
  proof (cases "sync_flag s")
    case True
    then obtain j where j: "pcs s j = Critical" using inv by (auto simp: sync_inv_def)
    show ?thesis by (rule exI, rule exI [of _ j], rule conjI, rule leave [OF j]) (simp add: j)
  next
    case False
    show ?thesis by (rule exI, rule exI [of _ i], rule conjI, rule exchange_free [OF sp False]) (simp add: sp)
  qed
  moreover have "pcs s i = Critical \<and> pcs s j = Critical \<longrightarrow> i = j"
    using inv by (auto simp: sync_inv_def split: if_splits)
  ultimately show ?thesis by blast
qed

lemma core_sync_excludes_witness:
  "\<exists>s' j. sync_step (scheduler_start\<lparr>pcs := (pcs scheduler_start)(0 := Spinning)\<rparr>) s' \<and> pcs s' j = Critical"
proof -
  have r: "sync_reach (scheduler_start\<lparr>pcs := (pcs scheduler_start)(0 := Spinning)\<rparr>)"
    unfolding sync_reach_def by (rule reaches_step [OF reaches_refl], rule enter) (simp add: scheduler_start_def)
  show ?thesis
    using core_sync_excludes [OF r, of 0] by (auto simp: scheduler_start_def split: if_splits)
qed

end
