(* ===== verification/Pulse.thy ===== *)
theory Pulse
  imports World
begin

text \<open>
  Signal emission and analysis: \<open>AsyncPulseEmitter\<close>, \<open>PulseFlowAnalyzer\<close>
  (\<open>include/nan_pulse.h\<close>) and their demonstration (\<open>src/pulse_emitter.cpp\<close>). The counters
  of the statistics are natural numbers (they count bytes held in memory); the emitter's
  position, which only grows, is a 64-bit word. What \<open>__rdtscp\<close> returns each time it is read
  is a parameter (\<open>tsc\<close>).
\<close>

section \<open>The emitter\<close>

record AsyncPulseEmitter =
  cache_buf :: "byte list"
  write_pos :: u64

definition AsyncPulseEmitter_new :: AsyncPulseEmitter where
  "AsyncPulseEmitter_new = \<lparr>cache_buf = replicate (64 * 16) 0, write_pos = 0\<rparr>"

definition emit :: "byte \<Rightarrow> AsyncPulseEmitter \<Rightarrow> AsyncPulseEmitter" where
  "emit sig e =
     (let pos = unat (write_pos e mod word_of_nat (length (cache_buf e)))
      in e\<lparr>write_pos := write_pos e + 1, cache_buf := (cache_buf e)[pos := sig]\<rparr>)"

definition flush :: "AsyncPulseEmitter \<Rightarrow> AsyncPulseEmitter" where
  "flush e = e\<lparr>write_pos := 0, cache_buf := replicate (length (cache_buf e)) 0\<rparr>"

section \<open>The clock\<close>

record ClockCycleSync =
  baseline :: u64

definition calibrate :: "u64 \<Rightarrow> ClockCycleSync \<Rightarrow> ClockCycleSync" where
  "calibrate tsc c = c\<lparr>baseline := tsc\<rparr>"

definition elapsed :: "u64 \<Rightarrow> ClockCycleSync \<Rightarrow> u64" where
  "elapsed tsc c = tsc - baseline c"

text \<open>The busy wait, over the readings the counter gives: how many pauses, \<open>None\<close> while it still waits.\<close>

fun wait_cycles_loop :: "u64 \<Rightarrow> u64 \<Rightarrow> u64 list \<Rightarrow> nat option" where
  "wait_cycles_loop start cycles [] = None"
| "wait_cycles_loop start cycles (tsc # tscs) =
     (if tsc - start < cycles then map_option Suc (wait_cycles_loop start cycles tscs) else Some 0)"

section \<open>The analyzer\<close>

datatype LogicLevel = Low | High | Uncertain

record PulseFlowStats =
  samples :: nat
  high_count :: nat
  low_count :: nat
  uncertain_count :: nat
  rising_edges :: nat
  falling_edges :: nat
  toggles :: nat
  longest_high_streak :: nat
  longest_low_streak :: nat

record PulseFlowAnalyzer =
  stats :: PulseFlowStats
  have_prev :: bool
  prev :: LogicLevel
  current_high_streak :: nat
  current_low_streak :: nat

definition PulseFlowStats_new :: PulseFlowStats where
  "PulseFlowStats_new =
     \<lparr>samples = 0, high_count = 0, low_count = 0, uncertain_count = 0, rising_edges = 0,
      falling_edges = 0, toggles = 0, longest_high_streak = 0, longest_low_streak = 0\<rparr>"

definition PulseFlowAnalyzer_new :: PulseFlowAnalyzer where
  "PulseFlowAnalyzer_new =
     \<lparr>stats = PulseFlowStats_new, have_prev = False, prev = Uncertain,
      current_high_streak = 0, current_low_streak = 0\<rparr>"

definition classify :: "byte \<Rightarrow> LogicLevel" where
  "classify sig = (if sig = 0xFF then Uncertain else if sig AND 0x01 \<noteq> 0 then High else Low)"

definition reset :: "PulseFlowAnalyzer \<Rightarrow> PulseFlowAnalyzer" where
  "reset a =
     a\<lparr>stats := PulseFlowStats_new, have_prev := False, prev := Uncertain,
       current_high_streak := 0, current_low_streak := 0\<rparr>"

text \<open>\<open>count_levels_scalar\<close>: one pass over the bytes.\<close>

fun count_levels_scalar :: "byte list \<Rightarrow> PulseFlowStats \<Rightarrow> PulseFlowStats" where
  "count_levels_scalar [] st = st"
| "count_levels_scalar (b # bs) st =
     count_levels_scalar bs
       (case classify b of
          High \<Rightarrow> st\<lparr>high_count := high_count st + 1\<rparr>
        | Low \<Rightarrow> st\<lparr>low_count := low_count st + 1\<rparr>
        | Uncertain \<Rightarrow> st\<lparr>uncertain_count := uncertain_count st + 1\<rparr>)"

text \<open>
  The vector loop: \<open>movemask (cmpeq (v & ones, ones))\<close> and \<open>movemask (cmpeq (v, uncertain))\<close>
  are the lists of the 32 comparisons, \<open>popcount\<close> counts the true ones. \<open>high_count\<close> is an
  \<open>int\<close>.
\<close>

definition popcount :: "bool list \<Rightarrow> nat" where
  "popcount bs = length (filter id bs)"

definition count_block :: "byte list \<Rightarrow> PulseFlowStats \<Rightarrow> PulseFlowStats" where
  "count_block v st =
     (let high_mask = map (\<lambda>b. b AND 0x01 = 0x01) v;
          uncertain_mask = map (\<lambda>b. b = 0xFF) v;
          high = int (popcount high_mask);
          uncertain = popcount uncertain_mask;
          high = high - int uncertain
      in st\<lparr>high_count := high_count st + nat (if 0 < high then high else 0),
            uncertain_count := uncertain_count st + uncertain\<rparr>)"

function count_blocks :: "byte list \<Rightarrow> PulseFlowStats \<Rightarrow> PulseFlowStats" where
  "count_blocks bs st =
     (if 31 < length bs then count_blocks (drop 32 bs) (count_block (take 32 bs) st)
      else count_levels_scalar bs st)"
  by auto
termination by (relation "measure (\<lambda>(bs, st). length bs)") auto

declare count_blocks.simps [simp del]

text \<open>\<open>avx2\<close> says whether the code was built with \<open>__AVX2__\<close>. The subtraction is the last store.\<close>

definition count_levels :: "bool \<Rightarrow> byte list \<Rightarrow> PulseFlowStats \<Rightarrow> PulseFlowStats" where
  "count_levels avx2 bs st =
     (let st = (if avx2 then count_blocks bs st else count_levels_scalar bs st)
      in st\<lparr>low_count := samples st - high_count st - uncertain_count st\<rparr>)"

definition streak_step :: "LogicLevel \<Rightarrow> PulseFlowAnalyzer \<Rightarrow> PulseFlowAnalyzer" where
  "streak_step level a =
     (case level of
        High \<Rightarrow>
          (let c = current_high_streak a + 1
           in a\<lparr>current_high_streak := c, current_low_streak := 0,
                stats := (if longest_high_streak (stats a) < c
                          then (stats a)\<lparr>longest_high_streak := c\<rparr> else stats a)\<rparr>)
      | Low \<Rightarrow>
          (let c = current_low_streak a + 1
           in a\<lparr>current_low_streak := c, current_high_streak := 0,
                stats := (if longest_low_streak (stats a) < c
                          then (stats a)\<lparr>longest_low_streak := c\<rparr> else stats a)\<rparr>)
      | Uncertain \<Rightarrow> a\<lparr>current_high_streak := 0, current_low_streak := 0\<rparr>)"

definition edge_step :: "LogicLevel \<Rightarrow> PulseFlowAnalyzer \<Rightarrow> PulseFlowAnalyzer" where
  "edge_step level a =
     (if have_prev a \<and> prev a \<noteq> Uncertain \<and> level \<noteq> Uncertain \<and> prev a \<noteq> level then
        (let st = (stats a)\<lparr>toggles := toggles (stats a) + 1\<rparr>
         in a\<lparr>stats := (if prev a = Low \<and> level = High then st\<lparr>rising_edges := rising_edges st + 1\<rparr>
                        else if prev a = High \<and> level = Low then st\<lparr>falling_edges := falling_edges st + 1\<rparr>
                        else st)\<rparr>)
      else a)"

fun count_transitions_and_streaks :: "byte list \<Rightarrow> PulseFlowAnalyzer \<Rightarrow> PulseFlowAnalyzer" where
  "count_transitions_and_streaks [] a = a"
| "count_transitions_and_streaks (b # bs) a =
     (let level = classify b
      in count_transitions_and_streaks bs
           ((edge_step level (streak_step level a))\<lparr>prev := level, have_prev := True\<rparr>))"

definition ingest :: "bool \<Rightarrow> byte list \<Rightarrow> PulseFlowAnalyzer \<Rightarrow> PulseFlowAnalyzer" where
  "ingest avx2 bs a =
     (if bs = [] then a
      else
        (let a = a\<lparr>stats := (stats a)\<lparr>samples := samples (stats a) + length bs\<rparr>\<rparr>;
             a = a\<lparr>stats := count_levels avx2 bs (stats a)\<rparr>
         in count_transitions_and_streaks bs a))"

definition snapshot :: "PulseFlowAnalyzer \<Rightarrow> PulseFlowStats" where
  "snapshot a = stats a"

section \<open>The demonstration\<close>

text \<open>\<open>pattern\<close> as \<open>std::hex\<close> prints it is a parameter-free rendering of a byte.\<close>

definition hex_byte :: "byte \<Rightarrow> string" where
  "hex_byte b =
     (if unat b < 16 then [digit_char (unat b)]
      else [digit_char (unat b div 16), digit_char (unat b mod 16)])"

definition demo_signals :: "int \<Rightarrow> byte \<Rightarrow> byte list" where
  "demo_signals count pattern = map (\<lambda>i. (pattern + word_of_nat i) AND 0xFF) [0..<nat count]"

definition run_pulse_emitter_demo :: "bool \<Rightarrow> u64 \<Rightarrow> u64 \<Rightarrow> int \<Rightarrow> byte \<Rightarrow> world \<Rightarrow> world" where
  "run_pulse_emitter_demo avx2 tsc0 tsc1 count pattern w =
     (let clock = calibrate tsc0 \<lparr>baseline = 0\<rparr>;
          w = cout (''[PULSE] Emitting '' @ int_to_string count @ '' signals, pattern=0x'' @
                hex_byte pattern @ [CHR 0x0A]) w;
          sigs = demo_signals count pattern;
          emitter = fold emit sigs AsyncPulseEmitter_new;
          analyzer = ingest avx2 sigs PulseFlowAnalyzer_new;
          st = snapshot analyzer;
          cycles = elapsed tsc1 clock;
          w = cout (''[PULSE] Done. Buffer pos='' @ nat_to_string (unat (write_pos emitter)) @
                ''  cycles='' @ nat_to_string (unat cycles) @
                ''  cycles/emit='' @
                  nat_to_string (if count \<noteq> 0 then unat (cycles div word_of_int count) else 0) @
                [CHR 0x0A]) w;
          w = cout (''[PULSE] Flow stats: high='' @ nat_to_string (high_count st) @
                '' low='' @ nat_to_string (low_count st) @
                '' uncertain='' @ nat_to_string (uncertain_count st) @
                '' rising='' @ nat_to_string (rising_edges st) @
                '' falling='' @ nat_to_string (falling_edges st) @
                '' toggles='' @ nat_to_string (toggles st) @
                '' longest_high='' @ nat_to_string (longest_high_streak st) @
                '' longest_low='' @ nat_to_string (longest_low_streak st) @ [CHR 0x0A]) w;
          emitter = flush emitter
      in cout (''[PULSE] Buffer flushed.'' @ [CHR 0x0A]) w)"

section \<open>Levels, edges and streaks of a trace\<close>

text \<open>The specification of the statistics, on the list of levels the bytes stand for.\<close>

fun edges :: "LogicLevel \<Rightarrow> LogicLevel \<Rightarrow> LogicLevel list \<Rightarrow> nat" where
  "edges a b (x # y # r) = (if x = a \<and> y = b then 1 else 0) + edges a b (y # r)"
| "edges a b _ = 0"

definition ends_with :: "LogicLevel \<Rightarrow> LogicLevel list \<Rightarrow> nat" where
  "ends_with v xs = length (takeWhile ((=) v) (rev xs))"

definition longest :: "nat \<Rightarrow> LogicLevel \<Rightarrow> LogicLevel list \<Rightarrow> bool" where
  "longest m v xs \<longleftrightarrow> (\<forall>n. n \<le> m \<longleftrightarrow> sublist (replicate n v) xs)"

lemma edges_snoc:
  "edges a b (xs @ [x]) = edges a b xs + (if xs \<noteq> [] \<and> last xs = a \<and> x = b then 1 else 0)"
  by (induction a b xs rule: edges.induct) auto

lemma prefix_replicate: "prefix (replicate n v) xs \<longleftrightarrow> n \<le> length (takeWhile ((=) v) xs)"
proof (induction n arbitrary: xs)
  case (Suc n)
  then show ?case by (cases xs) auto
qed simp

lemma suffix_replicate: "suffix (replicate n v) xs \<longleftrightarrow> n \<le> ends_with v xs"
  by (simp add: suffix_to_prefix ends_with_def prefix_replicate)

lemma ends_with_snoc: "ends_with v (xs @ [x]) = (if x = v then ends_with v xs + 1 else 0)"
  by (auto simp: ends_with_def)

lemma longest_snoc:
  assumes "longest m v xs"
  shows "longest (if x = v then max m (ends_with v xs + 1) else m) v (xs @ [x])"
proof -
  have "sublist (replicate n v) (xs @ [x]) \<longleftrightarrow> n \<le> ends_with v (xs @ [x]) \<or> n \<le> m" for n
    using assms by (simp only: sublist_snoc suffix_replicate longest_def)
  then show ?thesis by (auto simp: longest_def ends_with_snoc)
qed

section \<open>The loops compute them\<close>

text \<open>The transitions loop, one level at a time.\<close>

definition level_step :: "LogicLevel \<Rightarrow> PulseFlowAnalyzer \<Rightarrow> PulseFlowAnalyzer" where
  "level_step level a = (edge_step level (streak_step level a))\<lparr>prev := level, have_prev := True\<rparr>"

lemma transitions_fold: "count_transitions_and_streaks bs a = fold level_step (map classify bs) a"
  by (induction bs arbitrary: a) (simp_all add: Let_def level_step_def)

definition trace_inv :: "LogicLevel list \<Rightarrow> PulseFlowAnalyzer \<Rightarrow> bool" where
  "trace_inv xs a \<longleftrightarrow>
     (have_prev a \<longleftrightarrow> xs \<noteq> []) \<and> (xs \<noteq> [] \<longrightarrow> prev a = last xs) \<and>
     current_high_streak a = ends_with High xs \<and> current_low_streak a = ends_with Low xs \<and>
     rising_edges (stats a) = edges Low High xs \<and> falling_edges (stats a) = edges High Low xs \<and>
     toggles (stats a) = edges Low High xs + edges High Low xs \<and>
     longest (longest_high_streak (stats a)) High xs \<and> longest (longest_low_streak (stats a)) Low xs"

lemma trace_inv_step:
  assumes "trace_inv xs a"
  shows "trace_inv (xs @ [x]) (level_step x a)"
  using assms longest_snoc [of "longest_high_streak (stats a)" High xs x]
    longest_snoc [of "longest_low_streak (stats a)" Low xs x]
  by (cases x; cases "prev a")
    (auto simp: trace_inv_def level_step_def edge_step_def streak_step_def edges_snoc ends_with_snoc Let_def max_def
      split: if_splits)

lemma trace_inv_fold: "trace_inv xs a \<Longrightarrow> trace_inv (xs @ ys) (fold level_step ys a)"
proof (induction ys arbitrary: xs a)
  case (Cons y ys)
  then show ?case using Cons.IH [OF trace_inv_step [OF Cons.prems, of y]] by simp
qed simp

text \<open>The counting loops.\<close>

lemma count_levels_scalar_eq:
  "count_levels_scalar bs st =
     st\<lparr>high_count := high_count st + count_list (map classify bs) High,
        low_count := low_count st + count_list (map classify bs) Low,
        uncertain_count := uncertain_count st + count_list (map classify bs) Uncertain\<rparr>"
  by (induction bs arbitrary: st) (simp_all split: LogicLevel.splits)

lemma popcount_map: "popcount (map f v) = length (filter f v)"
  by (induction v) (simp_all add: popcount_def)

lemma level_filters:
  "length (filter (\<lambda>b. b AND 0x01 = 0x01) v) = count_list (map classify v) High + count_list (map classify v) Uncertain"
  "length (filter (\<lambda>b. b = 0xFF) v) = count_list (map classify v) Uncertain"
proof -
  have o: "b AND 1 = 1 \<longleftrightarrow> b AND 1 \<noteq> 0" for b :: byte
    by (simp add: and_one_eq mod_2_eq_odd)
  show "length (filter (\<lambda>b. b AND 0x01 = 0x01) v) = count_list (map classify v) High + count_list (map classify v) Uncertain"
    by (induction v) (auto simp: classify_def o)
  show "length (filter (\<lambda>b. b = 0xFF) v) = count_list (map classify v) Uncertain"
    by (induction v) (auto simp: classify_def)
qed

lemma count_block_eq:
  "count_block v st =
     st\<lparr>high_count := high_count st + count_list (map classify v) High,
        uncertain_count := uncertain_count st + count_list (map classify v) Uncertain\<rparr>"
  by (simp add: count_block_def popcount_map level_filters Let_def)

lemma count_blocks_eq:
  "\<exists>l. count_blocks bs st =
     st\<lparr>high_count := high_count st + count_list (map classify bs) High,
        low_count := l,
        uncertain_count := uncertain_count st + count_list (map classify bs) Uncertain\<rparr>"
proof (induction bs st rule: count_blocks.induct)
  case (1 bs st)
  show ?case
  proof (cases "31 < length bs")
    case True
    have "count_list (map classify bs) v =
        count_list (map classify (take 32 bs)) v + count_list (map classify (drop 32 bs)) v" for v
      by (metis append_take_drop_id count_list_append map_append)
    then show ?thesis
      using 1 [OF True] True by (subst count_blocks.simps) (auto simp: count_block_eq add.assoc)
  next
    case False
    then show ?thesis by (subst count_blocks.simps) (auto simp: count_levels_scalar_eq)
  qed
qed

lemma count_levels_eq:
  "count_levels avx2 bs st =
     (let high = high_count st + count_list (map classify bs) High;
          uncertain = uncertain_count st + count_list (map classify bs) Uncertain
      in st\<lparr>high_count := high, uncertain_count := uncertain, low_count := samples st - high - uncertain\<rparr>)"
  using count_blocks_eq [of bs st]
  by (auto simp: count_levels_def count_levels_scalar_eq Let_def)

section \<open>The analyzer\<close>

definition counts_inv :: "LogicLevel list \<Rightarrow> PulseFlowStats \<Rightarrow> bool" where
  "counts_inv xs st \<longleftrightarrow> samples st = length xs \<and> high_count st = count_list xs High \<and>
     low_count st = count_list xs Low \<and> uncertain_count st = count_list xs Uncertain"

lemma count_list_levels:
  "count_list xs High + count_list xs Low + count_list xs Uncertain = length xs"
proof (induction xs)
  case (Cons x xs)
  then show ?case by (cases x) auto
qed simp

lemma level_step_counts: "counts_inv xs (stats (level_step x a)) \<longleftrightarrow> counts_inv xs (stats a)"
  by (cases x) (simp_all add: counts_inv_def level_step_def edge_step_def streak_step_def Let_def)

lemma fold_level_step_counts: "counts_inv xs (stats (fold level_step ys a)) \<longleftrightarrow> counts_inv xs (stats a)"
  by (induction ys arbitrary: a) (simp_all add: level_step_counts)

lemma count_levels_inv:
  assumes "counts_inv xs st"
  shows "counts_inv (xs @ map classify bs) (count_levels avx2 bs (st\<lparr>samples := samples st + length bs\<rparr>))"
  using assms count_list_levels [of xs] count_list_levels [of "map classify bs"]
  by (simp add: counts_inv_def count_levels_eq Let_def)

text \<open>Counting touches none of the fields the transitions loop reads or writes.\<close>

lemma count_levels_trace:
  "trace_inv xs (a\<lparr>stats := count_levels avx2 bs ((stats a)\<lparr>samples := n\<rparr>)\<rparr>) \<longleftrightarrow> trace_inv xs a"
  by (simp add: trace_inv_def count_levels_eq Let_def)

lemma ingest_inv:
  assumes "trace_inv xs a" "counts_inv xs (stats a)"
  shows "trace_inv (xs @ map classify bs) (ingest avx2 bs a)"
    and "counts_inv (xs @ map classify bs) (stats (ingest avx2 bs a))"
  using trace_inv_fold [of xs "a\<lparr>stats := count_levels avx2 bs ((stats a)\<lparr>samples := samples (stats a) + length bs\<rparr>)\<rparr>"
      "map classify bs"] count_levels_inv [OF assms(2), of bs avx2] assms
  by (auto simp: ingest_def transitions_fold fold_level_step_counts count_levels_trace Let_def)

lemma ingest_all_inv:
  "trace_inv xs a \<Longrightarrow> counts_inv xs (stats a) \<Longrightarrow>
   trace_inv (xs @ map classify (concat chunks)) (fold (ingest avx2) chunks a) \<and>
   counts_inv (xs @ map classify (concat chunks)) (stats (fold (ingest avx2) chunks a))"
proof (induction chunks arbitrary: xs a)
  case (Cons c chunks)
  then show ?case using Cons.IH [OF ingest_inv [OF Cons.prems, of c avx2]] by simp
qed simp

lemma analyzer_start:
  "trace_inv [] PulseFlowAnalyzer_new" "counts_inv [] (stats PulseFlowAnalyzer_new)"
  by (simp_all add: trace_inv_def counts_inv_def PulseFlowAnalyzer_new_def PulseFlowStats_new_def ends_with_def longest_def)

lemma emit_position: "unat ((word_of_nat n :: u64) mod 1024) = n mod 1024"
  by (simp add: unat_mod_distrib unat_of_nat take_bit_eq_mod mod_mod_cancel)

lemma mod_differs:
  assumes "i < n" "n < i + 1024" shows "i mod 1024 \<noteq> n mod (1024 :: nat)"
proof
  assume "i mod 1024 = n mod 1024"
  then have "1024 dvd n - i" using assms(1) by (metis less_imp_le mod_eq_dvd_iff_nat)
  then show False using assms by (auto dest: dvd_imp_le)
qed

section \<open>Properties\<close>

text \<open>
  C28. Whether built with AVX2 or not, and however a trace is cut into the vectors that are
  ingested, the statistics are those of the whole trace: the numbers of high, low and uncertain
  samples, the rising and falling edges between neighbouring samples, their sum as toggles, and
  the longest runs of high and of low samples.
\<close>

theorem flow_statistics_correct:
  "let trace = map classify (concat chunks);
       st = snapshot (fold (ingest avx2) chunks PulseFlowAnalyzer_new)
   in samples st = length trace \<and> high_count st = count_list trace High \<and>
      low_count st = count_list trace Low \<and> uncertain_count st = count_list trace Uncertain \<and>
      rising_edges st = edges Low High trace \<and> falling_edges st = edges High Low trace \<and>
      toggles st = edges Low High trace + edges High Low trace \<and>
      (\<forall>n. n \<le> longest_high_streak st \<longleftrightarrow> sublist (replicate n High) trace) \<and>
      (\<forall>n. n \<le> longest_low_streak st \<longleftrightarrow> sublist (replicate n Low) trace)"
  using ingest_all_inv [OF analyzer_start, of chunks avx2]
  by (simp add: snapshot_def trace_inv_def counts_inv_def longest_def Let_def)

text \<open>
  The emitter keeps the last 1024 signals: after any sequence of emissions its position is
  their number modulo \<open>2 ^ 64\<close>, each of the last 1024 signals stands at its index modulo 1024,
  slots never written are zero, and a flush gives back the fresh emitter.
\<close>

theorem emitter_keeps_latest:
  "let e = fold emit sigs AsyncPulseEmitter_new
   in write_pos e = word_of_nat (length sigs) \<and> length (cache_buf e) = 1024 \<and>
      (\<forall>i < length sigs. length sigs \<le> i + 1024 \<longrightarrow> cache_buf e ! (i mod 1024) = sigs ! i) \<and>
      (\<forall>j < 1024. length sigs \<le> j \<longrightarrow> cache_buf e ! j = 0) \<and>
      flush e = AsyncPulseEmitter_new"
proof (induction sigs rule: rev_induct)
  case Nil
  show ?case by (simp add: AsyncPulseEmitter_new_def flush_def Let_def)
next
  case (snoc x xs)
  define e where "e = fold emit xs AsyncPulseEmitter_new"
  have IH: "write_pos e = word_of_nat (length xs)" "length (cache_buf e) = 1024"
    "\<And>i. i < length xs \<Longrightarrow> length xs \<le> i + 1024 \<Longrightarrow> cache_buf e ! (i mod 1024) = xs ! i"
    "\<And>j. j < 1024 \<Longrightarrow> length xs \<le> j \<Longrightarrow> cache_buf e ! j = 0"
    using snoc by (auto simp: e_def Let_def)
  have p: "emit x e = e\<lparr>write_pos := write_pos e + 1, cache_buf := (cache_buf e)[length xs mod 1024 := x]\<rparr>"
    by (simp add: emit_def IH(1,2) emit_position)
  have "cache_buf (emit x e) ! (i mod 1024) = (xs @ [x]) ! i"
    if i: "i < length (xs @ [x])" "length (xs @ [x]) \<le> i + 1024" for i
  proof (cases "i = length xs")
    case True
    then show ?thesis using IH(2) by (simp add: p)
  next
    case False
    then have l: "i < length xs" "length xs < i + 1024" using i by auto
    then have "i mod 1024 \<noteq> length xs mod 1024" by (rule mod_differs)
    then show ?thesis using IH(3) [of i] l by (simp add: p nth_append)
  qed
  moreover have "cache_buf (emit x e) ! j = 0" if "j < 1024" "length (xs @ [x]) \<le> j" for j
    using that IH(4) [of j] by (simp add: p)
  moreover have "flush (emit x e) = AsyncPulseEmitter_new"
    by (simp add: p flush_def AsyncPulseEmitter_new_def IH(2))
  ultimately show ?case by (simp add: Let_def p IH(1,2) flip: e_def)
qed

lemma emitter_keeps_latest_witness:
  "cache_buf (fold emit [5, 7] AsyncPulseEmitter_new) ! 1 = 7 \<and> cache_buf (fold emit [5, 7] AsyncPulseEmitter_new) ! 2 = 0"
  using emitter_keeps_latest [of "[5, 7]"] by (auto simp: Let_def dest: spec [of _ "Suc 0"])

text \<open>
  The vector loop and the byte loop of the analyzer are the same function on every analyzer
  state, so the emission demonstration prints the same text in both builds.
\<close>

theorem avx2_matches_scalar:
  "ingest True bs a = ingest False bs a \<and>
   run_pulse_emitter_demo True tsc0 tsc1 count pattern w = run_pulse_emitter_demo False tsc0 tsc1 count pattern w"
proof -
  have "ingest True bs a = ingest False bs a" for bs a
    by (simp add: ingest_def count_levels_eq Let_def)
  then show ?thesis by (simp add: run_pulse_emitter_demo_def)
qed

end
