(* ===== verification/Perf.thy ===== *)
theory Perf
  imports World "HOL-Library.Multiset"
begin

text \<open>
  The scheduling structures of \<open>include/nan_perf.h\<close> and their demonstrations in
  \<open>src/perf_ops.cpp\<close>: \<open>PipelineReorder\<close>, \<open>ReservationStation\<close>, \<open>BranchPredictor\<close> and
  \<open>DeadlockDetector\<close> (the wait-free queue is in \<open>Ring_Buffers\<close> and \<open>Wait_Free\<close>). Register
  numbers and thread ids are the code's \<open>int\<close>; an access outside an array is \<open>None\<close>.
\<close>

section \<open>PipelineReorder\<close>

record Inst =
  i_op :: nat
  i_src1 :: int
  i_src2 :: int
  i_dst :: int

definition reg_index :: "int \<Rightarrow> nat" where
  "reg_index r = nat (r AND 63)"

record reorder_state =
  r_out :: "Inst list"
  r_scheduled :: "bool list"
  r_last_write :: "int list"

definition inst_ready :: "Inst \<Rightarrow> reorder_state \<Rightarrow> bool" where
  "inst_ready i s \<longleftrightarrow>
     r_last_write s ! reg_index (i_src1 i) < int (length (r_out s)) \<and>
     r_last_write s ! reg_index (i_src2 i) < int (length (r_out s))"

text \<open>One pass: the first instruction that is neither scheduled nor waiting is appended.\<close>

fun reorder_pass :: "Inst list \<Rightarrow> nat \<Rightarrow> reorder_state \<Rightarrow> reorder_state" where
  "reorder_pass [] k s = s"
| "reorder_pass (i # is) k s =
     (if r_scheduled s ! k then reorder_pass is (k + 1) s
      else if inst_ready i s then
        s\<lparr>r_out := r_out s @ [i],
          r_last_write := (r_last_write s)[reg_index (i_dst i) := int (length (r_out s @ [i]))],
          r_scheduled := (r_scheduled s)[k := True]\<rparr>
      else reorder_pass is (k + 1) s)"

definition reorder_start :: "Inst list \<Rightarrow> reorder_state" where
  "reorder_start is =
     \<lparr>r_out = [], r_scheduled = replicate (length is) False, r_last_write = replicate 64 (- 1)\<rparr>"

definition reorder :: "Inst list \<Rightarrow> Inst list" where
  "reorder is = r_out ((reorder_pass is 0 ^^ length is) (reorder_start is))"

section \<open>ReservationStation\<close>

text \<open>The operands are \<open>int64_t\<close>, taken as 64-bit words.\<close>

record Entry =
  e_op :: nat
  e_vj :: u64
  e_vk :: u64
  e_qj :: int
  e_qk :: int
  e_busy :: bool

record ReservationStation =
  stations :: "Entry list"
  result_bus :: u64

definition ReservationStation_new :: ReservationStation where
  "ReservationStation_new =
     \<lparr>stations = replicate 8 \<lparr>e_op = 0, e_vj = 0, e_vk = 0, e_qj = 0, e_qk = 0, e_busy = False\<rparr>, result_bus = 0\<rparr>"

fun free_station :: "Entry list \<Rightarrow> nat option" where
  "free_station [] = None"
| "free_station (e # es) = (if \<not> e_busy e then Some 0 else map_option Suc (free_station es))"

definition issue :: "nat \<Rightarrow> u64 \<Rightarrow> u64 \<Rightarrow> int \<Rightarrow> int \<Rightarrow> ReservationStation \<Rightarrow> int \<times> ReservationStation" where
  "issue op vj vk qj qk rs =
     (case free_station (stations rs) of
        Some i \<Rightarrow> (int i, rs\<lparr>stations := (stations rs)[i :=
            \<lparr>e_op = op, e_vj = vj, e_vk = vk, e_qj = qj, e_qk = qk, e_busy = True\<rparr>]\<rparr>)
      | None \<Rightarrow> (- 1, rs))"

definition operation_result :: "Entry \<Rightarrow> u64" where
  "operation_result e =
     (if e_op e = 0x05 then e_vj e + e_vk e
      else if e_op e = 0x06 then e_vj e - e_vk e
      else if e_op e = 0x09 then e_vj e XOR e_vk e
      else e_vj e)"

fun execute_stations :: "Entry list \<Rightarrow> u64 \<Rightarrow> Entry list \<times> u64" where
  "execute_stations [] bus = ([], bus)"
| "execute_stations (e # es) bus =
     (if e_busy e \<and> e_qj e = - 1 \<and> e_qk e = - 1
      then apfst ((#) (e\<lparr>e_busy := False\<rparr>)) (execute_stations es (operation_result e))
      else apfst ((#) e) (execute_stations es bus))"

definition execute_ready :: "ReservationStation \<Rightarrow> ReservationStation" where
  "execute_ready rs =
     (let (es, bus) = execute_stations (stations rs) (result_bus rs)
      in rs\<lparr>stations := es, result_bus := bus\<rparr>)"

section \<open>BranchPredictor\<close>

definition BranchPredictor_new :: "byte list" where
  "BranchPredictor_new = replicate 256 0"

definition predict :: "byte list \<Rightarrow> byte \<Rightarrow> bool" where
  "predict table pc_hash \<longleftrightarrow> 2 \<le> table ! (unat pc_hash mod 256)"

definition update :: "byte \<Rightarrow> bool \<Rightarrow> byte list \<Rightarrow> byte list" where
  "update pc_hash taken table =
     (let k = unat pc_hash mod 256; entry = table ! k
      in if taken \<and> entry < 3 then table[k := entry + 1]
         else if \<not> taken \<and> 0 < entry then table[k := entry - 1]
         else table)"

definition hint_byte :: "bool \<Rightarrow> byte" where
  "hint_byte likely_taken = (if likely_taken then 0x3E else 0x2E)"

section \<open>DeadlockDetector\<close>

record DeadlockDetector =
  holder :: "int list"
  waiting :: "int list"

definition DeadlockDetector_new :: DeadlockDetector where
  "DeadlockDetector_new = \<lparr>holder = replicate 32 (- 1), waiting = replicate 32 (- 1)\<rparr>"

definition in_array :: "int \<Rightarrow> bool" where
  "in_array i \<longleftrightarrow> 0 \<le> i \<and> i < 32"

fun has_cycle_loop :: "DeadlockDetector \<Rightarrow> nat \<Rightarrow> bool list \<Rightarrow> int \<Rightarrow> bool option" where
  "has_cycle_loop d 0 visited cur = Some False"
| "has_cycle_loop d (Suc steps) visited cur =
     (if cur < 0 then Some False
      else if \<not> in_array cur then None
      else if visited ! nat cur then Some True
      else let res = waiting d ! nat cur in
        if res < 0 then Some False
        else if \<not> in_array res then None
        else has_cycle_loop d steps (visited[nat cur := True]) (holder d ! nat res))"

definition has_cycle :: "int \<Rightarrow> DeadlockDetector \<Rightarrow> bool option" where
  "has_cycle start_thread d = has_cycle_loop d 32 (replicate 32 False) start_thread"

definition try_acquire :: "int \<Rightarrow> int \<Rightarrow> DeadlockDetector \<times> world \<Rightarrow> (bool \<times> DeadlockDetector \<times> world) option" where
  "try_acquire thread_id resource = (\<lambda>(d, w).
     if \<not> in_array resource then None
     else if holder d ! nat resource = - 1
     then Some (True, d\<lparr>holder := (holder d)[nat resource := thread_id]\<rparr>, w)
     else if \<not> in_array thread_id then None
     else
       let d = d\<lparr>waiting := (waiting d)[nat thread_id := resource]\<rparr>
       in case has_cycle thread_id d of
            None \<Rightarrow> None
          | Some True \<Rightarrow>
              Some (False, d\<lparr>waiting := (waiting d)[nat thread_id := - 1]\<rparr>,
                cerr (''[DEADLOCK] Cycle detected! Thread '' @ int_to_string thread_id @
                      '' blocked on resource '' @ int_to_string resource @ [CHR 0x0A]) w)
          | Some False \<Rightarrow> Some (False, d, w))"

definition release :: "int \<Rightarrow> int \<Rightarrow> DeadlockDetector \<Rightarrow> DeadlockDetector option" where
  "release thread_id resource d =
     (if \<not> in_array resource then None
      else if holder d ! nat resource = thread_id then
        (if \<not> in_array thread_id then None
         else Some (d\<lparr>holder := (holder d)[nat resource := - 1], waiting := (waiting d)[nat thread_id := - 1]\<rparr>))
      else Some d)"

section \<open>Contexts and frequency hints\<close>

text \<open>The saved registers; \<open>save\<close> and \<open>restore\<close> are placeholders in the source.\<close>

record MiniContext =
  mc_rsp :: "64 word"
  mc_rbp :: "64 word"
  mc_rbx :: "64 word"
  mc_r12 :: "64 word"
  mc_r13 :: "64 word"
  mc_r14 :: "64 word"
  mc_r15 :: "64 word"
  mc_rip :: "64 word"

definition mini_save :: "MiniContext \<Rightarrow> MiniContext" where
  "mini_save c = c\<lparr>mc_rsp := 0, mc_rbp := 0\<rparr>"

definition mini_restore :: "MiniContext \<Rightarrow> MiniContext" where
  "mini_restore c = c"

datatype Load = LIGHT | MEDIUM | HEAVY

datatype hint_instruction = Pause | Sfence | Lfence

text \<open>The instructions a hint executes.\<close>

fun freq_hint :: "Load \<Rightarrow> hint_instruction list" where
  "freq_hint LIGHT = replicate 10 Pause"
| "freq_hint MEDIUM = [Sfence]"
| "freq_hint HEAVY = [Lfence]"

section \<open>Demonstrations\<close>

definition then_try :: "int \<Rightarrow> int \<Rightarrow> (bool \<times> DeadlockDetector \<times> world) option \<Rightarrow>
    (bool \<times> DeadlockDetector \<times> world) option" where
  "then_try thread_id resource r = (case r of None \<Rightarrow> None | Some (_, s) \<Rightarrow> try_acquire thread_id resource s)"

definition run_deadlock_demo :: "world \<Rightarrow> world option" where
  "run_deadlock_demo w =
     (case then_try 0 1 (then_try 1 1 (try_acquire 0 0 (DeadlockDetector_new, w))) of
        None \<Rightarrow> None
      | Some (ok0, s) \<Rightarrow>
          (case try_acquire 1 0 s of
             None \<Rightarrow> None
           | Some (ok1, dd, w) \<Rightarrow>
               Some (cout (''[DEADLOCK] T0-R1='' @ (if ok0 then ''1'' else ''0'') @ '' T1-R0='' @
                  (if ok1 then ''1'' else ''0'') @ '' (cycle expected=0,0)'' @ [CHR 0x0A]) w)))"

lemma run_deadlock_total: "\<exists>w'. run_deadlock_demo w = Some w'"
  by (simp add: run_deadlock_demo_def try_acquire_def DeadlockDetector_new_def has_cycle_def in_array_def
      then_try_def numeral_eq_Suc Let_def)

text \<open>\<open>percent correct rounds\<close> is how the stream prints the double \<open>100.0 * correct / rounds\<close>.\<close>

definition branch_round :: "nat \<Rightarrow> byte list \<times> nat \<Rightarrow> byte list \<times> nat" where
  "branch_round i = (\<lambda>(bp, correct).
     let taken = (i mod 3 \<noteq> 0); pred = predict bp (word_of_nat i)
     in (update (word_of_nat i) taken bp, if pred = taken then correct + 1 else correct))"

definition run_branch_predictor_demo :: "(nat \<Rightarrow> int \<Rightarrow> string) \<Rightarrow> int \<Rightarrow> world \<Rightarrow> world" where
  "run_branch_predictor_demo percent rounds w =
     (let (bp, correct) = fold branch_round [0..<nat rounds] (BranchPredictor_new, 0)
      in cout (''[BRANCH] rounds='' @ int_to_string rounds @ '' correct='' @ nat_to_string correct @
               '' accuracy='' @ percent correct rounds @ ''%'' @ [CHR 0x0A]) w)"

definition demo_prog :: "Inst list" where
  "demo_prog =
     [\<lparr>i_op = 0x05, i_src1 = 1, i_src2 = 2, i_dst = 3\<rparr>, \<lparr>i_op = 0x05, i_src1 = 3, i_src2 = 4, i_dst = 5\<rparr>,
      \<lparr>i_op = 0x09, i_src1 = 0, i_src2 = 1, i_dst = 6\<rparr>, \<lparr>i_op = 0x06, i_src1 = 6, i_src2 = 2, i_dst = 7\<rparr>]"

definition run_pipeline_reorder_demo :: "world \<Rightarrow> world" where
  "run_pipeline_reorder_demo w =
     cout (''[PIPELINE] original='' @ nat_to_string (length demo_prog) @ '' reordered='' @
           nat_to_string (length (reorder demo_prog)) @ '' instructions'' @ [CHR 0x0A]) w"

definition run_ooo_demo :: "world \<Rightarrow> world" where
  "run_ooo_demo w =
     (let (s0, rs) = issue 0x05 10 20 (- 1) (- 1) ReservationStation_new;
          (s1, rs) = issue 0x09 7 3 (- 1) (- 1) rs;
          rs = execute_ready rs
      in cout (''[OOO] stations issued='' @
               nat_to_string ((if 0 \<le> s0 then 1 else 0) + (if 0 \<le> s1 then 1 else 0)) @
               '' result_bus='' @ int_to_string (sint (result_bus rs)) @ [CHR 0x0A]) w)"

section \<open>Reordering\<close>

lemma reg_index_less [simp]: "reg_index r < 64"
proof -
  have "r AND 63 = r mod 64"
    using take_bit_eq_mask [of 6 r] by (simp add: take_bit_eq_mod mask_eq_exp_minus_1)
  then show ?thesis by (simp add: reg_index_def)
qed

definition depends :: "Inst \<Rightarrow> Inst \<Rightarrow> bool" where
  "depends j i \<longleftrightarrow> reg_index (i_src1 j) = reg_index (i_dst i) \<or> reg_index (i_src2 j) = reg_index (i_dst i)"

definition schedule :: "Inst \<Rightarrow> nat \<Rightarrow> reorder_state \<Rightarrow> reorder_state" where
  "schedule i k s = s\<lparr>r_out := r_out s @ [i],
     r_last_write := (r_last_write s)[reg_index (i_dst i) := 1 + int (length (r_out s))],
     r_scheduled := (r_scheduled s)[k := True]\<rparr>"

lemma reorder_pass_cases:
  "reorder_pass is k s = s \<or>
   (\<exists>j < length is. \<not> r_scheduled s ! (k + j) \<and> reorder_pass is k s = schedule (is ! j) (k + j) s)"
proof (induction "is" k s rule: reorder_pass.induct)
  case (2 i "is" k s)
  consider (skip) "r_scheduled s ! k \<or> \<not> inst_ready i s" | (go) "\<not> r_scheduled s ! k" "inst_ready i s" by blast
  then show ?case
  proof cases
    case skip
    then have e: "reorder_pass (i # is) k s = reorder_pass is (k + 1) s" by auto
    have "reorder_pass is (k + 1) s = s \<or>
      (\<exists>j < length is. \<not> r_scheduled s ! (k + 1 + j) \<and> reorder_pass is (k + 1) s = schedule (is ! j) (k + 1 + j) s)"
      using 2 skip by blast
    then show ?thesis unfolding e by (metis add.assoc length_Cons nat_add_left_cancel_less nth_Cons_Suc plus_1_eq_Suc)
  next
    case go
    then show ?thesis by (intro disjI2 exI [of _ 0]) (simp add: schedule_def)
  qed
qed simp

definition picked :: "Inst list \<Rightarrow> reorder_state \<Rightarrow> bool" where
  "picked is s \<longleftrightarrow> length (r_scheduled s) = length is \<and>
     (\<exists>js. distinct js \<and> set js = {j. j < length is \<and> r_scheduled s ! j} \<and> r_out s = map ((!) is) js)"

lemma picked_pass:
  assumes "picked is s"
  shows "picked is (reorder_pass is 0 s)"
  using reorder_pass_cases [of "is" 0 s]
proof (elim disjE exE conjE)
  fix j assume j: "j < length is" "\<not> r_scheduled s ! (0 + j)" "reorder_pass is 0 s = schedule (is ! j) (0 + j) s"
  obtain js where js: "distinct js" "set js = {j. j < length is \<and> r_scheduled s ! j}" "r_out s = map ((!) is) js"
    and l: "length (r_scheduled s) = length is"
    using assms by (auto simp: picked_def)
  have "distinct (js @ [j])" "set (js @ [j]) = {i. i < length is \<and> (r_scheduled s)[j := True] ! i}"
    "r_out s @ [is ! j] = map ((!) is) (js @ [j])"
    using js j(1,2) l by (auto simp: nth_list_update)
  then have "\<exists>js. distinct js \<and> set js = {i. i < length is \<and> (r_scheduled s)[j := True] ! i} \<and>
      r_out s @ [is ! j] = map ((!) is) js" by blast
  then show ?thesis unfolding j(3) by (simp add: picked_def schedule_def l)
qed (use assms in simp)

lemma picked_start: "picked is (reorder_start is)"
  by (auto simp: picked_def reorder_start_def intro: exI [of _ "[]"])

lemma picked_passes: "picked is ((reorder_pass is 0 ^^ n) (reorder_start is))"
  by (induction n) (auto simp: picked_start picked_pass)

text \<open>Without a dependency on the neighbour in front, pass \<open>k\<close> schedules instruction \<open>k\<close>.\<close>

definition in_order :: "Inst list \<Rightarrow> nat \<Rightarrow> reorder_state \<Rightarrow> bool" where
  "in_order is k s \<longleftrightarrow>
     r_out s = take k is \<and> r_scheduled s = replicate k True @ replicate (length is - k) False \<and>
     length (r_last_write s) = 64 \<and>
     (\<forall>r < 64. r_last_write s ! r \<le> int k \<and>
        (r_last_write s ! r = int k \<longrightarrow> 0 < k \<and> r = reg_index (i_dst (is ! (k - 1)))))"

lemma reorder_pass_skip:
  "(\<forall>j < length xs. r_scheduled s ! (k + j)) \<Longrightarrow> reorder_pass (xs @ ys) k s = reorder_pass ys (k + length xs) s"
proof (induction xs arbitrary: k)
  case (Cons x xs)
  have "\<forall>j < length xs. r_scheduled s ! (k + 1 + j)"
    using Cons.prems by (metis add.assoc length_Cons nat_add_left_cancel_less plus_1_eq_Suc)
  then show ?case using Cons.IH [of "k + 1"] Cons.prems by (auto dest: spec [of _ 0])
qed simp

lemma in_order_pass:
  assumes "in_order is k s" "k < length is" "k = 0 \<or> \<not> depends (is ! k) (is ! (k - 1))"
  shows "in_order is (k + 1) (reorder_pass is 0 s)"
proof -
  have o: "r_out s = take k is" "r_scheduled s = replicate k True @ replicate (length is - k) False"
    "length (r_last_write s) = 64"
    and lw: "\<And>r. r < 64 \<Longrightarrow> r_last_write s ! r \<le> int k \<and>
        (r_last_write s ! r = int k \<longrightarrow> 0 < k \<and> r = reg_index (i_dst (is ! (k - 1))))"
    using assms(1) by (auto simp: in_order_def)
  have "\<forall>j < length (take k is). r_scheduled s ! (0 + j)" using o(2) assms(2) by (simp add: nth_append)
  then have "reorder_pass (take k is @ drop k is) 0 s = reorder_pass (drop k is) k s"
    using reorder_pass_skip [of "take k is" s 0 "drop k is"] assms(2) by simp
  then have p: "reorder_pass is 0 s = reorder_pass (is ! k # drop (Suc k) is) k s"
    using assms(2) by (simp add: Cons_nth_drop_Suc)
  have "r_last_write s ! reg_index r < int k" if "reg_index r \<noteq> reg_index (i_dst (is ! (k - 1))) \<or> k = 0" for r
    using lw [of "reg_index r"] that by (cases "r_last_write s ! reg_index r = int k") auto
  then have "inst_ready (is ! k) s"
    using assms(2,3) by (auto simp: inst_ready_def depends_def o(1) min_def)
  then have "reorder_pass is 0 s = schedule (is ! k) k s"
    using assms(2) by (simp add: p o(2) schedule_def nth_append)
  moreover have "(replicate k True @ replicate (length is - k) False)[k := True] =
      replicate (k + 1) True @ replicate (length is - (k + 1)) False"
  proof -
    have "replicate (length is - k) False = False # replicate (length is - (k + 1)) False"
      using assms(2) by (metis Suc_diff_Suc Suc_eq_plus1 replicate_Suc)
    then show ?thesis by (simp add: list_update_append replicate_append_same)
  qed
  moreover have "(r_last_write s)[reg_index (i_dst (is ! k)) := 1 + int k] ! r \<le> int (k + 1) \<and>
      ((r_last_write s)[reg_index (i_dst (is ! k)) := 1 + int k] ! r = int (k + 1) \<longrightarrow>
        r = reg_index (i_dst (is ! k)))" if "r < 64" for r
    using lw [OF that] o(3) that by (auto simp: nth_list_update)
  ultimately show ?thesis
    using assms(2) o by (auto simp: in_order_def schedule_def min_def take_Suc_conv_app_nth)
qed

lemma in_order_passes:
  assumes "\<forall>k. 0 < k \<and> k < length is \<longrightarrow> \<not> depends (is ! k) (is ! (k - 1))"
  shows "k \<le> length is \<Longrightarrow> in_order is k ((reorder_pass is 0 ^^ k) (reorder_start is))"
proof (induction k)
  case 0
  show ?case by (simp add: in_order_def reorder_start_def)
next
  case (Suc k)
  have "k = 0 \<or> \<not> depends (is ! k) (is ! (k - 1))" using assms Suc.prems by auto
  then show ?case using in_order_pass [OF Suc.IH] Suc.prems by simp
qed

lemma inst_ready_start: "inst_ready i (reorder_start is)"
  by (simp add: inst_ready_def reorder_start_def)

lemma inst_ready_schedule:
  assumes "length (r_last_write s) = 64"
  shows "inst_ready i (schedule j k s) \<longleftrightarrow>
    \<not> depends i j \<and>
    (\<forall>r \<in> {reg_index (i_src1 i), reg_index (i_src2 i)}. r_last_write s ! r < 1 + int (length (r_out s)))"
  using assms by (auto simp: inst_ready_def schedule_def depends_def nth_list_update)

lemma schedule_simps [simp]:
  "r_out (schedule i k s) = r_out s @ [i]" "r_scheduled (schedule i k s) = (r_scheduled s)[k := True]"
  "length (r_last_write (schedule i k s)) = length (r_last_write s)"
  by (simp_all add: schedule_def)

lemma reorder_start_simps [simp]:
  "r_out (reorder_start is) = []" "r_scheduled (reorder_start is) = replicate (length is) False"
  "length (r_last_write (reorder_start is)) = 64" "r < 64 \<Longrightarrow> r_last_write (reorder_start is) ! r = - 1"
  by (simp_all add: reorder_start_def)

lemma reorder_pass_Cons:
  "reorder_pass (i # is) k s =
     (if r_scheduled s ! k \<or> \<not> inst_ready i s then reorder_pass is (k + 1) s else schedule i k s)"
  by (simp add: schedule_def)

lemma reorder_dependent_pair:
  assumes "depends b a"
  shows "reorder [a, b] = [a]"
  using assms
  by (simp add: reorder_def reorder_pass_Cons inst_ready_start inst_ready_schedule del: reorder_pass.simps(2))

lemma reorder_hoists:
  assumes "depends b a" "\<not> depends c a" "\<not> depends b c"
  shows "reorder [a, b, c] = [a, c, b]"
proof -
  have lw: "r_last_write (schedule a 0 (reorder_start [a, b, c])) ! r < 2" if "r < 64" for r
    using that by (simp add: schedule_def nth_list_update)
  show ?thesis
    using assms lw
    by (simp add: reorder_def reorder_pass_Cons inst_ready_start inst_ready_schedule del: reorder_pass.simps(2))
qed

section \<open>Chains of waiting threads\<close>

definition detector_ok :: "DeadlockDetector \<Rightarrow> bool" where
  "detector_ok d \<longleftrightarrow> length (holder d) = 32 \<and> length (waiting d) = 32 \<and>
     (\<forall>i < 32. - 1 \<le> holder d ! i \<and> holder d ! i < 32 \<and> - 1 \<le> waiting d ! i \<and> waiting d ! i < 32)"

text \<open>The thread that holds what thread \<open>t\<close> waits for; negative when there is none.\<close>

definition waits_for :: "DeadlockDetector \<Rightarrow> int \<Rightarrow> int" where
  "waits_for d t =
     (if t < 0 then - 1 else if waiting d ! nat t < 0 then - 1 else holder d ! nat (waiting d ! nat t))"

definition chain :: "DeadlockDetector \<Rightarrow> int \<Rightarrow> nat \<Rightarrow> int" where
  "chain d t n = (waits_for d ^^ n) t"

lemma chain_Suc: "chain d t (Suc n) = waits_for d (chain d t n)"
  by (simp add: chain_def)

lemma chain_0 [simp]: "chain d t 0 = t"
  by (simp add: chain_def)

lemma chain_add: "chain d t (m + n) = chain d (chain d t m) n"
  by (simp add: chain_def funpow_add [of n m, simplified add.commute [of n m]])

lemma waits_for_bounds:
  assumes "detector_ok d" "t < 32"
  shows "- 1 \<le> waits_for d t \<and> waits_for d t < 32"
proof (cases "t < 0 \<or> waiting d ! nat t < 0")
  case False
  then have "waiting d ! nat t < 32" using assms by (auto simp: detector_ok_def)
  then have "nat (waiting d ! nat t) < 32" using False by simp
  then show ?thesis using False assms(1) by (auto simp: waits_for_def detector_ok_def)
qed (auto simp: waits_for_def)

lemma chain_bounds:
  assumes "detector_ok d" "in_array t"
  shows "- 1 \<le> chain d t n \<and> chain d t n < 32"
proof (induction n)
  case 0
  then show ?case using assms by (simp add: in_array_def)
next
  case (Suc n)
  then show ?case using waits_for_bounds [OF assms(1)] by (simp add: chain_Suc)
qed

lemma chain_stays: "chain d t k < 0 \<Longrightarrow> k \<le> j \<Longrightarrow> chain d t j < 0"
proof (induction j)
  case (Suc j)
  then show ?case by (cases "k = Suc j") (auto simp: chain_Suc waits_for_def)
qed simp

definition meets :: "DeadlockDetector \<Rightarrow> int \<Rightarrow> bool" where
  "meets d t \<longleftrightarrow> (\<exists>j < 32. \<exists>i < j. 0 \<le> chain d t j \<and> chain d t i = chain d t j)"

lemma meets_from:
  assumes "inj_on (chain d t) {..<k}"
  shows "meets d t \<longleftrightarrow> (\<exists>j < 32. k \<le> j \<and> (\<exists>i < j. 0 \<le> chain d t j \<and> chain d t i = chain d t j))"
proof -
  have "k \<le> j" if "i < j" "chain d t i = chain d t j" for i j
    using that assms by (metis inj_onD lessThan_iff less_trans nat_neq_iff not_less)
  then show ?thesis unfolding meets_def by blast
qed

lemma has_cycle_loop_meets:
  assumes ok: "detector_ok d" "in_array t"
  shows "k + n = 32 \<Longrightarrow> length visited = 32 \<Longrightarrow> \<forall>x < 32. visited ! x \<longleftrightarrow> (\<exists>i < k. chain d t i = int x) \<Longrightarrow>
    inj_on (chain d t) {..<k} \<Longrightarrow> has_cycle_loop d n visited (chain d t k) = Some (meets d t)"
proof (induction n arbitrary: k visited)
  case 0
  then show ?case using meets_from [OF 0(4)] by auto
next
  case (Suc n)
  define cur where "cur = chain d t k"
  note b = chain_bounds [OF ok, of k, folded cur_def]
  note m = meets_from [OF Suc.prems(4)]
  show ?case
  proof (cases "cur < 0")
    case True
    then have "\<not> meets d t" using chain_stays [of d t k] m by (fastforce simp: cur_def)
    then show ?thesis using True by (simp add: cur_def)
  next
    case False
    then have c: "in_array cur" "nat cur < 32" "int (nat cur) = cur" using b by (auto simp: in_array_def)
    show ?thesis
    proof (cases "visited ! nat cur")
      case True
      then obtain i where "i < k" "chain d t i = cur" using Suc.prems(3) c by auto
      then have "meets d t"
        unfolding meets_def using Suc.prems(1) False by (intro exI [of _ k]) (auto simp: cur_def)
      then show ?thesis using True False c by (simp add: cur_def)
    next
      case new: False
      then have inj: "inj_on (chain d t) {..<Suc k}"
        using Suc.prems(3,4) c by (auto simp: lessThan_Suc cur_def)
      show ?thesis
      proof (cases "waiting d ! nat cur < 0")
        case True
        then have "chain d t (Suc k) < 0" by (simp add: chain_Suc waits_for_def flip: cur_def)
        then have "\<not> meets d t"
          using chain_stays [of d t "Suc k"] meets_from [OF inj] by fastforce
        then show ?thesis using True new False c by (simp add: flip: cur_def)
      next
        case res: False
        then have r: "in_array (waiting d ! nat cur)" "chain d t (Suc k) = holder d ! nat (waiting d ! nat cur)"
          using ok(1) c False by (auto simp: in_array_def detector_ok_def chain_Suc waits_for_def simp flip: cur_def)
        have "\<forall>x < 32. visited[nat cur := True] ! x \<longleftrightarrow> (\<exists>i < Suc k. chain d t i = int x)"
          using Suc.prems(2,3) c by (auto simp: nth_list_update less_Suc_eq cur_def)
        then show ?thesis
          using Suc.IH [of "Suc k" "visited[nat cur := True]"] Suc.prems(1,2) inj res new False c(1,2) r
          by (simp flip: cur_def)
      qed
    qed
  qed
qed

lemma has_cycle_meets: "detector_ok d \<Longrightarrow> in_array t \<Longrightarrow> has_cycle t d = Some (meets d t)"
  using has_cycle_loop_meets [of d t 0 32 "replicate 32 False"] by (simp add: has_cycle_def)

text \<open>All 32 threads, each waiting for the resource the next one holds.\<close>

definition full_ring :: DeadlockDetector where
  "full_ring = \<lparr>holder = map (\<lambda>r. (int r + 1) mod 32) [0..<32], waiting = map int [0..<32]\<rparr>"

lemma full_ring_ok: "detector_ok full_ring"
  by (auto simp: detector_ok_def full_ring_def intro: order_trans [of _ 0])

lemma full_ring_chain: "in_array t \<Longrightarrow> chain full_ring t n = (t + int n) mod 32"
proof (induction n)
  case (Suc n)
  define x where "x = (t + int n) mod 32"
  have x: "0 \<le> x" "nat x < 32" "int (nat x) = x" by (simp_all add: x_def nat_less_iff)
  have "chain full_ring t (Suc n) = waits_for full_ring x" using Suc by (simp add: chain_Suc x_def)
  also have "\<dots> = (x + 1) mod 32" using x(1,2) by (simp add: waits_for_def full_ring_def)
  also have "\<dots> = (t + int (Suc n)) mod 32" by (simp add: x_def mod_simps ac_simps)
  finally show ?case .
qed (simp add: in_array_def)

lemma full_ring_missed:
  assumes "in_array t"
  shows "\<not> meets full_ring t"
proof -
  have "(t + int i) mod 32 \<noteq> (t + int j) mod 32" if "i < j" "j < 32" for i j
  proof
    assume "(t + int i) mod 32 = (t + int j) mod 32"
    then have "32 dvd int j - int i" by (metis add_diff_cancel_left mod_eq_dvd_iff)
    then show False using that by (auto dest: zdvd_imp_le)
  qed
  then show ?thesis using assms by (auto simp: meets_def full_ring_chain)
qed

section \<open>Properties\<close>

text \<open>
  C40. The reordering never schedules an instruction twice and invents none, and it is the
  identity on programs in which no instruction reads what the one directly before it writes.
  It is not a reordering in general: of two instructions of which the second depends on the
  first only the first is left, and with an independent third instruction the dependent one
  moves behind it, even if both write the same register.
\<close>

theorem reorder_behaviour:
  "(\<exists>js. distinct js \<and> (\<forall>j \<in> set js. j < length is) \<and> reorder is = map ((!) is) js) \<and>
   ((\<forall>k. 0 < k \<and> k < length is \<longrightarrow> \<not> depends (is ! k) (is ! (k - 1))) \<longrightarrow> reorder is = is) \<and>
   (depends b a \<longrightarrow> reorder [a, b] = [a]) \<and>
   (depends b a \<and> \<not> depends c a \<and> \<not> depends b c \<longrightarrow> reorder [a, b, c] = [a, c, b])"
proof -
  have "reorder is = is" if "\<forall>k. 0 < k \<and> k < length is \<longrightarrow> \<not> depends (is ! k) (is ! (k - 1))"
    using in_order_passes [OF that, of "length is"] by (simp add: in_order_def reorder_def)
  then show ?thesis
    using picked_passes [of "is" "length is"] reorder_dependent_pair reorder_hoists
    by (auto simp: picked_def reorder_def)
qed

lemma reorder_behaviour_witness:
  "reorder [\<lparr>i_op = 5, i_src1 = 1, i_src2 = 2, i_dst = 3\<rparr>, \<lparr>i_op = 5, i_src1 = 3, i_src2 = 4, i_dst = 5\<rparr>] =
     [\<lparr>i_op = 5, i_src1 = 1, i_src2 = 2, i_dst = 3\<rparr>]"
  using reorder_behaviour [of "[]" "\<lparr>i_op = 5, i_src1 = 3, i_src2 = 4, i_dst = 5\<rparr>"
      "\<lparr>i_op = 5, i_src1 = 1, i_src2 = 2, i_dst = 3\<rparr>"]
  by (simp add: depends_def)

text \<open>
  C39. On any consistent state the cycle search ends inside its arrays and answers whether the
  chain of threads, each holding what the one before waits for, comes back to one of its
  members within 32 links. So every reported cycle is one, and all 32 threads waiting in one
  ring, 33 links, are a deadlock it never reports.
\<close>

theorem deadlock_detection:
  assumes "detector_ok d" and "in_array t"
  shows "has_cycle t d = Some (\<exists>j < 32. \<exists>i < j. 0 \<le> chain d t j \<and> chain d t i = chain d t j) \<and>
    chain full_ring t 32 = t \<and> has_cycle t full_ring = Some False"
  using has_cycle_meets [OF assms] has_cycle_meets [OF full_ring_ok assms(2)] full_ring_missed [OF assms(2)]
    full_ring_chain [OF assms(2), of 32] assms(2)
  by (auto simp: meets_def in_array_def)

lemma deadlock_detection_witness: "has_cycle 5 full_ring = Some False"
  using deadlock_detection [OF full_ring_ok, of 5, THEN conjunct2] by (simp add: in_array_def)

text \<open>
  Acquiring a free resource leaves the entry that says the thread waits for it in place:
  once a thread has got a resource it had to wait for, every other thread that asks for the
  resource is told of a deadlock, although nobody but itself is waiting.
\<close>

theorem deadlock_false_alarm:
  assumes "detector_ok d" and "in_array t" and "in_array u" and "t \<noteq> u" and "in_array r"
    and "waiting d ! nat t = r" and "holder d ! nat r = - 1"
  shows "\<exists>d' d''. try_acquire t r (d, w) = Some (True, d', w) \<and>
    try_acquire u r (d', w) = Some (False, d'',
      cerr (''[DEADLOCK] Cycle detected! Thread '' @ int_to_string u @ '' blocked on resource '' @
            int_to_string r @ [CHR 0x0A]) w)"
proof -
  let ?d' = "d\<lparr>holder := (holder d)[nat r := t]\<rparr>"
  let ?d'' = "?d'\<lparr>waiting := (waiting d)[nat u := r]\<rparr>"
  have b: "0 \<le> t" "nat t < 32" "0 \<le> u" "nat u < 32" "0 \<le> r" "nat r < 32" "nat t \<noteq> nat u"
    using assms(2-5) by (auto simp: in_array_def)
  have l: "length (holder d) = 32" "length (waiting d) = 32" using assms(1) by (auto simp: detector_ok_def)
  have ok: "detector_ok ?d''"
    using assms(1-3,5) by (auto simp: detector_ok_def in_array_def nth_list_update)
  have u: "waits_for ?d'' u = t" and t: "waits_for ?d'' t = t"
    using b l assms(6) by (simp_all add: waits_for_def)
  have "meets ?d'' u"
    unfolding meets_def using b(1)
    by (intro exI [of _ 2] conjI exI [of _ 1]) (simp_all add: numeral_2_eq_2 chain_Suc u t)
  then have "has_cycle u ?d'' = Some True" using has_cycle_meets [OF ok assms(3)] by simp
  then show ?thesis
    using assms b l by (auto simp: try_acquire_def Let_def)
qed

lemma deadlock_false_alarm_witness:
  "\<exists>d' d''. try_acquire 0 1 (DeadlockDetector_new\<lparr>waiting := (replicate 32 (- 1))[0 := 1]\<rparr>, sample_world [] []) =
      Some (True, d', sample_world [] []) \<and>
    try_acquire 2 1 (d', sample_world [] []) = Some (False, d'',
      cerr (''[DEADLOCK] Cycle detected! Thread '' @ int_to_string 2 @ '' blocked on resource '' @
            int_to_string 1 @ [CHR 0x0A]) (sample_world [] []))"
  by (rule deadlock_false_alarm)
    (simp_all add: detector_ok_def DeadlockDetector_new_def in_array_def nth_list_update)

end
