(* ===== verification/Compiler_Ops.thy ===== *)
theory Compiler_Ops
  imports Binary_Ops
begin

text \<open>
  The bytecode tools of \<open>include/nan_compiler.h\<close> and their demonstrations in
  \<open>src/compiler_ops.cpp\<close>: \<open>BranchResolver\<close>, \<open>ConstantFolder\<close>, \<open>RegisterColoring\<close>,
  \<open>NanLinker\<close>, \<open>SizeMinimizer\<close>, \<open>CrossPlatformEmitter\<close> and \<open>HWFingerprint\<close>. An
  \<open>int64_t\<close> is a 64-bit word; what \<open>cpuid\<close> answers and whether \<open>mmap\<close> gives a page are
  parameters. The reference machines \<open>run_x86\<close> and \<open>run_arm\<close> execute the few instructions
  the cross-platform emitter writes.
\<close>

section \<open>BranchResolver\<close>

record Branch =
  b_offset :: nat
  b_condition :: bool
  b_target_true :: nat
  b_target_false :: nat

definition add_branch :: "nat \<Rightarrow> bool \<Rightarrow> nat \<Rightarrow> nat \<Rightarrow> Branch list \<Rightarrow> Branch list" where
  "add_branch off cond t_true t_false table =
     table @ [\<lparr>b_offset = off, b_condition = cond, b_target_true = t_true, b_target_false = t_false\<rparr>]"

definition write_target :: "u32 \<Rightarrow> nat \<Rightarrow> byte list \<Rightarrow> byte list" where
  "write_target t off out =
     fold (\<lambda>i out. if off + 1 + i < length out
                   then out[off + 1 + i := ucast (drop_bit (8 * i) t AND 0xFF)] else out) [0..<4] out"

definition resolve_branch :: "Branch \<Rightarrow> byte list \<Rightarrow> byte list" where
  "resolve_branch br out =
     (if length out \<le> b_offset br then out
      else
        (let out = out[b_offset br := opcode_value JMP];
             target = (if b_condition br then b_target_true br else b_target_false br)
         in write_target (word_of_nat target) (b_offset br) out))"

definition resolve :: "Branch list \<Rightarrow> byte list \<Rightarrow> byte list" where
  "resolve table bytecode = fold resolve_branch table bytecode"

section \<open>ConstantFolder\<close>

record Expr =
  x_op :: byte
  x_lhs :: u64
  x_rhs :: u64

definition fold_expr :: "Expr \<Rightarrow> u64" where
  "fold_expr e =
     (if x_op e = opcode_value ADD then x_lhs e + x_rhs e
      else if x_op e = opcode_value SUB then x_lhs e - x_rhs e
      else if x_op e = opcode_value XOR_OP then x_lhs e XOR x_rhs e
      else if x_op e = opcode_value AND_OP then x_lhs e AND x_rhs e
      else if x_op e = opcode_value OR_OP then x_lhs e OR x_rhs e
      else x_lhs e)"

definition foldable :: "byte \<Rightarrow> bool" where
  "foldable b \<longleftrightarrow> b = opcode_value ADD \<or> b = opcode_value SUB \<or> b = opcode_value XOR_OP"

text \<open>\<open>i + 3 < in.size()\<close>: the list still has more than three bytes.\<close>

function fold_bytecode :: "byte list \<Rightarrow> byte list" where
  "fold_bytecode bs =
     (case bs of [] \<Rightarrow> []
      | b # rest \<Rightarrow>
          if 3 < length bs \<and> foldable b then
            (let result = fold_expr \<lparr>x_op = bs ! 0, x_lhs = ucast (bs ! 1), x_rhs = ucast (bs ! 2)\<rparr>
             in opcode_value LOAD # ucast (result AND 0xFF) # fold_bytecode (drop 3 bs))
          else b # fold_bytecode rest)"
  by auto
termination by (relation "measure length") auto

declare fold_bytecode.simps [simp del]

section \<open>RegisterColoring\<close>

record Variable =
  v_name :: string
  v_color :: int

record RegisterColoring =
  vars :: "Variable list"
  conflicts :: "(int \<times> int) list"

definition RegisterColoring_new :: RegisterColoring where
  "RegisterColoring_new = \<lparr>vars = [], conflicts = []\<rparr>"

definition add_var :: "string \<Rightarrow> RegisterColoring \<Rightarrow> int \<times> RegisterColoring" where
  "add_var name rc =
     (let vs = vars rc @ [\<lparr>v_name = name, v_color = - 1\<rparr>]
      in (int (length vs) - 1, rc\<lparr>vars := vs\<rparr>))"

definition add_conflict :: "int \<Rightarrow> int \<Rightarrow> RegisterColoring \<Rightarrow> RegisterColoring" where
  "add_conflict a b rc = (if a \<noteq> b then rc\<lparr>conflicts := conflicts rc @ [(a, b)]\<rparr> else rc)"

text \<open>\<open>vars[x].color\<close>; \<open>None\<close> outside the vector.\<close>

definition color_of :: "Variable list \<Rightarrow> int \<Rightarrow> int option" where
  "color_of vs x = (if 0 \<le> x \<and> nat x < length vs then Some (v_color (vs ! nat x)) else None)"

definition mark :: "Variable list \<Rightarrow> int \<Rightarrow> bool list \<Rightarrow> bool list option" where
  "mark vs x used =
     (case color_of vs x of None \<Rightarrow> None
      | Some c \<Rightarrow> if 0 \<le> c then (if nat c < length used then Some (used[nat c := True]) else None) else Some used)"

fun mark_used :: "Variable list \<Rightarrow> int \<Rightarrow> (int \<times> int) list \<Rightarrow> bool list \<Rightarrow> bool list option" where
  "mark_used vs i [] used = Some used"
| "mark_used vs i ((a, b) # cs) used =
     (case (if a = i then mark vs b used else Some used) of None \<Rightarrow> None
      | Some used \<Rightarrow>
          (case (if b = i then mark vs a used else Some used) of None \<Rightarrow> None
           | Some used \<Rightarrow> mark_used vs i cs used))"

fun first_free :: "bool list \<Rightarrow> nat option" where
  "first_free [] = None"
| "first_free (u # us) = (if \<not> u then Some 0 else map_option Suc (first_free us))"

fun color_loop :: "(int \<times> int) list \<Rightarrow> nat list \<Rightarrow> Variable list \<Rightarrow> (bool \<times> Variable list) option" where
  "color_loop cs [] vs = Some (True, vs)"
| "color_loop cs (i # is) vs =
     (case mark_used vs (int i) cs (replicate 16 False) of None \<Rightarrow> None
      | Some used \<Rightarrow>
          (case first_free used of
             None \<Rightarrow> Some (False, vs)
           | Some c \<Rightarrow> color_loop cs is (vs[i := (vs ! i)\<lparr>v_color := int c\<rparr>])))"

definition color :: "RegisterColoring \<Rightarrow> (bool \<times> RegisterColoring) option" where
  "color rc =
     (case color_loop (conflicts rc) [0..<length (vars rc)] (vars rc) of None \<Rightarrow> None
      | Some (ok, vs) \<Rightarrow> Some (ok, rc\<lparr>vars := vs\<rparr>))"

text \<open>The arrow of the source is the three bytes of its UTF-8 encoding.\<close>

definition dump :: "RegisterColoring \<Rightarrow> string" where
  "dump rc = concat (map (\<lambda>v. ''  var='' @ v_name v @ '' '' @ [CHR 0xE2, CHR 0x86, CHR 0x92] @ '' R'' @
     int_to_string (v_color v) @ [CHR 0x0A]) (vars rc))"

section \<open>NanLinker and SizeMinimizer\<close>

definition link :: "byte list list \<Rightarrow> bool \<Rightarrow> byte list" where
  "link segments strip_padding =
     fold (\<lambda>seg out. out @ (if strip_padding then strip_nops seg else seg)) segments []"

definition total_size :: "byte list list \<Rightarrow> nat" where
  "total_size segments = fold (\<lambda>seg s. s + length seg) segments 0"

text \<open>The state is \<open>baseline\<close>, first \<open>SIZE_MAX\<close>; the result is compressed code and new baseline.\<close>

definition minimize :: "byte list \<Rightarrow> nat \<Rightarrow> world \<Rightarrow> byte list \<times> nat \<times> world" where
  "minimize code_bytes baseline w =
     (let cb = strip_nops code_bytes;
          cb = fold_bytecode cb;
          compressed = rle_compress cb
      in if length compressed < baseline
         then (compressed, length compressed,
               cout (''[SIZE] Binary: '' @ nat_to_string (length cb) @ '' '' @
                 [CHR 0xE2, CHR 0x86, CHR 0x92] @ '' compressed: '' @
                 nat_to_string (length compressed) @ '' bytes'' @ [CHR 0x0A]) w)
         else (compressed, baseline, cerr (''[SIZE] Warning: size did not shrink!'' @ [CHR 0x0A]) w))"

section \<open>CrossPlatformEmitter\<close>

datatype Arch = X86_64 | ARM64

record IRInst =
  ir_op :: byte
  ir_operand :: u64

definition shift_bytes :: "u64 \<Rightarrow> byte list" where
  "shift_bytes v = map (\<lambda>i. ucast (signed_drop_bit (8 * i) v AND 0xFF)) [0..<4]"

definition shift_bytes32 :: "u32 \<Rightarrow> byte list" where
  "shift_bytes32 v = map (\<lambda>i. ucast (drop_bit (8 * i) v AND 0xFF)) [0..<4]"

definition emit_inst :: "Arch \<Rightarrow> IRInst \<Rightarrow> byte list" where
  "emit_inst arch inst =
     (case arch of
        X86_64 \<Rightarrow>
          (if ir_op inst = opcode_value LOAD then 0xB8 # shift_bytes (ir_operand inst)
           else if ir_op inst = opcode_value ADD then 0x05 # shift_bytes (ir_operand inst)
           else if ir_op inst = opcode_value RET then [0xC3]
           else [])
      | ARM64 \<Rightarrow>
          (if ir_op inst = opcode_value LOAD then
             shift_bytes32 (ucast (0xD2800000 OR push_bit 5 (ir_operand inst AND 0xFFFF)))
           else if ir_op inst = opcode_value RET then shift_bytes32 0xD65F03C0
           else []))"

definition emit_ir :: "IRInst list \<Rightarrow> Arch \<Rightarrow> byte list" where
  "emit_ir ir arch = fold (\<lambda>inst out. out @ emit_inst arch inst) ir []"

section \<open>HWFingerprint and the JIT stubs\<close>

definition get_cpu_id :: "u32 \<Rightarrow> u32 \<Rightarrow> u64" where
  "get_cpu_id ebx edx = push_bit 32 (ucast ebx) OR ucast edx"

definition validate :: "u64 \<Rightarrow> u64 \<Rightarrow> bool" where
  "validate cpu_id embedded_id \<longleftrightarrow> cpu_id = embedded_id"

definition embed_fingerprint :: "u64 \<Rightarrow> byte list \<Rightarrow> byte list" where
  "embed_fingerprint cpu_id binary =
     fold (\<lambda>i out. out @ [ucast (drop_bit (8 * i) cpu_id AND 0xFF)]) [0..<8] binary"

definition make_ret_stub :: "byte list" where
  "make_ret_stub = [0xC3]"

definition make_zero_func :: "byte list" where
  "make_zero_func = [0x31, 0xC0, 0xC3]"

text \<open>\<open>mmap_ok\<close>: the page is given and holds the code; calling it returns.\<close>

definition JITPulseGen_compile :: "bool \<Rightarrow> byte list \<Rightarrow> world \<Rightarrow> byte list option \<times> world" where
  "JITPulseGen_compile mmap_ok machine_code w =
     (if mmap_ok then (Some machine_code, w) else (None, cerr (''[JIT] mmap failed'' @ [CHR 0x0A]) w))"

section \<open>Demonstrations\<close>

definition run_jit_demo :: "bool \<Rightarrow> world \<Rightarrow> world" where
  "run_jit_demo mmap_ok w =
     (case JITPulseGen_compile mmap_ok make_zero_func w of
        (Some fn, w) \<Rightarrow> cout (''[JIT] Stub executed successfully.'' @ [CHR 0x0A]) w
      | (None, w) \<Rightarrow> cout (''[JIT] Compilation skipped (platform/perms).'' @ [CHR 0x0A]) w)"

definition linker_segment :: "byte list" where
  "linker_segment = map (\<lambda>j. if j mod 3 = 0 then opcode_value NOP else word_of_nat (j + 1)) [0..<8]"

definition run_linker_demo :: "int \<Rightarrow> bool \<Rightarrow> world \<Rightarrow> world" where
  "run_linker_demo num_segments strip w =
     (let segments = replicate (nat num_segments) linker_segment; linked = link segments strip
      in cout (''[LINKER] segments='' @ int_to_string num_segments @ '' total_raw='' @
           nat_to_string (total_size segments) @ '' linked='' @ nat_to_string (length linked) @
           '' strip_nops='' @ (if strip then ''1'' else ''0'') @ [CHR 0x0A]) w)"

definition run_regcolor_demo :: "world \<Rightarrow> world option" where
  "run_regcolor_demo w =
     (let (a, rc) = add_var ''x'' RegisterColoring_new; (b, rc) = add_var ''y'' rc;
          (c, rc) = add_var ''z'' rc; (d, rc) = add_var ''w'' rc;
          rc = add_conflict b c (add_conflict a b rc);
          rc = add_conflict c d (add_conflict a c rc)
      in case color rc of None \<Rightarrow> None
         | Some (ok, rc) \<Rightarrow>
             (let w = cout (''[COLOR] success='' @ (if ok then ''1'' else ''0'') @ [CHR 0x0A]) w
              in Some (if ok then cout (dump rc) w else w)))"

definition fold_demo_code :: "byte list" where
  "fold_demo_code =
     [opcode_value ADD, 10, 20, opcode_value SAY, 0x48, 0x69, opcode_value XOR_OP, 0xFF, 0x0F]"

definition run_constant_fold_demo :: "world \<Rightarrow> world" where
  "run_constant_fold_demo w =
     cout (''[FOLD] original='' @ nat_to_string (length fold_demo_code) @ '' folded='' @
           nat_to_string (length (fold_bytecode fold_demo_code)) @ [CHR 0x0A]) w"

definition crossplatform_demo_ir :: "IRInst list" where
  "crossplatform_demo_ir =
     [\<lparr>ir_op = opcode_value LOAD, ir_operand = 42\<rparr>, \<lparr>ir_op = opcode_value ADD, ir_operand = 8\<rparr>,
      \<lparr>ir_op = opcode_value RET, ir_operand = 0\<rparr>]"

definition run_crossplatform_demo :: "world \<Rightarrow> world" where
  "run_crossplatform_demo w =
     cout (''[XPLATFORM] x86_64='' @ nat_to_string (length (emit_ir crossplatform_demo_ir X86_64)) @
           '' bytes  arm64='' @ nat_to_string (length (emit_ir crossplatform_demo_ir ARM64)) @
           '' bytes'' @ [CHR 0x0A]) w"

definition run_hwfp_demo :: "u64 \<Rightarrow> world \<Rightarrow> world" where
  "run_hwfp_demo cpu_id w =
     (let binary = embed_fingerprint cpu_id [0xDE, 0xAD, 0xBE, 0xEF]
      in cout (''[HWFP] CPU-ID=0x'' @ hex_nat (unat cpu_id) @ ''  binary_with_fp='' @
           nat_to_string (length binary) @ '' bytes  validate='' @
           (if validate cpu_id cpu_id then ''OK'' else ''FAIL'') @ [CHR 0x0A]) w)"

section \<open>Colouring\<close>

definition colors_ok :: "Variable list \<Rightarrow> bool" where
  "colors_ok vs \<longleftrightarrow> (\<forall>v \<in> set vs. v_color v < 16)"

definition conflicts_ok :: "nat \<Rightarrow> (int \<times> int) list \<Rightarrow> bool" where
  "conflicts_ok n cs \<longleftrightarrow> (\<forall>(a, b) \<in> set cs. 0 \<le> a \<and> nat a < n \<and> 0 \<le> b \<and> nat b < n \<and> a \<noteq> b)"

definition neighbours :: "(int \<times> int) list \<Rightarrow> int \<Rightarrow> int set" where
  "neighbours cs i = {x. (i, x) \<in> set cs \<or> (x, i) \<in> set cs}"

lemma finite_neighbours: "finite (neighbours cs i)"
  by (rule finite_subset [of _ "fst ` set cs \<union> snd ` set cs"]) (force simp: neighbours_def)+

lemma mark_Some:
  assumes "colors_ok vs" "0 \<le> x" "nat x < length vs" "length used = 16"
  shows "\<exists>u. mark vs x used = Some u \<and> length u = 16 \<and>
    (\<forall>k < 16. u ! k \<longleftrightarrow> used ! k \<or> v_color (vs ! nat x) = int k)"
proof -
  have "v_color (vs ! nat x) < 16" using assms(1,3) by (auto simp: colors_ok_def)
  then show ?thesis
    using assms(2-4) by (auto simp: mark_def color_of_def nth_list_update)
qed

lemma mark_used_Some:
  assumes "colors_ok vs"
  shows "conflicts_ok (length vs) cs \<Longrightarrow> length used = 16 \<Longrightarrow>
    \<exists>u. mark_used vs i cs used = Some u \<and> length u = 16 \<and>
      (\<forall>k < 16. u ! k \<longleftrightarrow> used ! k \<or> (\<exists>x \<in> neighbours cs i. v_color (vs ! nat x) = int k))"
proof (induction cs arbitrary: used)
  case Nil
  then show ?case by (simp add: neighbours_def)
next
  case (Cons c cs)
  obtain a b where c: "c = (a, b)" by (cases c)
  have ab: "0 \<le> a" "nat a < length vs" "0 \<le> b" "nat b < length vs" and cs: "conflicts_ok (length vs) cs"
    using Cons.prems(1) by (auto simp: conflicts_ok_def c)
  obtain u1 where u1: "(if a = i then mark vs b used else Some used) = Some u1" "length u1 = 16"
    "\<forall>k < 16. u1 ! k \<longleftrightarrow> used ! k \<or> a = i \<and> v_color (vs ! nat b) = int k"
    using mark_Some [OF assms ab(3,4) Cons.prems(2)] Cons.prems(2) by (cases "a = i") auto
  obtain u2 where u2: "(if b = i then mark vs a u1 else Some u1) = Some u2" "length u2 = 16"
    "\<forall>k < 16. u2 ! k \<longleftrightarrow> u1 ! k \<or> b = i \<and> v_color (vs ! nat a) = int k"
    using mark_Some [OF assms ab(1,2) u1(2)] u1(2) by (cases "b = i") auto
  obtain u where u: "mark_used vs i cs u2 = Some u" "length u = 16"
    "\<forall>k < 16. u ! k \<longleftrightarrow> u2 ! k \<or> (\<exists>x \<in> neighbours cs i. v_color (vs ! nat x) = int k)"
    using Cons.IH [OF cs u2(2)] by auto
  have "neighbours (c # cs) i = neighbours cs i \<union> (if a = i then {b} else {}) \<union> (if b = i then {a} else {})"
    by (auto simp: neighbours_def c)
  then have "\<forall>k < 16. u ! k \<longleftrightarrow> used ! k \<or> (\<exists>x \<in> neighbours (c # cs) i. v_color (vs ! nat x) = int k)"
    using u(3) u2(3) u1(3) by auto
  then show ?case using u1(1) u2(1) u(1,2) by (simp add: c)
qed

lemma first_free_Some: "first_free us = Some c \<Longrightarrow> c < length us \<and> \<not> us ! c"
  by (induction us arbitrary: c) (auto split: if_splits)

lemma first_free_None: "first_free us = None \<Longrightarrow> k < length us \<Longrightarrow> us ! k"
proof (induction us arbitrary: k)
  case (Cons u us)
  then show ?case by (cases k) (auto split: if_splits)
qed simp

definition proper_below :: "(int \<times> int) list \<Rightarrow> nat \<Rightarrow> Variable list \<Rightarrow> bool" where
  "proper_below cs i vs \<longleftrightarrow>
     (\<forall>j < i. 0 \<le> v_color (vs ! j)) \<and>
     (\<forall>(a, b) \<in> set cs. nat a < i \<longrightarrow> nat b < i \<longrightarrow> v_color (vs ! nat a) \<noteq> v_color (vs ! nat b))"

lemma proper_below_step:
  assumes "proper_below cs i vs" "conflicts_ok (length vs) cs" "i < length vs"
    and "\<And>x. x \<in> neighbours cs (int i) \<Longrightarrow> v_color (vs ! nat x) \<noteq> int c"
  shows "proper_below cs (Suc i) (vs[i := (vs ! i)\<lparr>v_color := int c\<rparr>])"
proof -
  define vs' where "vs' = vs[i := (vs ! i)\<lparr>v_color := int c\<rparr>]"
  have "v_color (vs' ! nat a) \<noteq> v_color (vs' ! nat b)"
    if ab: "(a, b) \<in> set cs" "nat a < Suc i" "nat b < Suc i" for a b
  proof -
    have r: "0 \<le> a" "0 \<le> b" "a \<noteq> b" using assms(2) ab(1) by (auto simp: conflicts_ok_def)
    consider "nat a = i" "nat b < i" "a = int i" | "nat b = i" "nat a < i" "b = int i" | "nat a < i" "nat b < i"
      using r ab(2,3) by linarith
    then show ?thesis
    proof cases
      case 1
      then have "b \<in> neighbours cs (int i)" using ab(1) by (simp add: neighbours_def)
      then show ?thesis using assms(3,4) 1 by (fastforce simp: vs'_def)
    next
      case 2
      then have "a \<in> neighbours cs (int i)" using ab(1) by (simp add: neighbours_def)
      then show ?thesis using assms(3,4) 2 by (fastforce simp: vs'_def)
    next
      case 3
      then show ?thesis using assms(1) ab(1) by (auto simp: proper_below_def vs'_def)
    qed
  qed
  moreover have "0 \<le> v_color (vs' ! j)" if "j < Suc i" for j
    using that assms(1,3) by (auto simp: proper_below_def vs'_def nth_list_update less_Suc_eq)
  ultimately show ?thesis by (auto simp: proper_below_def simp flip: vs'_def)
qed

lemma color_loop_Some:
  assumes "i \<le> n"
  shows "length vs = n \<Longrightarrow> colors_ok vs \<Longrightarrow> conflicts_ok n cs \<Longrightarrow> proper_below cs i vs \<Longrightarrow>
    \<exists>ok vs'. color_loop cs [i..<n] vs = Some (ok, vs') \<and> length vs' = n \<and> colors_ok vs' \<and>
      (ok \<longrightarrow> proper_below cs n vs') \<and> (\<not> ok \<longrightarrow> (\<exists>j < n. 16 \<le> card (neighbours cs (int j))))"
  using assms
proof (induction arbitrary: vs rule: inc_induct)
  case base
  then show ?case by auto
next
  case (step i)
  obtain u where u: "mark_used vs (int i) cs (replicate 16 False) = Some u" "length u = 16"
    "\<forall>k < 16. u ! k \<longleftrightarrow> (\<exists>x \<in> neighbours cs (int i). v_color (vs ! nat x) = int k)"
    using mark_used_Some [of vs cs "replicate 16 False" "int i"] step.prems by auto
  have l: "[i..<n] = i # [Suc i..<n]" using step.hyps by (simp add: upt_conv_Cons)
  show ?case
  proof (cases "first_free u")
    case None
    have "{..<16} \<subseteq> (\<lambda>x. nat (v_color (vs ! nat x))) ` neighbours cs (int i)"
    proof
      fix k :: nat assume "k \<in> {..<16}"
      then obtain x where "x \<in> neighbours cs (int i)" "v_color (vs ! nat x) = int k"
        using first_free_None [OF None, of k] u(2,3) by auto
      then show "k \<in> (\<lambda>x. nat (v_color (vs ! nat x))) ` neighbours cs (int i)"
        by (intro image_eqI [of _ _ x]) simp_all
    qed
    then have "card {..<16 :: nat} \<le> card (neighbours cs (int i))"
      by (rule surj_card_le [OF finite_neighbours])
    then have "\<exists>j < n. 16 \<le> card (neighbours cs (int j))" using step.hyps by (intro exI [of _ i]) simp
    then show ?thesis using step.prems by (intro exI [of _ False] exI [of _ vs]) (simp add: l u(1) None)
  next
    case (Some c)
    then have c: "c < 16" "\<And>x. x \<in> neighbours cs (int i) \<Longrightarrow> v_color (vs ! nat x) \<noteq> int c"
      using first_free_Some [OF Some] u(2,3) by auto
    let ?vs = "vs[i := (vs ! i)\<lparr>v_color := int c\<rparr>]"
    have "colors_ok ?vs"
      using step.prems(2) c(1) set_update_subset_insert [of vs i] by (fastforce simp: colors_ok_def)
    moreover have "proper_below cs (Suc i) ?vs"
      using proper_below_step [OF step.prems(4)] step.prems(1,3) step.hyps c(2) by simp
    ultimately show ?thesis
      using step.IH [of ?vs] step.prems by (simp add: l u(1) Some)
  qed
qed

lemma color_total:
  assumes "colors_ok (vars rc)" "conflicts_ok (length (vars rc)) (conflicts rc)"
  shows "\<exists>r. color rc = Some r"
proof -
  have "proper_below (conflicts rc) 0 (vars rc)" by (simp add: proper_below_def)
  then obtain ok vs' where "color_loop (conflicts rc) [0..<length (vars rc)] (vars rc) = Some (ok, vs')"
    using color_loop_Some [OF le0 refl assms] by blast
  then show ?thesis by (simp add: color_def)
qed

lemma run_regcolor_total: "\<exists>w'. run_regcolor_demo w = Some w'"
proof -
  define rd where "rd = add_conflict 2 3 (add_conflict 0 2 (add_conflict 1 2 (add_conflict 0 1
    (snd (add_var ''w'' (snd (add_var ''z'' (snd (add_var ''y'' (snd (add_var ''x'' RegisterColoring_new)))))))))))"
  have "vars rd = map (\<lambda>n. \<lparr>v_name = n, v_color = -1\<rparr>) [''x'', ''y'', ''z'', ''w'']"
    "conflicts rd = [(0, 1), (1, 2), (0, 2), (2, 3)]"
    by (simp_all add: rd_def add_var_def RegisterColoring_new_def add_conflict_def)
  then obtain ok r where "color rd = Some (ok, r)"
    using color_total [of rd] by (fastforce simp: colors_ok_def conflicts_ok_def)
  moreover have "run_regcolor_demo w = (case color rd of None \<Rightarrow> None
         | Some (ok, rc) \<Rightarrow>
             (let w = cout (''[COLOR] success='' @ (if ok then ''1'' else ''0'') @ [CHR 0x0A]) w
              in Some (if ok then cout (dump rc) w else w)))"
    by (simp add: run_regcolor_demo_def rd_def add_var_def RegisterColoring_new_def Let_def)
  ultimately show ?thesis by simp
qed
section \<open>Linking and shrinking\<close>

lemma fold_append: "fold (\<lambda>x out. out @ f x) xs out = out @ concat (map f xs)"
  by (induction xs arbitrary: out) simp_all

lemma link_strip: "link segments True = filter (\<lambda>b. b \<noteq> 0) (concat segments)"
  by (simp add: link_def fold_append strip_nops_filter filter_concat)

lemma link_keep: "link segments False = concat segments"
  by (simp add: link_def fold_append)

lemma total_size_length: "total_size segments = length (concat segments)"
proof -
  have "fold (\<lambda>seg s. s + length seg) segments n = n + length (concat segments)" for n
    by (induction segments arbitrary: n) simp_all
  then show ?thesis by (simp add: total_size_def)
qed

lemma fold_bytecode_Cons:
  "fold_bytecode (b # l # r # x # rest) =
     (if foldable b
      then opcode_value LOAD # ucast (fold_expr \<lparr>x_op = b, x_lhs = ucast l, x_rhs = ucast r\<rparr> AND 0xFF) #
           fold_bytecode (x # rest)
      else b # fold_bytecode (l # r # x # rest))"
  by (subst fold_bytecode.simps) (simp add: Let_def)

lemma fold_bytecode_short: "length bs \<le> 3 \<Longrightarrow> fold_bytecode bs = bs"
proof (induction bs)
  case (Cons b bs)
  then show ?case by (subst fold_bytecode.simps) simp
qed (simp add: fold_bytecode.simps)

lemma length_fold_bytecode: "length (fold_bytecode bs) \<le> length bs"
proof (induction bs rule: length_induct)
  case (1 bs)
  show ?case
  proof (cases bs)
    case (Cons b rest)
    have "length (fold_bytecode rest) \<le> length rest" "length (fold_bytecode (drop 2 rest)) \<le> length (drop 2 rest)"
      using 1 [rule_format, of rest] 1 [rule_format, of "drop 2 rest"] Cons by simp_all
    then show ?thesis using Cons by (subst fold_bytecode.simps) (auto simp: Let_def)
  qed (simp add: fold_bytecode.simps)
qed

text \<open>The low byte of 64-bit arithmetic on bytes is byte arithmetic.\<close>

lemma mod_low:
  fixes x y m n :: int
  assumes "m dvd n"
  shows "(x mod n + y mod n) mod m = (x + y) mod m" "(x mod n - y mod n) mod m = (x - y) mod m"
  using assms by (metis mod_add_eq mod_mod_cancel, metis mod_diff_eq mod_mod_cancel)

lemma low_byte:
  "(ucast (x + y :: u64) :: byte) = ucast x + ucast y" "(ucast (x - y :: u64) :: byte) = ucast x - ucast y"
  by (transfer, simp add: take_bit_eq_mod mod_low mod_mod_cancel mod_simps)+

lemma low_byte_xor: "(ucast (x XOR y :: u64) :: byte) = ucast x XOR ucast y"
  by (rule bit_word_eqI) (auto simp: bit_simps)

lemma low_byte_id: "(ucast (ucast (l :: byte) :: u64) :: byte) = l"
  by (rule bit_word_eqI) (auto simp: bit_simps)

section \<open>Reference machines\<close>

text \<open>\<open>mov eax, imm32\<close>, \<open>add eax, imm32\<close> and \<open>ret\<close>: the value of EAX on return.\<close>

function run_x86 :: "byte list \<Rightarrow> u32 \<Rightarrow> u32 option" where
  "run_x86 bs eax =
     (case bs of [] \<Rightarrow> None
      | b # rest \<Rightarrow>
          if b = 0xC3 then Some eax
          else if (b = 0xB8 \<or> b = 0x05) \<and> 4 \<le> length rest
          then run_x86 (drop 4 rest) (if b = 0xB8 then le32 rest else eax + le32 rest)
          else None)"
  by auto
termination by (relation "measure (\<lambda>(bs, eax). length bs)") auto

text \<open>\<open>movz x0, #imm16\<close> and \<open>ret\<close>: the value of X0 on return.\<close>

function run_arm :: "byte list \<Rightarrow> u64 \<Rightarrow> u64 option" where
  "run_arm bs x0 =
     (if length bs < 4 then None
      else if le32 bs = 0xD65F03C0 then Some x0
      else if le32 bs AND 0xFFE0001F = 0xD2800000
      then run_arm (drop 4 bs) (ucast (drop_bit 5 (le32 bs) AND 0xFFFF))
      else None)"
  by auto
termination by (relation "measure (\<lambda>(bs, eax). length bs)") auto

declare run_x86.simps [simp del] run_arm.simps [simp del]

text \<open>What the intermediate program means: an accumulator of 32 bits.\<close>

fun run_ir :: "IRInst list \<Rightarrow> u32 \<Rightarrow> u32 option" where
  "run_ir [] acc = None"
| "run_ir (i # ir) acc =
     (if ir_op i = opcode_value LOAD then run_ir ir (ucast (ir_operand i))
      else if ir_op i = opcode_value ADD then run_ir ir (acc + ucast (ir_operand i))
      else if ir_op i = opcode_value RET then Some acc
      else run_ir ir acc)"

lemma shift_bytes_le: "shift_bytes v = le_u32 (ucast v)"
proof -
  have "(ucast (signed_drop_bit n v) :: byte) = ucast (drop_bit n (ucast v :: u32))" if "n \<le> 24" for n
    using that by (intro bit_word_eqI) (auto simp: bit_simps)
  moreover have "(ucast v :: byte) = ucast (ucast v :: u32)"
    by (rule bit_word_eqI) (auto simp: bit_simps)
  ultimately show ?thesis
    by (simp add: shift_bytes_def le_u32_def bytes_simps upt_rec)
qed

lemma shift_bytes32_le: "shift_bytes32 v = le_u32 v"
  by (simp add: shift_bytes32_def le_u32_def bytes_simps upt_rec)

lemma emit_ir_concat: "emit_ir ir arch = concat (map (emit_inst arch) ir)"
  by (simp add: emit_ir_def fold_append)

lemma run_x86_emit: "run_x86 (emit_ir ir X86_64) acc = run_ir ir acc"
proof (induction ir arbitrary: acc)
  case Nil
  show ?case by (simp add: emit_ir_concat run_x86.simps)
next
  case (Cons i ir)
  have "run_x86 (0xB8 # le_u32 v @ bs) acc = run_x86 bs v" "run_x86 (0x05 # le_u32 v @ bs) acc = run_x86 bs (acc + v)"
    "run_x86 (0xC3 # bs) acc = Some acc" for v bs
    by (subst run_x86.simps, simp)+
  then show ?case using Cons by (simp add: emit_ir_concat emit_inst_def shift_bytes_le)
qed

text \<open>The 64-bit register of the ARM program, which only loads.\<close>

fun run_ir_loads :: "IRInst list \<Rightarrow> u64 \<Rightarrow> u64 option" where
  "run_ir_loads [] x0 = None"
| "run_ir_loads (i # ir) x0 =
     (if ir_op i = opcode_value LOAD then run_ir_loads ir (ir_operand i AND 0xFFFF)
      else if ir_op i = opcode_value RET then Some x0
      else run_ir_loads ir x0)"

lemma ucast_or_push:
  "(ucast (k OR push_bit 5 (v AND m)) :: u32) = ucast k OR push_bit 5 (ucast v AND ucast m)" for k v m :: u64
  by (rule bit_word_eqI) (auto simp: bit_simps)

lemma movz_fields:
  fixes v :: u32
  shows "(0xD2800000 OR push_bit 5 (v AND 0xFFFF)) AND 0xFFE0001F = 0xD2800000"
    and "drop_bit 5 (0xD2800000 OR push_bit 5 (v AND 0xFFFF)) AND 0xFFFF = v AND 0xFFFF"
proof -
  have "push_bit 5 (v AND 0xFFFF) AND 0xFFE0001F = push_bit 5 v AND (push_bit 5 0xFFFF AND 0xFFE0001F)"
    by (simp only: push_bit_and ac_simps)
  also have "\<dots> = 0" by simp
  finally show "(0xD2800000 OR push_bit 5 (v AND 0xFFFF)) AND 0xFFE0001F = 0xD2800000"
    by (simp add: bit.conj_disj_distrib2)
  have m: "(0xFFFF :: u32) = mask 16" by (simp add: mask_eq_exp_minus_1)
  have "drop_bit 5 (push_bit 5 (v AND 0xFFFF)) AND 0xFFFF = v AND 0xFFFF"
    unfolding m by (rule bit_word_eqI) (auto simp: bit_simps)
  then show "drop_bit 5 (0xD2800000 OR push_bit 5 (v AND 0xFFFF)) AND 0xFFFF = v AND 0xFFFF"
    by (simp add: drop_bit_or bit.conj_disj_distrib2)
qed

lemma arm_load:
  "shift_bytes32 (ucast (0xD2800000 OR push_bit 5 (v AND 0xFFFF) :: u64)) =
     le_u32 (0xD2800000 OR push_bit 5 (ucast v AND 0xFFFF))"
  by (simp only: shift_bytes32_le ucast_or_push) simp

lemma run_arm_emit: "run_arm (emit_ir ir ARM64) x0 = run_ir_loads ir x0"
proof (induction ir arbitrary: x0)
  case Nil
  show ?case by (simp add: emit_ir_concat run_arm.simps)
next
  case (Cons i ir)
  have ret: "run_arm (le_u32 0xD65F03C0 @ bs) x0 = Some x0" for bs
    by (subst run_arm.simps) simp
  have movz: "run_arm (le_u32 (0xD2800000 OR push_bit 5 (ucast v AND 0xFFFF)) @ bs) x0 = run_arm bs (v AND 0xFFFF)"
    for v :: u64 and bs
  proof -
    define e :: u32 where "e = 0xD2800000 OR push_bit 5 (ucast v AND 0xFFFF)"
    have e: "e AND 0xFFE0001F = 0xD2800000" "drop_bit 5 e AND 0xFFFF = ucast v AND 0xFFFF"
      by (simp_all only: e_def movz_fields)
    have m: "(0xFFFF :: 'a::len word) = mask 16" by (simp add: mask_eq_exp_minus_1)
    have "(ucast ((ucast v :: u32) AND 0xFFFF) :: u64) = v AND 0xFFFF"
      unfolding m by (rule bit_word_eqI) (auto simp: bit_simps)
    moreover have "e \<noteq> 0xD65F03C0" using e(1) by auto
    ultimately have "run_arm (le_u32 e @ bs) x0 = run_arm bs (v AND 0xFFFF)"
      by (subst run_arm.simps) (simp add: e)
    then show ?thesis by (simp only: e_def)
  qed
  have e: "emit_ir (i # ir) ARM64 = emit_inst ARM64 i @ emit_ir ir ARM64" by (simp add: emit_ir_concat)
  consider (load) "ir_op i = opcode_value LOAD" | (ret) "ir_op i = opcode_value RET"
    | (other) "ir_op i \<noteq> opcode_value LOAD" "ir_op i \<noteq> opcode_value RET" by blast
  then show ?case
  proof cases
    case load
    then have "emit_inst ARM64 i = le_u32 (0xD2800000 OR push_bit 5 (ucast (ir_operand i) AND 0xFFFF))"
      by (simp only: emit_inst_def Arch.case simp_thms if_True arm_load)
    then show ?thesis using load by (simp only: e movz Cons.IH run_ir_loads.simps simp_thms if_True)
  next
    case r: ret
    then have "emit_inst ARM64 i = le_u32 0xD65F03C0" by (simp add: emit_inst_def shift_bytes32_le)
    then show ?thesis using r by (simp add: e ret)
  next
    case other
    then show ?thesis using Cons.IH by (simp add: e emit_inst_def)
  qed
qed

section \<open>Properties\<close>

text \<open>
  C24. Colouring any set of variables with valid conflicts ends without an access outside the
  vectors; when it succeeds, every variable has one of the 16 colours and the two variables of
  each conflict have different ones; and it succeeds whenever no variable has 16 neighbours.
\<close>

theorem coloring_proper:
  assumes "conflicts_ok (length (vars rc)) (conflicts rc)" and "\<forall>v \<in> set (vars rc). v_color v < 16"
  shows "\<exists>ok rc'. color rc = Some (ok, rc') \<and> length (vars rc') = length (vars rc) \<and>
    (ok \<longrightarrow> (\<forall>v \<in> set (vars rc'). 0 \<le> v_color v \<and> v_color v < 16) \<and>
       (\<forall>(a, b) \<in> set (conflicts rc). v_color (vars rc' ! nat a) \<noteq> v_color (vars rc' ! nat b))) \<and>
    ((\<forall>j < length (vars rc). card (neighbours (conflicts rc) (int j)) < 16) \<longrightarrow> ok)"
proof -
  have "colors_ok (vars rc)" using assms(2) by (simp add: colors_ok_def)
  moreover have "proper_below (conflicts rc) 0 (vars rc)" by (auto simp: proper_below_def)
  ultimately obtain ok vs where c: "color_loop (conflicts rc) [0..<length (vars rc)] (vars rc) = Some (ok, vs)"
    "length vs = length (vars rc)" "colors_ok vs" "ok \<longrightarrow> proper_below (conflicts rc) (length (vars rc)) vs"
    "\<not> ok \<longrightarrow> (\<exists>j < length (vars rc). 16 \<le> card (neighbours (conflicts rc) (int j)))"
    using color_loop_Some [of 0 "length (vars rc)" "vars rc" "conflicts rc"] assms(1) by auto
  have p: "(\<forall>v \<in> set vs. 0 \<le> v_color v \<and> v_color v < 16) \<and>
      (\<forall>(a, b) \<in> set (conflicts rc). v_color (vs ! nat a) \<noteq> v_color (vs ! nat b))" if ok
  proof -
    have pb: "proper_below (conflicts rc) (length (vars rc)) vs" using c(4) that by blast
    then have "\<forall>v \<in> set vs. 0 \<le> v_color v \<and> v_color v < 16"
      using c(2,3) by (auto simp: proper_below_def colors_ok_def in_set_conv_nth)
    moreover have "v_color (vs ! nat a) \<noteq> v_color (vs ! nat b)" if "(a, b) \<in> set (conflicts rc)" for a b
      using that pb assms(1) by (fastforce simp: proper_below_def conflicts_ok_def)
    ultimately show ?thesis by blast
  qed
  show ?thesis
    using c(1,2,5) p by (intro exI [of _ ok] exI [of _ "rc\<lparr>vars := vs\<rparr>"]) (auto simp: color_def)
qed

lemma coloring_proper_witness:
  "\<exists>ok rc'. color \<lparr>vars = [\<lparr>v_name = ''x'', v_color = - 1\<rparr>, \<lparr>v_name = ''y'', v_color = - 1\<rparr>], conflicts = [(0, 1)]\<rparr> =
     Some (ok, rc') \<and> length (vars rc') = 2"
  using coloring_proper [of "\<lparr>vars = [\<lparr>v_name = ''x'', v_color = - 1\<rparr>, \<lparr>v_name = ''y'', v_color = - 1\<rparr>], conflicts = [(0, 1)]\<rparr>"]
  by (force simp: conflicts_ok_def)

text \<open>
  The x86-64 code of an intermediate program leaves in EAX the 32-bit value the program
  computes; the ARM64 code is that of the program without its additions, so it leaves the low
  16 bits of the last value loaded.
\<close>

theorem cross_platform_code:
  "run_x86 (emit_ir ir X86_64) acc = run_ir ir acc \<and>
   run_arm (emit_ir ir ARM64) x0 = run_ir_loads ir x0 \<and>
   emit_ir ir ARM64 = emit_ir (filter (\<lambda>i. ir_op i \<noteq> opcode_value ADD) ir) ARM64 \<and>
   run_x86 (emit_ir crossplatform_demo_ir X86_64) acc = Some 50 \<and>
   run_arm (emit_ir crossplatform_demo_ir ARM64) x0 = Some 42"
proof -
  have "emit_ir ir ARM64 = emit_ir (filter (\<lambda>i. ir_op i \<noteq> opcode_value ADD) ir) ARM64"
    by (induction ir) (auto simp: emit_ir_concat emit_inst_def)
  moreover have "run_ir crossplatform_demo_ir acc = Some 50" "run_ir_loads crossplatform_demo_ir x0 = Some 42"
    by (simp_all add: crossplatform_demo_ir_def)
  moreover have "run_x86 (emit_ir crossplatform_demo_ir X86_64) acc = Some 50"
    "run_arm (emit_ir crossplatform_demo_ir ARM64) x0 = Some 42"
    by (simp_all only: run_x86_emit run_arm_emit calculation)
  ultimately show ?thesis using run_x86_emit run_arm_emit by blast
qed

text \<open>
  What the size minimizer returns decompresses to the folded code without NOPs, is never
  longer than twice the input, and the baseline becomes the smaller of the two sizes; a second
  run on the same code therefore only warns. Linking with stripping keeps exactly the non-zero
  bytes of the segments in order, without stripping all of them.
\<close>

theorem minimizer_and_linker:
  "(let (out, base, w') = minimize cb baseline w
    in rle_decompress out = fold_bytecode (filter (\<lambda>b. b \<noteq> 0) cb) \<and> length out \<le> 2 * length cb \<and>
       base = min baseline (length out) \<and>
       minimize cb base w = (out, base, cerr (''[SIZE] Warning: size did not shrink!'' @ [CHR 0x0A]) w)) \<and>
   link segments True = filter (\<lambda>b. b \<noteq> 0) (concat segments) \<and> link segments False = concat segments \<and>
   length (link segments True) \<le> total_size segments \<and> total_size segments = length (link segments False)"
proof -
  define out where "out = rle_compress (fold_bytecode (strip_nops cb))"
  have l: "length out \<le> 2 * length cb"
  proof -
    have "length (fold_bytecode (strip_nops cb)) \<le> length cb"
      by (metis length_filter_le length_fold_bytecode order_trans strip_nops_filter)
    then show ?thesis
      using length_rle [of "fold_bytecode (strip_nops cb)"] by (simp add: out_def)
  qed
  have m: "fst (minimize cb b w) = out" "fst (snd (minimize cb b w)) = min b (length out)"
    "\<not> length out < b \<Longrightarrow> minimize cb b w = (out, b, cerr (''[SIZE] Warning: size did not shrink!'' @ [CHR 0x0A]) w)" for b
    by (simp_all add: minimize_def Let_def out_def)
  have "minimize cb (min baseline (length out)) w =
      (out, min baseline (length out), cerr (''[SIZE] Warning: size did not shrink!'' @ [CHR 0x0A]) w)"
    by (rule m(3)) simp
  moreover have "rle_decompress out = fold_bytecode (filter (\<lambda>b. b \<noteq> 0) cb)"
    by (simp add: out_def rle_roundtrip strip_nops_filter)
  ultimately show ?thesis
    using l m(1,2) [of baseline]
    by (simp add: case_prod_unfold link_strip link_keep total_size_length)
qed

text \<open>
  Constant folding replaces an operation with two operand bytes by a load of its value modulo
  256, and never makes code longer, but only when another byte follows: the last operation of
  a program is left as it is. So the demonstration, whose last operation is an exclusive or,
  reports 8 bytes, not 7.
\<close>

theorem folding_skips_the_end:
  assumes "foldable op"
  shows "fold_bytecode (op # l # r # x # rest) =
      opcode_value LOAD #
      (if op = opcode_value ADD then l + r else if op = opcode_value SUB then l - r else l XOR r) #
      fold_bytecode (x # rest) \<and>
    fold_bytecode [op, l, r] = [op, l, r] \<and> length (fold_bytecode bs) \<le> length bs \<and>
    run_constant_fold_demo w = cout (''[FOLD] original=9 folded=8'' @ [CHR 0x0A]) w"
proof -
  have v: "(ucast ((ucast l + ucast r :: u64) AND 0xFF) :: byte) = l + r"
    "(ucast ((ucast l - ucast r :: u64) AND 0xFF) :: byte) = l - r"
    "(ucast ((ucast l XOR ucast r :: u64) AND 0xFF) :: byte) = l XOR r"
    by (simp_all only: bytes_simps low_byte low_byte_xor low_byte_id)
  have d: "fold_bytecode fold_demo_code = [3, 30, 2, 0x48, 0x69, 9, 0xFF, 0x0F]"
    by (simp add: fold_demo_code_def fold_bytecode_Cons fold_bytecode_short foldable_def fold_expr_def bytes_simps)
  have t: "nat_to_string 9 = ''9''" "nat_to_string 8 = ''8''"
    by (simp_all add: nat_to_string.simps digit_char_def)
  have "length fold_demo_code = 9" "length [3, 30, 2, 0x48, 0x69, 9, 0xFF, 0x0F :: byte] = 8"
    by (simp_all add: fold_demo_code_def)
  then have "run_constant_fold_demo w = cout (''[FOLD] original=9 folded=8'' @ [CHR 0x0A]) w"
    by (simp only: run_constant_fold_demo_def d t append.simps append_assoc)
  then show ?thesis
    using assms length_fold_bytecode [of bs] v
    by (simp add: fold_bytecode_Cons fold_bytecode_short fold_expr_def) (auto simp: foldable_def)
qed

lemma folding_skips_the_end_witness: "fold_bytecode [5, 10, 20] = [5, 10, 20]"
  using folding_skips_the_end [of 5 10 20] by (simp add: foldable_def)

end
