(* ===== verification/Driver.thy ===== *)
theory Driver
  imports Aot_Compiler Bytecode_VM Ui_Scene Cache Ring_Buffers Pulse
begin

text \<open>
  The command line of \<open>src/nanlang_cpp.cpp\<close>: \<open>Args\<close>, the fast path for \<open>--compile\<close>, \<open>--run\<close>
  and \<open>--ui-render\<close>, and \<open>main\<close>. The operating system and GTK are the record \<open>platform\<close>: what
  starting a program and waiting for it gives, what the GTK main loop does to the scene and
  returns, and what the time stamp counter reads. \<open>main\<close> maps the argument vector and the
  world to the exit code and the new world; the two static variables of the AOT parser have
  their initial values when a process starts.
\<close>

section \<open>The platform\<close>

datatype spawned = ForkFailed | WaitFailed | Waited int

record platform =
  spawn :: "string \<Rightarrow> world \<Rightarrow> spawned \<times> world"
  gtk_run :: "UiScene \<Rightarrow> world \<Rightarrow> int \<times> UiScene \<times> world"
  tsc_first :: u64
  tsc_second :: u64
  built_with_avx2 :: bool

section \<open>Arguments\<close>

record Args =
  kv :: "string \<rightharpoonup> string"
  flags :: "string \<rightharpoonup> bool"

definition Args_new :: Args where
  "Args_new = \<lparr>kv = Map.empty, flags = Map.empty\<rparr>"

definition args_has :: "Args \<Rightarrow> string \<Rightarrow> bool" where
  "args_has a k \<longleftrightarrow> kv a k \<noteq> None \<or> flags a k \<noteq> None"

definition args_get :: "Args \<Rightarrow> string \<Rightarrow> string \<Rightarrow> string" where
  "args_get a k def = (case kv a k of Some v \<Rightarrow> v | None \<Rightarrow> def)"

definition args_get_int :: "Args \<Rightarrow> string \<Rightarrow> int \<Rightarrow> int" where
  "args_get_int a k def =
     (case kv a k of None \<Rightarrow> def
      | Some v \<Rightarrow> (case stoi 0 v of Some (n, _) \<Rightarrow> n | None \<Rightarrow> def))"

text \<open>\<open>argv[i + 1][0] != '-'\<close> holds of the empty argument, whose first byte is the terminator.\<close>

definition starts_with_dash :: "string \<Rightarrow> bool" where
  "starts_with_dash s \<longleftrightarrow> s \<noteq> [] \<and> hd s = CHR ''-''"

function parse_args :: "string list \<Rightarrow> Args \<Rightarrow> Args" where
  "parse_args argv a =
     (case argv of [] \<Rightarrow> a
      | tok # rest \<Rightarrow>
          if prefix ''--'' tok then
            (let key = drop 2 tok
             in case rest of
                  v # rest' \<Rightarrow>
                    if \<not> starts_with_dash v then parse_args rest' (a\<lparr>kv := (kv a)(key \<mapsto> v)\<rparr>)
                    else parse_args rest (a\<lparr>flags := (flags a)(key \<mapsto> True)\<rparr>)
                | [] \<Rightarrow> parse_args rest (a\<lparr>flags := (flags a)(key \<mapsto> True)\<rparr>))
          else if tok = ''compile'' \<or> tok = ''run'' \<or> tok = ''demo'' then
            (case rest of
               v # rest' \<Rightarrow> parse_args rest' (a\<lparr>kv := (kv a)(tok \<mapsto> v)\<rparr>)
             | [] \<Rightarrow> parse_args rest (a\<lparr>kv := (kv a)(tok \<mapsto> ''true'')\<rparr>))
          else if tok = ''help'' \<or> tok = ''-h'' then parse_args rest (a\<lparr>flags := (flags a)(''help'' \<mapsto> True)\<rparr>)
          else if tok = ''version'' \<or> tok = ''-v'' then parse_args rest (a\<lparr>flags := (flags a)(''version'' \<mapsto> True)\<rparr>)
          else parse_args rest a)"
  by auto
termination by (relation "measure (\<lambda>(argv, a). length argv)") auto

declare parse_args.simps [simp del]

section \<open>Output modes\<close>

definition parse_flag_output_mode :: "string \<Rightarrow> CompileOutputMode option" where
  "parse_flag_output_mode token =
     (if token = ''--bin'' then Some Bin
      else if token = ''--elf'' then Some Elf
      else if token = ''--asm'' then Some Asm
      else if token = ''--sh'' then Some Sh
      else None)"

text \<open>\<open>Inl\<close> is the error text; the \<open>valid\<close> flag of the code.\<close>

definition resolve_compile_mode :: "Args \<Rightarrow> string + CompileOutputMode" where
  "resolve_compile_mode args =
     (let pick = (\<lambda>k m (mode, selected). if args_has args k then (m, selected + 1) else (mode, selected));
          (mode, selected) = pick ''sh'' Sh (pick ''asm'' Asm (pick ''elf'' Elf (pick ''bin'' Bin (Elf, 0 :: nat))))
      in if 1 < selected then Inl ''choose only one output mode: --bin, --elf, --asm or --sh'' else Inr mode)"

section \<open>Running files and scenes\<close>

definition has_nan3_magic :: "string \<Rightarrow> world \<Rightarrow> bool" where
  "has_nan3_magic path w =
     (case read_file w path of None \<Rightarrow> False
      | Some bytes \<Rightarrow> 4 \<le> length bytes \<and> take 4 bytes = MAGIC_BYTES)"

text \<open>The macros of \<open>sys/wait.h\<close> on the 16-bit status of Linux.\<close>

definition decode_wait_status :: "int \<Rightarrow> int" where
  "decode_wait_status status =
     (if status < 0 then 1
      else if status mod 128 = 0 then status div 256 mod 256
      else if status mod 128 \<noteq> 127 then 128 + status mod 128
      else 1)"

definition run_native_file :: "platform \<Rightarrow> string \<Rightarrow> world \<Rightarrow> int \<times> world" where
  "run_native_file p path w =
     (case spawn p path w of
        (ForkFailed, w) \<Rightarrow> (1, cerr (''[RT] fork failed while running: '' @ path @ nl) w)
      | (WaitFailed, w) \<Rightarrow> (1, cerr (''[RT] waitpid failed while running: '' @ path @ nl) w)
      | (Waited status, w) \<Rightarrow> (decode_wait_status status, w))"

definition warn_notes :: "string list \<Rightarrow> world \<Rightarrow> world" where
  "warn_notes notes w =
     fold (\<lambda>note w. if prefix ''line '' note then cerr (''[WARN] '' @ note @ nl) w else w) notes w"

definition render_ui_scene :: "platform \<Rightarrow> string \<Rightarrow> world \<Rightarrow> bool \<times> world" where
  "render_ui_scene p src_path w =
     (let (ok, scene, w) = parse_ui_scene src_path UiScene_new w
      in if \<not> ok then (False, cerr (''[ERROR] No ui directives found in '' @ src_path @ nl) w)
         else
           (let (status, scene, w) = gtk_run p scene w
            in (status = 0, warn_notes (sc_notes scene) w)))"

definition print_help :: "world \<Rightarrow> world" where
  "print_help w = cout
     (''NanLang C++ Core v4.0.0'' @ nl @
      ''Usage:'' @ nl @
      ''  nanlang_cpp --compile <src.nl> [--output <out.elf>]'' @ nl @
      ''             [--bin | --elf | --asm | --sh]'' @ nl @
      ''  nanlang_cpp --run <file.elf|script>'' @ nl @
      ''  nanlang_cpp --ui-render <scene.nl>'' @ nl @
      ''  nanlang_cpp --demo <pulse|sigbuf> [--count N] [--pattern 0xAA]'' @ nl @
      ''  nanlang_cpp --help | --version'' @ nl @ nl @
      ''Compilation Modes (all AOT '' @ em_dash @ '' no VM):'' @ nl @
      ''  --bin           Output raw binary'' @ nl @
      ''  --elf           Output ELF executable (default)'' @ nl @
      ''  --asm           Output x86_64 assembly'' @ nl @
      ''  --sh            Output self-extracting shell script'' @ nl @
      ''  --aot           Accepted for compatibility (AOT is always active)'' @ nl @ nl) w"

definition vm_removed :: "world \<Rightarrow> world" where
  "vm_removed w = cerr (''[ERROR] VM runtime removed in v4.0.0 (AOT-only).'' @ nl @
     ''        Recompile source with --elf/--bin/--sh and run native output.'' @ nl) w"

text \<open>The compilation both paths share; the errors are printed one a line.\<close>

definition aot_compile :: "bool \<Rightarrow> string \<Rightarrow> string \<Rightarrow> world \<Rightarrow> int \<times> world" where
  "aot_compile as_bin src out w =
     (let (success, ms, c, w) =
        (if as_bin then compile_to_binary match_state_init (AOTCompiler_new src) out w
         else compile_to_elf match_state_init (AOTCompiler_new src) out w)
      in if success then (0, w)
         else (1, fold (\<lambda>err. cerr (''  '' @ err @ nl)) (ac_errors c)
                    (cerr (''[ERROR] AOT compilation failed'' @ nl) w)))"

section \<open>The fast path\<close>

record compile_options =
  co_out :: string
  co_mode :: CompileOutputMode
  co_mode_count :: nat

text \<open>The options after the source path; \<open>None\<close> when \<open>--output\<close> has no value.\<close>

fun compile_option_loop :: "string list \<Rightarrow> compile_options \<Rightarrow> compile_options option" where
  "compile_option_loop [] co = Some co"
| "compile_option_loop (tok # rest) co =
     (case parse_flag_output_mode tok of
        Some m \<Rightarrow> compile_option_loop rest (co\<lparr>co_mode := m, co_mode_count := co_mode_count co + 1\<rparr>)
      | None \<Rightarrow>
          if tok = ''--aot'' then compile_option_loop rest co
          else if tok = ''--output'' then
            (case rest of [] \<Rightarrow> None | v # rest' \<Rightarrow> compile_option_loop rest' (co\<lparr>co_out := v\<rparr>))
          else if prefix ''--output='' tok then compile_option_loop rest (co\<lparr>co_out := drop 9 tok\<rparr>)
          else compile_option_loop rest co)"

definition fast_compile :: "string \<Rightarrow> string list \<Rightarrow> world \<Rightarrow> int \<times> world" where
  "fast_compile src opts w =
     (if src = [] then (1, cerr (''[ERROR] Missing compile source path.'' @ nl) w)
      else case compile_option_loop opts \<lparr>co_out = ''output.elf'', co_mode = Elf, co_mode_count = 0\<rparr> of
        None \<Rightarrow> (1, cerr (''[ERROR] Missing value for --output'' @ nl) w)
      | Some co \<Rightarrow>
          if 1 < co_mode_count co
          then (1, cerr (''[ERROR] choose only one output mode: --bin, --elf, --asm or --sh'' @ nl) w)
          else aot_compile (co_mode co = Bin) src (co_out co) w)"

definition run_target :: "platform \<Rightarrow> string \<Rightarrow> world \<Rightarrow> int \<times> world" where
  "run_target p target w =
     (if has_nan3_magic target w then (1, vm_removed w) else run_native_file p target w)"

text \<open>\<open>None\<close>: the fast path does not apply (\<open>argv\<close> includes the program name).\<close>

definition fast_path_compile_run :: "platform \<Rightarrow> string list \<Rightarrow> world \<Rightarrow> (int \<times> world) option" where
  "fast_path_compile_run p argv w =
     (if 3 \<le> length argv \<and> argv ! 1 = ''--ui-render'' then
        Some (if argv ! 2 = [] then (1, cerr (''[ERROR] Missing UI scene path.'' @ nl) w)
              else (let (ok, w) = render_ui_scene p (argv ! 2) w in (if ok then 0 else 1, w)))
      else if 3 \<le> length argv \<and> argv ! 1 = ''--compile'' then Some (fast_compile (argv ! 2) (drop 3 argv) w)
      else if 3 \<le> length argv \<and> argv ! 1 = ''--run'' then
        Some (if argv ! 2 = [] then (1, cerr (''[ERROR] Missing executable file path.'' @ nl) w)
              else run_target p (argv ! 2) w)
      else None)"

section \<open>main\<close>

text \<open>The two demonstrations; \<open>None\<close> would be a loop that does not end.\<close>

definition run_demo :: "platform \<Rightarrow> Args \<Rightarrow> world \<Rightarrow> (int \<times> world) option" where
  "run_demo p args w =
     (let demo_name = args_get args ''demo'' ''pulse''
      in if demo_name = ''pulse'' then
           (let count = args_get_int args ''count'' 64;
                pattern = word_of_int (args_get_int args ''pattern'' 0xAA) AND 0xFF
            in Some (0, run_pulse_emitter_demo (built_with_avx2 p) (tsc_first p) (tsc_second p) count pattern w))
         else if demo_name = ''sigbuf'' then
           map_option (Pair 0) (run_signal_buffer_demo (args_get_int args ''count'' 64) w)
         else Some (1, cerr (''[ERROR] Unknown demo: '' @ demo_name @ nl) w))"

definition slow_path :: "platform \<Rightarrow> Args \<Rightarrow> world \<Rightarrow> (int \<times> world) option" where
  "slow_path p args w =
     (if args_has args ''help'' then Some (0, print_help w)
      else if args_has args ''version'' then Some (0, cout (''NanLang C++ Core v4.0.0'' @ nl) w)
      else if args_has args ''ui-render'' then
        (let src = args_get args ''ui-render'' []
         in Some (if src = [] \<or> src = ''true'' then (1, cerr (''[ERROR] Missing UI scene path.'' @ nl) w)
                  else (let (ok, w) = render_ui_scene p src w in (if ok then 0 else 1, w))))
      else if args_has args ''compile'' then
        (let src = args_get args ''compile'' []
         in Some (if src = [] \<or> src = ''true'' then (1, cerr (''[ERROR] Missing compile source path.'' @ nl) w)
                  else aot_compile (args_has args ''bin'') src (args_get args ''output'' ''output.elf'') w))
      else if args_has args ''run'' then
        (let target = args_get args ''run'' []
         in Some (if target = [] \<or> target = ''true'' then (1, cerr (''[ERROR] Missing executable file path.'' @ nl) w)
                  else run_target p target w))
      else if args_has args ''demo'' then run_demo p args w
      else Some (1, cerr (''[ERROR] Invalid arguments. Use --help.'' @ nl) w))"

definition main :: "platform \<Rightarrow> string list \<Rightarrow> world \<Rightarrow> (int \<times> world) option" where
  "main p argv w =
     (case fast_path_compile_run p argv w of
        Some r \<Rightarrow> Some r
      | None \<Rightarrow>
          if length argv < 2 then Some (1, print_help w)
          else slow_path p (parse_args (drop 1 argv) Args_new) w)"

section \<open>Options\<close>

lemma option_loop_count:
  "compile_option_loop opts co = Some r \<Longrightarrow> co_mode_count co \<le> co_mode_count r"
proof (induction opts co rule: compile_option_loop.induct)
  case (2 tok rest co)
  show ?case
  proof (cases "parse_flag_output_mode tok")
    case (Some m)
    then show ?thesis using 2(5) [OF Some] 2(6) by simp
  next
    case None
    consider (aot) "tok = ''--aot''" | (out) "tok = ''--output''" | (other) "tok \<noteq> ''--aot''" "tok \<noteq> ''--output''" by blast
    then show ?thesis
    proof cases
      case aot
      then show ?thesis using 2(1) [OF None aot] 2(6) None by simp
    next
      case out
      then show ?thesis using 2(2) [OF None _ out] 2(6) None by (cases rest) simp_all
    next
      case other
      then show ?thesis using 2(3,4) [OF None other] 2(6) None by (simp split: if_splits)
    qed
  qed
qed simp

text \<open>The mode before the loop matters only when no option names one.\<close>

definition keep_mode :: "nat \<Rightarrow> CompileOutputMode \<Rightarrow> compile_options \<Rightarrow> compile_options" where
  "keep_mode n m r = (if co_mode_count r = n then r\<lparr>co_mode := m\<rparr> else r)"

lemma option_loop_mode:
  "compile_option_loop opts (co\<lparr>co_mode := m\<rparr>) =
     map_option (keep_mode (co_mode_count co) m) (compile_option_loop opts co)"
proof (induction opts co rule: compile_option_loop.induct)
  case (1 co)
  show ?case by (simp add: keep_mode_def)
next
  case (2 tok rest co)
  show ?case
  proof (cases "parse_flag_output_mode tok")
    case (Some k)
    define r where "r = compile_option_loop rest (co\<lparr>co_mode := k, co_mode_count := co_mode_count co + 1\<rparr>)"
    have "map_option (keep_mode (co_mode_count co) m) r = r"
      using option_loop_count [of rest "co\<lparr>co_mode := k, co_mode_count := co_mode_count co + 1\<rparr>", folded r_def]
      by (cases r) (auto simp: keep_mode_def)
    then show ?thesis using Some by (simp add: r_def)
  next
    case None
    have c: "co\<lparr>co_mode := m, co_out := v\<rparr> = co\<lparr>co_out := v, co_mode := m\<rparr>" for v by simp
    consider (aot) "tok = ''--aot''" | (out) "tok = ''--output''" | (other) "tok \<noteq> ''--aot''" "tok \<noteq> ''--output''" by blast
    then show ?thesis
    proof cases
      case aot
      then show ?thesis using 2(1) [OF None aot] None by simp
    next
      case out
      then show ?thesis using 2(2) [OF None _ out] None by (cases rest) (simp_all add: c)
    next
      case other
      then show ?thesis using 2(3,4) [OF None other] None by (cases "prefix ''--output='' tok") (simp_all add: c)
    qed
  qed
qed

section \<open>Byte code files keep their magic\<close>

definition grows :: "bc_compile \<Rightarrow> string + bc_compile \<Rightarrow> bool" where
  "grows s r \<longleftrightarrow> (case r of Inl _ \<Rightarrow> True | Inr s' \<Rightarrow> prefix (bc s) (bc s'))"

lemma grows_intros:
  "grows s (Inl msg)" "prefix (bc s) (bc s') \<Longrightarrow> grows s (Inr s')"
  "grows s a \<Longrightarrow> grows s b \<Longrightarrow> grows s (if c then a else b)"
  "(\<And>x. grows s (f x)) \<Longrightarrow> grows s b \<Longrightarrow> grows s (case opt of None \<Rightarrow> b | Some x \<Rightarrow> f x)"
  "(\<And>x y. grows s (g x y)) \<Longrightarrow> grows s (case p of (x, y) \<Rightarrow> g x y)"
  by (auto simp: grows_def split: option.split prod.split)

lemma grows_mmio: "grows s (mmio_line line s)"
  unfolding mmio_line_def Let_def
  by (intro grows_intros) (simp_all add: bc_warn_def emit_store_sequence_def)

lemma grows_line: "grows s (bc_line l s)"
proof -
  have m: "grows s (mmio_line line (s\<lparr>bc_line_no := n\<rparr>))" for line n
    using grows_mmio [of "s\<lparr>bc_line_no := n\<rparr>" line]
    by (cases "mmio_line line (s\<lparr>bc_line_no := n\<rparr>)") (simp_all add: grows_def)
  show ?thesis
    unfolding bc_line_def Let_def
    by (intro grows_intros m) (simp_all add: bc_warn_def emit_store_sequence_def)
qed

lemma fold_lines_grows: "fold_lines bc_line ls s = Inr s' \<Longrightarrow> prefix (bc s) (bc s')"
proof (induction ls arbitrary: s)
  case (Cons l ls)
  then obtain s1 where s1: "bc_line l s = Inr s1" "fold_lines bc_line ls s1 = Inr s'"
    by (auto split: sum.splits)
  then have "prefix (bc s) (bc s1)" using grows_line [of s l] by (simp add: grows_def)
  then show ?case using Cons.IH [OF s1(2)] by (metis prefix_order.trans)
qed simp

lemma compiled_has_magic:
  assumes "read_text w src = Some content" "compile_source src out w = (True, w')"
  shows "has_nan3_magic out w'"
proof -
  obtain s where s: "fold_lines bc_line (getlines content) bc_init = Inr s"
    "read_file w' out = Some (bc (bc_finish s))"
    using compile_source_stores [OF assms] by blast
  have "prefix MAGIC_BYTES (bc s)" using fold_lines_grows [OF s(1)] by (simp add: bc_init_def)
  then have "prefix MAGIC_BYTES (bc (bc_finish s))" by (simp add: bc_finish_def)
  then show ?thesis
    using s(2) by (auto simp: has_nan3_magic_def prefix_def MAGIC_BYTES_def)
qed

text \<open>A platform for concrete runs: programs cannot be started, windows close at once.\<close>

definition sample_platform :: platform where
  "sample_platform = \<lparr>spawn = (\<lambda>_ w. (ForkFailed, w)), gtk_run = (\<lambda>s w. (0, s, w)),
     tsc_first = 0, tsc_second = 100, built_with_avx2 = True\<rparr>"

section \<open>Properties\<close>

lemma aot_compile_success:
  assumes "aot_compile as_bin src out w = (0, w')"
  shows "\<exists>ms c. (if as_bin then compile_to_binary else compile_to_elf) match_state_init (AOTCompiler_new src) out w =
    (True, ms, c, w')"
  using assms by (auto simp: aot_compile_def split: prod.splits if_splits)

lemma aot_compile_readable:
  assumes "aot_compile as_bin src out w = (0, w')"
  shows "\<exists>text. read_text w src = Some text \<and> getlines text \<noteq> []"
proof -
  obtain ms c where "compile_to_native match_state_init (AOTCompiler_new src) out (\<not> as_bin) w = (True, ms, c, w')"
    using aot_compile_success [OF assms] by (cases as_bin) (auto simp: compile_to_elf_def compile_to_binary_def)
  from compile_to_native_needs_lines [OF this] show ?thesis by (simp add: AOTCompiler_new_def)
qed

lemma unreadable_source:
  assumes "read_text w src = None"
  shows "fst (aot_compile as_bin src out w) = 1"
proof -
  obtain rc w' where r: "aot_compile as_bin src out w = (rc, w')" by fastforce
  then have "rc \<noteq> 0" using aot_compile_readable [of as_bin src out w w'] assms by auto
  then show ?thesis using r by (auto simp: aot_compile_def split: prod.splits if_splits)
qed

lemma aot_compile_can:
  assumes "read_text w src = Some text" "getlines text \<noteq> []" "can_create w out" "disk_room w out = None"
  shows "\<exists>w'. aot_compile as_bin src out w = (0, w')"
proof -
  have "read_text w (ac_source_path (AOTCompiler_new src)) = Some text" using assms(1) by (simp add: AOTCompiler_new_def)
  from compile_to_native_succeeds [OF this assms(2-4), of match_state_init "\<not> as_bin"] show ?thesis
    by (cases as_bin) (auto simp: aot_compile_def compile_to_elf_def compile_to_binary_def)
qed

text \<open>What a compiled file does: an ELF executable is loaded, raw code runs wherever it is put.\<close>

definition file_runs :: "CompileOutputMode \<Rightarrow> byte list \<Rightarrow> byte list \<Rightarrow> bool" where
  "file_runs mode file shown \<longleftrightarrow>
     (if mode = Bin
      then \<forall>base. \<exists>n. run n \<lparr>m_base = base, m_image = file, m_regs = (\<lambda>_. 0), m_rip = base, m_out = []\<rparr> = Exited 0 shown
      else \<exists>m n. elf_load file = Some m \<and> run n m = Exited 0 shown)"

lemma aot_compile_runs:
  assumes "aot_compile (mode = Bin) src out w = (0, w')" "read_text w src = Some text" "getlines text \<noteq> []"
    and "length (source_code match_state_init text) + 120 < 2 ^ 31"
  shows "\<exists>file shown. read_file w' out = Some file \<and> source_output match_state_init text = Some shown \<and>
    file_runs mode file (bytes_of shown)"
proof (cases "mode = Bin")
  case True
  then obtain ms c where "compile_to_binary match_state_init (AOTCompiler_new src) out w = (True, ms, c, w')"
    using aot_compile_success [OF assms(1)] by auto
  from compiled_raw_runs [OF assms(2,3) this] assms(4) show ?thesis by (auto simp: file_runs_def True)
next
  case False
  then obtain ms c where "compile_to_elf match_state_init (AOTCompiler_new src) out w = (True, ms, c, w')"
    using aot_compile_success [OF assms(1)] by auto
  from compiled_elf_runs [OF assms(2,3) this assms(4)] show ?thesis by (auto simp: file_runs_def False)
qed

text \<open>
  C2. The command \<open>--compile src\<close> with any options after it. When it exits with 0, its options name at
  most one output mode and every \<open>--output\<close> has its value, the source can be read and has a line, and
  when the code and header are below \<open>2 ^ 31\<close> bytes the file at the output path
  (\<open>output.elf\<close> unless an option names another) prints what the source says and exits with status 0:
  with \<open>--bin\<close> it is raw code that does so at whatever address it is put, with every other mode it
  loads as an ELF executable. And the command does exit with 0 when the options are accepted, the source can be
  read and has a line, and the output can be written.
\<close>

theorem compile_command_correct:
  "(\<forall>w'. main p (pname # ''--compile'' # src # opts) w = Some (0, w') \<longrightarrow>
     (\<exists>co text. compile_option_loop opts \<lparr>co_out = ''output.elf'', co_mode = Elf, co_mode_count = 0\<rparr> = Some co \<and>
        co_mode_count co \<le> 1 \<and> read_text w src = Some text \<and> getlines text \<noteq> [] \<and>
        (length (source_code match_state_init text) + 120 < 2 ^ 31 \<longrightarrow>
           (\<exists>file shown. read_file w' (co_out co) = Some file \<and> source_output match_state_init text = Some shown \<and>
              file_runs (co_mode co) file (bytes_of shown))))) \<and>
   (\<forall>co text. compile_option_loop opts \<lparr>co_out = ''output.elf'', co_mode = Elf, co_mode_count = 0\<rparr> = Some co \<and>
        co_mode_count co \<le> 1 \<and> src \<noteq> [] \<and> read_text w src = Some text \<and> getlines text \<noteq> [] \<and>
        can_create w (co_out co) \<and> disk_room w (co_out co) = None \<longrightarrow>
      (\<exists>w'. main p (pname # ''--compile'' # src # opts) w = Some (0, w')))"
proof -
  let ?co = "\<lparr>co_out = ''output.elf'', co_mode = Elf, co_mode_count = 0 :: nat\<rparr>"
  have m: "main p (pname # ''--compile'' # src # opts) w = Some (fast_compile src opts w)"
    by (simp add: main_def fast_path_compile_run_def)
  have exits: "\<exists>co text. compile_option_loop opts ?co = Some co \<and> co_mode_count co \<le> 1 \<and> read_text w src = Some text \<and>
      getlines text \<noteq> [] \<and> (length (source_code match_state_init text) + 120 < 2 ^ 31 \<longrightarrow>
        (\<exists>file shown. read_file w' (co_out co) = Some file \<and> source_output match_state_init text = Some shown \<and>
          file_runs (co_mode co) file (bytes_of shown)))" if ex: "fast_compile src opts w = (0, w')" for w'
  proof -
    obtain co where co: "compile_option_loop opts ?co = Some co"
      using ex by (cases "compile_option_loop opts ?co") (simp_all add: fast_compile_def split: if_splits)
    then have co: "compile_option_loop opts ?co = Some co" "co_mode_count co \<le> 1"
      "aot_compile (co_mode co = Bin) src (co_out co) w = (0, w')"
      using ex by (simp_all add: fast_compile_def split: if_splits)
    then show ?thesis using aot_compile_readable [OF co(3)] aot_compile_runs [OF co(3)] by blast
  qed
  have can: "\<exists>w'. fast_compile src opts w = (0, w')"
    if "compile_option_loop opts ?co = Some co \<and> co_mode_count co \<le> 1 \<and> src \<noteq> [] \<and> read_text w src = Some text \<and>
      getlines text \<noteq> [] \<and> can_create w (co_out co) \<and> disk_room w (co_out co) = None" for co "text"
    using that aot_compile_can [of w src "text" "co_out co" "co_mode co = Bin"] by (simp add: fast_compile_def)
  show ?thesis unfolding m option.inject using exits can by blast
qed

lemma compile_command_correct_witness:
  "\<exists>w' file shown. main sample_platform [''nan'', ''--compile'', ''a.nl'', ''--bin'', ''--output'', ''out'']
       (sample_world ''a.nl'' hello_source) = Some (0, w') \<and>
     read_file w' ''out'' = Some file \<and> source_output match_state_init hello_source = Some shown \<and>
     file_runs Bin file (bytes_of shown)"
proof -
  let ?w = "sample_world ''a.nl'' hello_source"
  have co: "compile_option_loop [''--bin'', ''--output'', ''out''] \<lparr>co_out = ''output.elf'', co_mode = Elf, co_mode_count = 0\<rparr> =
      Some \<lparr>co_out = ''out'', co_mode = Bin, co_mode_count = 1\<rparr>"
    by (simp add: parse_flag_output_mode_def)
  note c = compile_command_correct [of sample_platform "''nan''" "''a.nl''" "[''--bin'', ''--output'', ''out'']" ?w,
      unfolded co option.inject]
  obtain w' where w': "main sample_platform [''nan'', ''--compile'', ''a.nl'', ''--bin'', ''--output'', ''out''] ?w = Some (0, w')"
    using conjunct2 [OF c] by (auto simp: hello_lines)
  then show ?thesis using conjunct1 [OF c] by (fastforce simp: hello_size)
qed

text \<open>
  The options \<open>--asm\<close> and \<open>--sh\<close> of the compile command mean \<open>--elf\<close>: whatever options follow,
  the command does the same as with \<open>--elf\<close>, although the help text promises an assembly
  listing and a shell script.
\<close>

theorem asm_and_sh_mean_elf:
  assumes "flag = ''--asm'' \<or> flag = ''--sh''"
  shows "main p (pname # ''--compile'' # src # flag # opts) w = main p (pname # ''--compile'' # src # ''--elf'' # opts) w"
proof -
  define co where "co = \<lparr>co_out = ''output.elf'', co_mode = Elf, co_mode_count = 1\<rparr>"
  obtain k where k: "parse_flag_output_mode flag = Some k" "k \<noteq> Bin"
    using assms by (auto simp: parse_flag_output_mode_def)
  have f: "parse_flag_output_mode ''--elf'' = Some Elf" by (simp add: parse_flag_output_mode_def)
  have "compile_option_loop opts (co\<lparr>co_mode := k\<rparr>) = map_option (keep_mode 1 k) (compile_option_loop opts co)"
    "compile_option_loop opts co = map_option (keep_mode 1 Elf) (compile_option_loop opts co)"
    using option_loop_mode [where opts = opts and co = co and m = k]
      option_loop_mode [where opts = opts and co = co and m = Elf] by (simp_all add: co_def)
  moreover from this(2) have "co_mode r = Elf" if "compile_option_loop opts co = Some r" "co_mode_count r = 1" for r
    using that by (auto simp: keep_mode_def dest: arg_cong [where f = co_mode])
  ultimately have "fast_compile src (flag # opts) w = fast_compile src (''--elf'' # opts) w"
    using k f
    by (cases "compile_option_loop opts co") (auto simp: fast_compile_def co_def keep_mode_def split: if_splits)
  then show ?thesis by (simp add: main_def fast_path_compile_run_def)
qed

lemma asm_and_sh_mean_elf_witness:
  "main sample_platform [''nan'', ''--compile'', ''a.nl'', ''--sh''] (sample_world [] []) =
   main sample_platform [''nan'', ''--compile'', ''a.nl'', ''--elf''] (sample_world [] [])"
  by (rule asm_and_sh_mean_elf) simp

text \<open>
  The byte code compiler and the command line do not meet: every file \<open>compile_source\<close>
  writes begins with the NAN3 magic, so \<open>--run\<close> refuses it with exit code 1 and leaves
  everything but the error output alone.
\<close>

theorem bytecode_is_refused:
  assumes "read_text w src = Some content" and "compile_source src out w = (True, w')" and "out \<noteq> []"
  shows "main p (pname # ''--run'' # out # rest) w' = Some (1, vm_removed w')"
  using compiled_has_magic [OF assms(1,2)] assms(3)
  by (simp add: main_def fast_path_compile_run_def run_target_def)

lemma bytecode_is_refused_witness:
  "\<exists>w'. compile_source ''a.nl'' ''out'' (sample_world ''a.nl'' ''halt;'') = (True, w') \<and>
     main sample_platform [''nan'', ''--run'', ''out''] w' = Some (1, vm_removed w')"
proof -
  have "fst (compile_source ''a.nl'' ''out'' (sample_world ''a.nl'' ''halt;''))"
    by code_simp
  then obtain w' where c: "compile_source ''a.nl'' ''out'' (sample_world ''a.nl'' ''halt;'') = (True, w')"
    by (metis prod.collapse)
  show ?thesis using bytecode_is_refused [OF _ c] c by simp
qed

end
