(* ===== verification/Aot_Say.thy ===== *)
theory Aot_Say
  imports Aot_Compiler
begin

text \<open>
  What the line parser of the AOT compiler (\<open>Parser::parse\<close>, \<open>src/nan_aot_compiler.cpp\<close>) makes
  of a program of \<open>say\<close> statements: the specification \<open>source_output\<close> of the theory
  \<open>Aot_Compiler\<close>, computed on such sources.
\<close>

definition quote :: char where "quote = CHR 0x22"

definition aot_say :: "string \<Rightarrow> string" where
  "aot_say t = ''say '' @ [quote] @ t @ [quote] @ '';''"

text \<open>Texts a literal can hold as they are.\<close>

definition literal_text :: "string \<Rightarrow> bool" where
  "literal_text t \<longleftrightarrow> quote \<notin> set t \<and> CHR 0x5C \<notin> set t \<and> CHR 0x0A \<notin> set t"

section \<open>Cleaning keeps the line\<close>

lemma strip_in_string:
  "quote \<notin> set t \<Longrightarrow> aot_strip_comment True (t @ quote # '';'') = t @ quote # '';''"
proof (induction t)
  case (Cons c t)
  then show ?case by (cases t) (auto simp: quote_def)
qed (simp add: quote_def)

lemma strip_aot_say:
  assumes "quote \<notin> set t"
  shows "aot_strip_comment False (aot_say t) = aot_say t"
proof -
  have "aot_strip_comment True (quote # '';'') = quote # '';''" by (simp add: quote_def)
  moreover have "aot_strip_comment False (quote # t @ quote # '';'') = quote # aot_strip_comment True (t @ quote # '';'')"
    by (cases t) (simp_all add: quote_def)
  ultimately show ?thesis
    using strip_in_string [OF assms] by (simp add: aot_say_def quote_def)
qed

lemma aot_say_parts:
  "aot_say t \<noteq> []" "hd (aot_say t) = CHR ''s''" "last (aot_say t) = CHR '';''"
  by (simp_all add: aot_say_def)

lemma clean_aot_say: "quote \<notin> set t \<Longrightarrow> aot_clean_line (aot_say t) = aot_say t"
  by (simp add: aot_clean_line_def strip_aot_say trim_by_id aot_say_parts is_blank_def)

lemma aot_say_kind:
  "\<not> aot_skip_line (aot_say t)" "\<not> prefix ''match '' (aot_say t)" "prefix ''say '' (aot_say t)"
  by (simp_all add: aot_skip_line_def aot_say_def)

lemma aot_unescape_plain: "CHR 0x5C \<notin> set t \<Longrightarrow> aot_unescape t = t"
  by (induction t rule: aot_unescape.induct) auto

lemma parse_aot_say:
  assumes "literal_text t"
  shows "parse_say (aot_say t) = Some (t @ [CHR 0x0A])"
proof -
  have q: "CHR 0x22 \<notin> set t" "CHR 0x5C \<notin> set t" using assms by (auto simp: literal_text_def quote_def)
  have f: "find_char (CHR 0x22) (aot_say t) = Some 4"
    by (simp add: aot_say_def quote_def)
  have "rfind_char (CHR 0x22) (''say '' @ [quote] @ t @ [quote] @ '';'') = Some (5 + length t)"
    by (simp add: quote_def rfind_char_append)
  then have r: "rfind_char (CHR 0x22) (aot_say t) = Some (5 + length t)" by (simp add: aot_say_def)
  have "substr (aot_say t) 5 (length t) = t"
    by (simp add: substr_def aot_say_def quote_def)
  then show ?thesis
    by (simp add: parse_say_def f r aot_unescape_plain q)
qed

section \<open>Arrows\<close>

lemma find_arrow_tail:
  "find_sub ''=>'' (t @ [quote] @ '';'') = find_sub ''=>'' t"
proof (induction t)
  case (Cons c t)
  have "prefix ''=>'' (c # t @ [quote] @ '';'') \<longleftrightarrow> prefix ''=>'' (c # t)"
    by (cases t) (simp_all add: quote_def)
  then show ?case using Cons by simp
qed (simp add: quote_def)

lemma find_arrow: "find_sub ''=>'' (aot_say t) = map_option (\<lambda>i. i + 5) (find_sub ''=>'' t)"
proof -
  have "find_sub ''=>'' (aot_say t) = map_option (\<lambda>i. i + 5) (find_sub ''=>'' (t @ [quote] @ '';''))"
    by (simp add: aot_say_def quote_def option.map_comp comp_def numeral_eq_Suc)
  then show ?thesis by (simp only: find_arrow_tail)
qed

lemma trim_keeps_first:
  assumes "s \<noteq> []" "\<not> P (hd s)"
  shows "\<exists>r. trim_by P s = hd s # r"
proof -
  obtain c r where s: "s = c # r" "\<not> P c" using assms by (cases s) auto
  then have "trim_by P s = c # rev (dropWhile P (rev r))"
    by (auto simp: trim_by_def dropWhile_append3 dropWhile_append dropWhile_eq_Nil_conv)
  then show ?thesis using s by simp
qed

lemma parse_line_say:
  assumes "literal_text t" "current_match_val s = []"
  shows "parse_line s (aot_say t) =
     (if find_sub ''=>'' t = None then s\<lparr>block_instrs := block_instrs s @ [print_instr (t @ [CHR 0x0A])]\<rparr> else s)"
proof (cases "find_sub ''=>'' t")
  case None
  then show ?thesis
    using assms
    by (simp add: parse_line_def clean_aot_say literal_text_def aot_say_kind find_arrow Let_def
        parse_statement_line_def parse_aot_say)
next
  case (Some i)
  have "take (i + 5) (aot_say t) \<noteq> []" "hd (take (i + 5) (aot_say t)) = CHR ''s''"
    by (simp_all add: aot_say_def)
  then obtain r where r: "trim_by is_blank (take (i + 5) (aot_say t)) = CHR ''s'' # r"
    using trim_keeps_first [of "take (i + 5) (aot_say t)" is_blank] by (auto simp: is_blank_def)
  show ?thesis
    using assms Some
    by (simp add: parse_line_def clean_aot_say literal_text_def aot_say_kind find_arrow Let_def r)
qed

lemma parse_lines_say:
  "\<forall>t \<in> set ts. literal_text t \<Longrightarrow> current_match_val s = [] \<Longrightarrow>
   foldl parse_line s (map aot_say ts) =
     s\<lparr>block_instrs := block_instrs s @
        map (\<lambda>t. print_instr (t @ [CHR 0x0A])) (filter (\<lambda>t. find_sub ''=>'' t = None) ts)\<rparr>"
  by (induction ts arbitrary: s) (simp_all add: parse_line_say)

lemma items_output:
  "item_output (map (\<lambda>t. Print (t @ [CHR 0x0A])) ts @ [Exit]) = Some (concat (map (\<lambda>t. t @ [CHR 0x0A]) ts))"
  by (induction ts) simp_all

section \<open>Property\<close>

text \<open>
  A program of \<open>say\<close> statements with texts free of quotes, backslashes and line ends,
  compiled by the AOT compiler, prints in order, one a line, exactly those texts that do not
  contain \<open>=>\<close>: a text that does is taken for an arm of a \<open>match\<close> and dropped.
\<close>

theorem aot_say_program_prints:
  assumes "\<forall>t \<in> set ts. literal_text t"
  shows "source_output match_state_init (unlines (map aot_say ts)) =
     Some (concat (map (\<lambda>t. t @ [CHR 0x0A]) (filter (\<lambda>t. find_sub ''=>'' t = None) ts)))"
proof -
  have "\<forall>l \<in> set (map aot_say ts). CHR 0x0A \<notin> set l"
    using assms by (auto simp: literal_text_def aot_say_def quote_def)
  then have l: "getlines (unlines (map aot_say ts)) = map aot_say ts" by (rule getlines_unlines)
  have "foldl parse_line (parse_init match_state_init) (map aot_say ts) =
      (parse_init match_state_init)\<lparr>block_instrs :=
         map (\<lambda>t. print_instr (t @ [CHR 0x0A])) (filter (\<lambda>t. find_sub ''=>'' t = None) ts)\<rparr>"
    using parse_lines_say [OF assms, of "parse_init match_state_init"]
    by (simp add: parse_init_def match_state_init_def)
  then show ?thesis
    using items_output
    by (simp add: source_output_def parsed_instrs_def l parse_init_def match_state_init_def item_of_def
        print_instr_def halt_instr_def IRInstruction_op_def comp_def)
qed

lemma aot_say_program_prints_witness:
  "source_output match_state_init (unlines (map aot_say [''a'', ''b=>c''])) = Some (''a'' @ [CHR 0x0A])"
  using aot_say_program_prints [of "[''a'', ''b=>c'']"]
  by (simp add: literal_text_def quote_def)

end
