(* ===== verification/Npi.thy ===== *)
theory Npi
  imports World
begin

text \<open>
  The package library of the command-line tools (\<open>src/src/nan_cli_lib.cpp\<close>): requirement files,
  configuration, dependency staging, the manifest, the compiler call and the search for the
  tools. C++ exceptions are the values of \<open>exn\<close>; an operation that may throw returns
  \<open>exn + 'a\<close> with the state reached, so that what was printed or written before the exception
  stays. \<open>host\<close> adds to the world what \<open>std::filesystem\<close> and the process see: further existing
  paths, where directories can be made, which paths can be removed, the link \<open>/proc/self/exe\<close>, the
  name \<open>mkstemps\<close> takes and the rendering of the elapsed seconds and of a file system error. The shell is the parameter \<open>sys\<close>, from a command line to
  the status \<open>std::system\<close> returns.
\<close>

section \<open>The host\<close>

datatype exn = Runtime_error string | Filesystem_error string

record host =
  hw :: world
  present :: "string \<Rightarrow> bool"
  can_mkdir :: "string \<Rightarrow> bool"
  can_unlink :: "string \<Rightarrow> bool"
  exe_link :: "string option"
  temp_name :: "string option"
  clock_text :: string
  fs_what :: "string \<Rightarrow> string"

type_synonym 'a throwing = "(exn + 'a) \<times> host"
type_synonym shell = "string \<Rightarrow> host \<Rightarrow> int \<times> host"

text \<open>Sequencing: an exception skips the rest.\<close>

definition and_then :: "'a throwing \<Rightarrow> ('a \<Rightarrow> host \<Rightarrow> 'b throwing) \<Rightarrow> 'b throwing" where
  "and_then r f = (case r of (Inl e, h) \<Rightarrow> (Inl e, h) | (Inr x, h) \<Rightarrow> f x h)"

definition on_world :: "(world \<Rightarrow> world) \<Rightarrow> host \<Rightarrow> host" where
  "on_world f h = h\<lparr>hw := f (hw h)\<rparr>"

abbreviation say :: "string \<Rightarrow> host \<Rightarrow> host" where
  "say s \<equiv> on_world (cout s)"

definition eol :: string where "eol = [CHR 0x0A]"

definition dash :: string where "dash = map char_of [0xE2, 0x80, 0x94 :: nat]"

definition fs_exists :: "host \<Rightarrow> string \<Rightarrow> bool" where
  "fs_exists h p \<longleftrightarrow> files (hw h) p \<noteq> None \<or> present h p"

text \<open>\<open>fs::create_directories\<close>; the empty path is an error; the directories above
  the path are made too.\<close>

definition create_directories :: "string \<Rightarrow> host \<Rightarrow> unit throwing" where
  "create_directories p h =
     (if p = [] \<or> \<not> can_mkdir h p then (Inl (Filesystem_error p), h)
      else (Inr (), h\<lparr>present := (\<lambda>q. present h q \<or> q = p \<or> (q \<noteq> [] \<and> prefix (q @ ''/'') p))\<rparr>))"

text \<open>\<open>std::ofstream out(path); out << text\<close>, with no look at the stream's state.\<close>

definition put_file :: "string \<Rightarrow> string \<Rightarrow> host \<Rightarrow> host" where
  "put_file p t = on_world (\<lambda>w. case write_file p (bytes_of t) w of None \<Rightarrow> w | Some (_, w') \<Rightarrow> w')"

text \<open>
  \<open>fs::remove\<close>, which throws when the system refuses (a directory that is not empty, a directory
  that may not be written); a path that does not exist is no error.
\<close>

definition fs_remove :: "string \<Rightarrow> host \<Rightarrow> unit throwing" where
  "fs_remove p h =
     (if \<not> can_unlink h p then (Inl (Filesystem_error p), h)
      else (Inr (), (on_world (\<lambda>w. w\<lparr>files := (files w)(p := None)\<rparr>) h)\<lparr>present := (present h)(p := False)\<rparr>))"

section \<open>Paths\<close>

text \<open>\<open>operator/\<close> of \<open>fs::path\<close> on POSIX.\<close>

definition path_append :: "string \<Rightarrow> string \<Rightarrow> string" where
  "path_append a b =
     (if b \<noteq> [] \<and> hd b = CHR ''/'' then b
      else if a = [] \<or> last a = CHR ''/'' then a @ b
      else a @ CHR ''/'' # b)"

text \<open>\<open>parent_path\<close>: the last component goes, then the separators before it, but not the root.\<close>

definition parent_path :: "string \<Rightarrow> string" where
  "parent_path p =
     (let r = dropWhile (\<lambda>c. c \<noteq> CHR ''/'') (rev p);
          d = rev (dropWhile (\<lambda>c. c = CHR ''/'') r)
      in if d = [] \<and> r \<noteq> [] then [CHR ''/''] else d)"

fun split_at :: "char \<Rightarrow> string \<Rightarrow> string list" where
  "split_at x [] = [[]]"
| "split_at x (c # cs) =
     (if c = x then [] # split_at x cs
      else (case split_at x cs of [] \<Rightarrow> [[c]] | p # ps \<Rightarrow> (c # p) # ps))"

fun join_path :: "string list \<Rightarrow> string" where
  "join_path [] = []"
| "join_path [p] = p"
| "join_path (p # q # ps) = p @ CHR ''/'' # join_path (q # ps)"

text \<open>
  \<open>lexically_normal\<close> on the paths the program builds, which end in a file name: empty and \<open>.\<close>
  components go, \<open>..\<close> removes the component before it.
\<close>

fun normal_step :: "bool \<Rightarrow> string list \<Rightarrow> string list \<Rightarrow> string list" where
  "normal_step root acc [] = rev acc"
| "normal_step root acc (c # cs) =
     (if c = [] \<or> c = ''.'' then normal_step root acc cs
      else if c = ''..'' then
        (case acc of
           a # acc' \<Rightarrow> if a = ''..'' then normal_step root (c # acc) cs else normal_step root acc' cs
         | [] \<Rightarrow> if root then normal_step root [] cs else normal_step root [c] cs)
      else normal_step root (c # acc) cs)"

definition lexically_normal :: "string \<Rightarrow> string" where
  "lexically_normal p =
     (if p = [] then []
      else
        (let root = (hd p = CHR ''/''); s = join_path (normal_step root [] (split_at (CHR ''/'') p))
         in if root then CHR ''/'' # s else if s = [] then ''.'' else s))"

section \<open>Text helpers\<close>

definition cli_trim :: "string \<Rightarrow> string" where
  "cli_trim s = trim_by isspace s"

function split_ws :: "string \<Rightarrow> string list" where
  "split_ws s =
     (case dropWhile isspace s of [] \<Rightarrow> []
      | c # cs \<Rightarrow> takeWhile (\<lambda>c. \<not> isspace c) (c # cs) # split_ws (dropWhile (\<lambda>c. \<not> isspace c) (c # cs)))"
  by auto
termination
proof (relation "measure length")
  fix s c cs assume d: "dropWhile isspace s = c # cs"
  have "\<not> isspace c" using hd_dropWhile [of isspace s] d by simp
  then have "length (dropWhile (\<lambda>c. \<not> isspace c) (c # cs)) \<le> length cs"
    by (simp add: length_dropWhile_le)
  also have "\<dots> < length s" using length_dropWhile_le [of isspace s] d by simp
  finally show "(dropWhile (\<lambda>c. \<not> isspace c) (c # cs), s) \<in> measure length" by simp
qed simp

declare split_ws.simps [simp del]

definition quoted :: "string \<Rightarrow> string" where
  "quoted s = CHR 0x22 # s @ [CHR 0x22]"

definition full_banner :: string where
  "full_banner = ''nanlang'' @ '' v'' @ ''4.0.0'' @ '' '' @ dash @ '' NanLang Unified Monorepo''"

section \<open>Shell commands\<close>

text \<open>A quote inside the argument becomes \<open>'"'"'\<close>.\<close>

definition squote :: char where "squote = CHR 0x27"

fun quote_body :: "string \<Rightarrow> string" where
  "quote_body [] = [squote]"
| "quote_body (c # cs) =
     (if c = squote then [squote, CHR 0x22, squote, CHR 0x22, squote] @ quote_body cs
      else c # quote_body cs)"

definition shell_quote :: "string \<Rightarrow> string" where
  "shell_quote s = squote # quote_body s"

fun command_line :: "string list \<Rightarrow> string" where
  "command_line [] = []"
| "command_line [a] = shell_quote a"
| "command_line (a # b # as) = shell_quote a @ CHR '' '' # command_line (b # as)"

text \<open>The macros of \<open>sys/wait.h\<close> on the status of \<open>std::system\<close>.\<close>

definition shell_status :: "int \<Rightarrow> int" where
  "shell_status status =
     (if status = -1 then 127 else if status mod 128 = 0 then status div 256 mod 256 else 1)"

text \<open>\<open>std::system(cmdline.c_str())\<close>: the C string ends at the first null byte.\<close>

definition run_shell :: "shell \<Rightarrow> string \<Rightarrow> host \<Rightarrow> int \<times> host" where
  "run_shell sys cmdline h =
     (let (status, h) = sys (takeWhile (\<lambda>c. c \<noteq> CHR 0x00) cmdline) h in (shell_status status, h))"

definition run_command :: "shell \<Rightarrow> string list \<Rightarrow> bool \<Rightarrow> host \<Rightarrow> int \<times> host" where
  "run_command sys args inherit_io =
     run_shell sys (command_line args @ (if inherit_io then [] else '' >/dev/null 2>/dev/null''))"

section \<open>Requirement files\<close>

record PackageEntry =
  pk_name :: string
  pk_version :: string
  pk_comment :: string
  pk_line :: nat

definition package_to_string :: "PackageEntry \<Rightarrow> string" where
  "package_to_string p = (if pk_version p \<noteq> [] then pk_name p @ ''@'' @ pk_version p else pk_name p)"

record ReqFile =
  rq_path :: string
  rq_packages :: "PackageEntry list"

definition rq_count :: "ReqFile \<Rightarrow> nat" where
  "rq_count rf = length (rq_packages rf)"

definition req_error :: "nat \<Rightarrow> string \<Rightarrow> exn" where
  "req_error n msg = Runtime_error (''reqfile: line '' @ nat_to_string n @ msg)"

text \<open>One line: an entry, nothing, or an error. The part after the first \<open>#\<close> is the comment.\<close>

definition req_line :: "nat \<Rightarrow> string \<Rightarrow> exn + PackageEntry option" where
  "req_line n raw =
     (let (comment, raw) =
        (case find_char (CHR ''#'') raw of None \<Rightarrow> ([], raw)
         | Some hash \<Rightarrow> (cli_trim (drop (hash + 1) raw), take hash raw));
        line = cli_trim raw
      in if line = [] then Inr None
         else if CHR '' '' \<in> set line \<or> CHR 0x09 \<in> set line then
           Inl (req_error n ('': unexpected whitespace in '' @ quoted line @ '' (use name@version)''))
         else
           (case find_char (CHR ''@'') line of
              None \<Rightarrow>
                if cli_trim line = [] then Inl (req_error n '': empty package name'')
                else Inr (Some \<lparr>pk_name = cli_trim line, pk_version = [], pk_comment = comment, pk_line = n\<rparr>)
            | Some pos \<Rightarrow>
                if cli_trim (drop (pos + 1) line) = [] then
                  Inl (req_error n ('': empty version after '' @ [squote] @ ''@'' @ [squote] @ '' in '' @ quoted line))
                else if cli_trim (take pos line) = [] then Inl (req_error n '': empty package name'')
                else Inr (Some \<lparr>pk_name = cli_trim (take pos line), pk_version = cli_trim (drop (pos + 1) line),
                              pk_comment = comment, pk_line = n\<rparr>)))"

fun req_lines :: "nat \<Rightarrow> string list \<Rightarrow> exn + PackageEntry list" where
  "req_lines n [] = Inr []"
| "req_lines n (raw # raws) =
     (case req_line n raw of Inl e \<Rightarrow> Inl e
      | Inr entry \<Rightarrow>
          (case req_lines (n + 1) raws of Inl e \<Rightarrow> Inl e
           | Inr ps \<Rightarrow> Inr (case entry of None \<Rightarrow> ps | Some p \<Rightarrow> p # ps)))"

definition parse_reqfile :: "string \<Rightarrow> host \<Rightarrow> exn + ReqFile" where
  "parse_reqfile path h =
     (case read_text (hw h) path of
        None \<Rightarrow> Inl (Runtime_error (''reqfile: cannot open '' @ quoted path))
      | Some t \<Rightarrow>
          (case req_lines 1 (getlines t) of Inl e \<Rightarrow> Inl e
           | Inr ps \<Rightarrow> Inr \<lparr>rq_path = path, rq_packages = ps\<rparr>))"

section \<open>Configuration\<close>

record Config =
  lib_dir :: string
  cache_dir :: string
  registry_url :: string
  compiler :: string
  build_flags :: string
  output_dir :: string
  cfg_raw :: "string \<rightharpoonup> string"

definition default_config :: "string \<rightharpoonup> string" where
  "default_config =
     [''lib_dir'' \<mapsto> ''./lib'', ''cache_dir'' \<mapsto> ''./.npi_cache'',
      ''registry_url'' \<mapsto> ''https://registry.nanlang.org'', ''compiler'' \<mapsto> ''./bin/nanlang_cpp'',
      ''build_flags'' \<mapsto> [], ''output_dir'' \<mapsto> ''./out'']"

definition config_get :: "Config \<Rightarrow> string \<Rightarrow> string" where
  "config_get cfg key = (case cfg_raw cfg key of None \<Rightarrow> [] | Some v \<Rightarrow> v)"

definition config_path :: "host \<Rightarrow> string" where
  "config_path h =
     (case getenv (hw h) ''NPI_CONF'' of Some env \<Rightarrow> if env \<noteq> [] then env else ''npi.conf''
      | None \<Rightarrow> ''npi.conf'')"

definition config_error :: "nat \<Rightarrow> string \<Rightarrow> exn" where
  "config_error n msg = Runtime_error (''config: line '' @ nat_to_string n @ msg)"

fun config_lines :: "nat \<Rightarrow> string list \<Rightarrow> (string \<rightharpoonup> string) \<Rightarrow> exn + (string \<rightharpoonup> string)" where
  "config_lines n [] m = Inr m"
| "config_lines n (line # lines) m =
     (let t = cli_trim line
      in if t = [] \<or> prefix ''#'' t then config_lines (n + 1) lines m
         else
           (case find_char (CHR ''='') t of
              None \<Rightarrow> Inl (config_error n ('': missing '' @ [squote] @ ''='' @ [squote] @ '' in '' @ quoted t))
            | Some eq \<Rightarrow>
                (let key = cli_trim (take eq t); val = cli_trim (drop (eq + 1) t)
                 in if key = [] then Inl (config_error n '': empty key'')
                    else config_lines (n + 1) lines (m(key \<mapsto> val)))))"

text \<open>\<open>cfg.raw[key]\<close> inserts the empty string under a key that is not there.\<close>

definition config_of :: "(string \<rightharpoonup> string) \<Rightarrow> Config" where
  "config_of m =
     (let at_key = (\<lambda>k. case m k of None \<Rightarrow> [] | Some v \<Rightarrow> v);
          keys = [''lib_dir'', ''cache_dir'', ''registry_url'', ''compiler'', ''build_flags'', ''output_dir'']
      in \<lparr>lib_dir = at_key ''lib_dir'', cache_dir = at_key ''cache_dir'', registry_url = at_key ''registry_url'',
          compiler = at_key ''compiler'', build_flags = at_key ''build_flags'', output_dir = at_key ''output_dir'',
          cfg_raw = (\<lambda>k. if k \<in> set keys then Some (at_key k) else m k)\<rparr>)"

definition load_config :: "string \<Rightarrow> host \<Rightarrow> exn + Config" where
  "load_config path h =
     (case read_text (hw h) path of
        None \<Rightarrow> if fs_exists h path then Inl (Runtime_error (''config: cannot open '' @ quoted path))
                else Inr (config_of default_config)
      | Some t \<Rightarrow>
          (case config_lines 1 (getlines t) default_config of Inl e \<Rightarrow> Inl e | Inr m \<Rightarrow> Inr (config_of m)))"

definition config_dump :: "Config \<Rightarrow> string" where
  "config_dump cfg =
     ''npi.conf (resolved):'' @ eol @
     ''  lib_dir      = '' @ lib_dir cfg @ eol @
     ''  cache_dir    = '' @ cache_dir cfg @ eol @
     ''  registry_url = '' @ registry_url cfg @ eol @
     ''  compiler     = '' @ compiler cfg @ eol @
     ''  build_flags  = '' @ build_flags cfg @ eol @
     ''  output_dir   = '' @ output_dir cfg @ eol"

section \<open>The build\<close>

record BuildOptions =
  req_path :: string
  conf_path :: string
  dry_run :: bool
  verbose :: bool
  target_name :: string

record BuildResult =
  output_file :: string
  packages :: nat

definition BuildOptions_new :: BuildOptions where
  "BuildOptions_new = \<lparr>req_path = [], conf_path = [], dry_run = False, verbose = False, target_name = []\<rparr>"

definition write_placeholder_output :: "string \<Rightarrow> string \<Rightarrow> host \<Rightarrow> unit throwing" where
  "write_placeholder_output out_path manifest_path h =
     and_then (create_directories (parent_path out_path) h)
       (\<lambda>_ h. (Inr (), put_file out_path
          (''# npi placeholder output'' @ eol @ ''# Real nanlang binary would be here.'' @ eol @
           ''# Manifest: '' @ manifest_path @ eol) h))"

definition stage_package :: "Config \<Rightarrow> bool \<Rightarrow> PackageEntry \<Rightarrow> host \<Rightarrow> unit throwing" where
  "stage_package cfg dry pkg h =
     (let pkg_dir = path_append (lib_dir cfg) (pk_name pkg)
      in if dry then
           (Inr (), say (''      [dry-run] would stage '' @ package_to_string pkg @ '' -> '' @ pkg_dir @ eol) h)
         else and_then (create_directories pkg_dir h)
           (\<lambda>_ h.
              let stub = path_append pkg_dir (pk_name pkg @ ''.nl'');
                  h = (if fs_exists h stub then h
                       else put_file stub (''// Stub for '' @ package_to_string pkg @ '' (staged by npi)'' @ eol @
                         ''// Replace with real source.'' @ eol @ ''fn init() -> void {}'' @ eol) h)
              in (Inr (), say (''      [OK] staged '' @ package_to_string pkg @ eol) h)))"

fun stage_packages :: "Config \<Rightarrow> bool \<Rightarrow> PackageEntry list \<Rightarrow> host \<Rightarrow> unit throwing" where
  "stage_packages cfg dry [] h = (Inr (), h)"
| "stage_packages cfg dry (p # ps) h =
     and_then (stage_package cfg dry p h) (\<lambda>_. stage_packages cfg dry ps)"

definition resolve_deps :: "ReqFile \<Rightarrow> Config \<Rightarrow> bool \<Rightarrow> host \<Rightarrow> unit throwing" where
  "resolve_deps rf cfg dry h =
     and_then
       (if dry then (Inr (), h)
        else and_then (create_directories (lib_dir cfg) h)
               (\<lambda>_ h. and_then (create_directories (cache_dir cfg) h)
                 (\<lambda>_ h. create_directories (output_dir cfg) h)))
       (\<lambda>_. stage_packages cfg dry (rq_packages rf))"

definition manifest_text :: "ReqFile \<Rightarrow> Config \<Rightarrow> string" where
  "manifest_text rf cfg =
     ''# npi_manifest.conf '' @ dash @ '' generated by npi, do not hand-edit'' @ eol @
     ''lib_dir     = '' @ lib_dir cfg @ eol @
     ''output_dir  = '' @ output_dir cfg @ eol @
     ''build_flags = '' @ build_flags cfg @ eol @
     ''package_count = '' @ nat_to_string (rq_count rf) @ eol @ eol @
     ''[packages]'' @ eol @
     concat (map (\<lambda>pkg. ''  '' @ package_to_string pkg @ eol) (rq_packages rf))"

definition write_manifest :: "string \<Rightarrow> ReqFile \<Rightarrow> Config \<Rightarrow> host \<Rightarrow> unit throwing" where
  "write_manifest path rf cfg h =
     and_then (create_directories (parent_path path) h)
       (\<lambda>_ h. (Inr (), put_file path (manifest_text rf cfg) h))"

definition compiler_args :: "Config \<Rightarrow> string \<Rightarrow> string \<Rightarrow> string list" where
  "compiler_args cfg manifest out_path =
     [compiler cfg, ''build'', ''--manifest'', manifest, ''--output'', out_path, ''--lib'', lib_dir cfg]
       @ (if build_flags cfg \<noteq> [] then split_ws (build_flags cfg) else [])"

definition invoke_compiler ::
  "shell \<Rightarrow> Config \<Rightarrow> string \<Rightarrow> string \<Rightarrow> BuildOptions \<Rightarrow> host \<Rightarrow> int throwing" where
  "invoke_compiler sys cfg manifest out_path opts h =
     (let args = compiler_args cfg manifest out_path
      in if dry_run opts then (Inr 0, say (''      [dry-run] would run: '' @ command_line args @ eol) h)
         else
           (let (rc, h) = run_command sys args (verbose opts) h
            in if rc \<noteq> 0 then
                 and_then
                   (write_placeholder_output out_path manifest
                      (say (''[npi] [WARN] compiler not found or failed (exit='' @ int_to_string rc @
                            '') '' @ dash @ '' writing placeholder output'' @ eol) h))
                   (\<lambda>_ h. (Inr 0, h))
               else (Inr 0, h)))"

text \<open>An operation that only reads: its error leaves the state as it is.\<close>

definition from_read :: "(host \<Rightarrow> exn + 'a) \<Rightarrow> host \<Rightarrow> 'a throwing" where
  "from_read f h = (f h, h)"

definition build_target :: "BuildOptions \<Rightarrow> Config \<Rightarrow> string" where
  "build_target opts cfg =
     path_append (output_dir cfg) (if target_name opts = [] then ''output.elf'' else target_name opts)"

definition build_manifest :: "Config \<Rightarrow> string" where
  "build_manifest cfg = path_append (output_dir cfg) ''npi_manifest.conf''"

definition run_build_from ::
  "shell \<Rightarrow> BuildOptions \<Rightarrow> ReqFile \<Rightarrow> Config \<Rightarrow> host \<Rightarrow> BuildResult throwing" where
  "run_build_from sys opts rf cfg h =
     (let h = (if verbose opts then say (config_dump cfg) h else h);
          h = say (''[npi] Resolving dependencies into: '' @ lib_dir cfg @ eol) h
      in and_then (resolve_deps rf cfg (dry_run opts) h)
           (\<lambda>_ h. and_then
              (let h = say (''[npi] Writing manifest: '' @ build_manifest cfg @ eol) h
               in if dry_run opts then (Inr (), h) else write_manifest (build_manifest cfg) rf cfg h)
              (\<lambda>_ h. and_then
                 (invoke_compiler sys cfg (build_manifest cfg) (build_target opts cfg) opts
                    (say (''[npi] Invoking compiler: '' @ compiler cfg @ '' build'' @ eol) h))
                 (\<lambda>_ h. (Inr \<lparr>output_file = build_target opts cfg, packages = rq_count rf\<rparr>,
                    say (''[npi] [OK] Build complete: '' @ build_target opts cfg @ '' ('' @ clock_text h @ ''s)'' @ eol) h)))))"

definition run_build :: "shell \<Rightarrow> BuildOptions \<Rightarrow> host \<Rightarrow> BuildResult throwing" where
  "run_build sys opts_in h =
     (if req_path opts_in = [] then (Inl (Runtime_error ''build: missing req.txt path''), h)
      else
        (let opts = (if conf_path opts_in = [] then opts_in\<lparr>conf_path := config_path h\<rparr> else opts_in)
         in and_then (from_read (parse_reqfile (req_path opts))
                        (say (''[npi] Reading requirements: '' @ req_path opts @ eol) h))
              (\<lambda>rf h.
                 let h = say (''[npi] Found '' @ nat_to_string (rq_count rf) @ '' package(s)'' @ eol) h;
                     h = fold (\<lambda>pkg. say (''      * '' @ package_to_string pkg @ eol)) (rq_packages rf) h
                 in and_then (from_read (load_config (conf_path opts))
                                (say (''[npi] Loading config: '' @ conf_path opts @ eol) h))
                      (\<lambda>cfg. run_build_from sys opts rf cfg))))"

section \<open>Finding the tools\<close>

definition find_in_path :: "string \<Rightarrow> host \<Rightarrow> string" where
  "find_in_path bin_name h =
     (case getenv (hw h) ''PATH'' of None \<Rightarrow> []
      | Some path \<Rightarrow>
          (case filter (fs_exists h) (map (\<lambda>item. path_append item bin_name)
                  (filter (\<lambda>item. item \<noteq> []) (split_at (CHR '':'') path))) of
             [] \<Rightarrow> [] | p # _ \<Rightarrow> p))"

text \<open>The buffer takes 4095 bytes of the link.\<close>

definition current_executable_path :: "host \<Rightarrow> string" where
  "current_executable_path h = (case exe_link h of None \<Rightarrow> [] | Some target \<Rightarrow> take 4095 target)"

definition from_env :: "string \<Rightarrow> host \<Rightarrow> string option" where
  "from_env name h =
     (case getenv (hw h) name of Some env \<Rightarrow> if env \<noteq> [] \<and> fs_exists h env then Some env else None
      | None \<Rightarrow> None)"

definition resolve_cpp_command_path :: "host \<Rightarrow> exn + string" where
  "resolve_cpp_command_path h =
     (case from_env ''NANLANG_CPP'' h of Some env \<Rightarrow> Inr env
      | None \<Rightarrow>
          (let exe = current_executable_path h; candidate = path_append (parent_path exe) ''nanlang_cpp''
           in if exe \<noteq> [] \<and> fs_exists h candidate then Inr candidate
              else if find_in_path ''nanlang_cpp'' h \<noteq> [] then Inr (find_in_path ''nanlang_cpp'' h)
              else if fs_exists h ''./bin/nanlang_cpp'' then Inr ''./bin/nanlang_cpp''
              else Inl (Runtime_error ''could not find nanlang_cpp (tried NANLANG_CPP, executable dir, PATH, and ./bin)'')))"

definition preprocessor_candidates :: "string \<Rightarrow> string list" where
  "preprocessor_candidates exe_dir =
     [foldl path_append exe_dir [''..'', ''share'', ''nanlang'', ''scripts'', ''nan_preprocessor.raku''],
      foldl path_append exe_dir [''scripts'', ''nan_preprocessor.raku''],
      foldl path_append exe_dir [''..'', ''scripts'', ''nan_preprocessor.raku'']]"

definition resolve_preprocessor_path :: "host \<Rightarrow> exn + string" where
  "resolve_preprocessor_path h =
     (case from_env ''NANLANG_PREPROCESSOR'' h of Some env \<Rightarrow> Inr env
      | None \<Rightarrow>
          (let exe = current_executable_path h
           in case (if exe = [] then []
                    else filter (fs_exists h) (preprocessor_candidates (parent_path exe))) of
                p # _ \<Rightarrow> Inr (lexically_normal p)
              | [] \<Rightarrow>
                  if fs_exists h ''./scripts/nan_preprocessor.raku'' then Inr ''./scripts/nan_preprocessor.raku''
                  else if fs_exists h ''/usr/share/nanlang/scripts/nan_preprocessor.raku''
                  then Inr ''/usr/share/nanlang/scripts/nan_preprocessor.raku''
                  else if find_in_path ''nan_preprocessor.raku'' h \<noteq> [] then Inr (find_in_path ''nan_preprocessor.raku'' h)
                  else Inl (Runtime_error ''could not find nan_preprocessor.raku (tried NANLANG_PREPROCESSOR, executable-relative paths, PATH, and /usr/share)'')))"

definition resolve_raku_path :: "host \<Rightarrow> exn + string" where
  "resolve_raku_path h =
     (if find_in_path ''raku'' h \<noteq> [] then Inr (find_in_path ''raku'' h)
      else Inl (Runtime_error ''raku executable not found in PATH (required for preprocessing)''))"

definition preprocess_source_file :: "shell \<Rightarrow> string \<Rightarrow> string \<Rightarrow> host \<Rightarrow> unit throwing" where
  "preprocess_source_file sys source_path out_path h =
     and_then (from_read resolve_raku_path h)
       (\<lambda>raku h. and_then (from_read resolve_preprocessor_path h)
          (\<lambda>pre h.
             let (rc, h) = run_shell sys (shell_quote raku @ '' '' @ shell_quote pre @ '' '' @
                             shell_quote source_path @ '' > '' @ shell_quote out_path) h
             in if rc \<noteq> 0 then
                  (Inl (Runtime_error (''preprocess failed for '' @ source_path @ '': exit status '' @ int_to_string rc)), h)
                else (Inr (), h)))"

end
