(* ===== verification/Npi_Correct.thy ===== *)
theory Npi_Correct
  imports Npi
begin

text \<open>
  What the package library promises: a command line the shell splits back into the arguments
  (the \<open>codec\<close> interface, with the quoting rules of the POSIX shell as the decoder), requirement
  files that survive being printed and read again, configuration look-up, and a dry run that
  touches nothing.
\<close>

section \<open>The words of a shell command\<close>

text \<open>
  Quoting in the POSIX shell, on the part of the language where a word is literal: blanks
  separate words outside quotes, single quotes keep everything, double quotes everything but
  dollar, backquote and backslash. \<open>None\<close>: an open quote, or a character with another meaning.
\<close>

datatype quoting = Unquoted | In_single | In_double

definition sh_special :: "char \<Rightarrow> bool" where
  "sh_special c \<longleftrightarrow> c \<in> set (''|&;<>()$*?[#~=%{}!'' @ [CHR 0x60, CHR 0x5C, CHR 0x09, CHR 0x0A])"

fun sh_lex :: "quoting \<Rightarrow> string option \<Rightarrow> string \<Rightarrow> string list option" where
  "sh_lex q cur [] =
     (if q = Unquoted then Some (case cur of None \<Rightarrow> [] | Some w \<Rightarrow> [rev w]) else None)"
| "sh_lex Unquoted cur (c # cs) =
     (if c = CHR '' '' then
        (case cur of None \<Rightarrow> sh_lex Unquoted None cs
         | Some w \<Rightarrow> map_option (Cons (rev w)) (sh_lex Unquoted None cs))
      else
        (let w = (case cur of None \<Rightarrow> [] | Some w \<Rightarrow> w)
         in if c = squote then sh_lex In_single (Some w) cs
            else if c = CHR 0x22 then sh_lex In_double (Some w) cs
            else if sh_special c then None
            else sh_lex Unquoted (Some (c # w)) cs))"
| "sh_lex In_single cur (c # cs) =
     (let w = (case cur of None \<Rightarrow> [] | Some w \<Rightarrow> w)
      in if c = squote then sh_lex Unquoted (Some w) cs else sh_lex In_single (Some (c # w)) cs)"
| "sh_lex In_double cur (c # cs) =
     (let w = (case cur of None \<Rightarrow> [] | Some w \<Rightarrow> w)
      in if c = CHR 0x22 then sh_lex Unquoted (Some w) cs
         else if c \<in> {CHR ''$'', CHR 0x60, CHR 0x5C} then None
         else sh_lex In_double (Some (c # w)) cs)"

definition sh_words :: "string \<Rightarrow> string list option" where
  "sh_words line = sh_lex Unquoted None line"

lemma lex_quote_body:
  "sh_lex In_single (Some w) (quote_body s @ rest) = sh_lex Unquoted (Some (rev s @ w)) rest"
  by (induction s arbitrary: w) (auto simp: squote_def)

lemma lex_shell_quote:
  "sh_lex Unquoted None (shell_quote s @ rest) = sh_lex Unquoted (Some (rev s)) rest"
  by (simp add: shell_quote_def lex_quote_body squote_def [symmetric]) (simp add: squote_def)

lemma lex_command_line: "sh_words (command_line args) = Some args"
proof (induction args rule: command_line.induct)
  case 1
  show ?case by (simp add: sh_words_def)
next
  case (2 a)
  show ?case using lex_shell_quote [of a "[]"] by (simp add: sh_words_def)
next
  case (3 a b as)
  then show ?case by (simp add: sh_words_def lex_shell_quote del: command_line.simps(2))
qed

interpretation shell_args: codec command_line sh_words
  by unfold_locales (rule lex_command_line)

text \<open>
  C17. The command line that \<open>run_command\<close> gives the shell is split back into exactly the arguments,
  whatever characters they hold, quotes included; two argument lists never share a command line.
\<close>

theorem command_line_words:
  "sh_words (command_line args) = Some args \<and> (command_line args = command_line args' \<longleftrightarrow> args = args')"
  by (simp add: shell_args.dec_enc shell_args.enc_inject)

section \<open>Requirement files\<close>

text \<open>What every parsed entry satisfies.\<close>

definition req_text :: "string \<Rightarrow> bool" where
  "req_text s \<longleftrightarrow> set s \<inter> {CHR '' '', CHR 0x09, CHR 0x0A, CHR ''#''} = {} \<and>
     (s = [] \<or> \<not> isspace (hd s) \<and> \<not> isspace (last s))"

definition entry_ok :: "PackageEntry \<Rightarrow> bool" where
  "entry_ok p \<longleftrightarrow> pk_name p \<noteq> [] \<and> CHR ''@'' \<notin> set (pk_name p) \<and> req_text (pk_name p) \<and> req_text (pk_version p)"

lemma set_trim: "set (cli_trim s) \<subseteq> set s"
  unfolding cli_trim_def trim_by_def by (auto dest!: set_dropWhileD)

lemma set_takeD: "x \<in> set (take n s) \<Longrightarrow> x \<in> set s"
  by (meson in_set_takeD)

lemma find_char_take: "find_char x s = Some i \<Longrightarrow> x \<notin> set (take i s)"
  by (induction s arbitrary: i) (auto split: if_splits)

lemma req_text_trim:
  "set s \<inter> {CHR '' '', CHR 0x09, CHR 0x0A, CHR ''#''} = {} \<Longrightarrow> req_text (cli_trim s)"
  using set_trim [of s] trim_by_ends [of isspace s] by (auto simp: req_text_def cli_trim_def)

lemma req_line_ok:
  assumes "CHR 0x0A \<notin> set raw" "req_line n raw = Inr (Some p)"
  shows "entry_ok p \<and> pk_line p = n"
proof -
  define cr where "cr = (case find_char (CHR ''#'') raw of None \<Rightarrow> ([], raw)
    | Some hash \<Rightarrow> (cli_trim (drop (hash + 1) raw), take hash raw))"
  define line where "line = cli_trim (snd cr)"
  have no_hash: "CHR ''#'' \<notin> set (snd cr)" "CHR 0x0A \<notin> set (snd cr)"
    using assms(1) find_char_take [of "CHR ''#''" raw]
    by (auto simp: cr_def find_char_None split: option.splits dest: set_takeD)
  have l: "set line \<inter> {CHR 0x0A, CHR ''#''} = {}"
    using no_hash set_trim [of "snd cr"] by (auto simp: line_def)
  note r = assms(2) [unfolded req_line_def, folded cr_def, unfolded Let_def case_prod_unfold, folded line_def]
  have blanks: "CHR '' '' \<notin> set line" "CHR 0x09 \<notin> set line" using r by (auto split: if_splits)
  have t: "req_text (cli_trim (take i line))" "req_text (cli_trim (drop i line))" "req_text (cli_trim line)" for i
    using l blanks by (auto intro!: req_text_trim dest: set_takeD in_set_dropD)
  show ?thesis
  proof (cases "find_char (CHR ''@'') line")
    case None
    moreover have "CHR ''@'' \<notin> set (cli_trim line)" using None set_trim [of line] by (auto simp: find_char_None)
    ultimately show ?thesis using r blanks t(3)
      by (auto simp: entry_ok_def req_text_def [of "[]"] split: if_splits)
  next
    case (Some i)
    then show ?thesis using r blanks t(1,2) set_trim [of "take i line"] find_char_take [OF Some]
      by (auto simp: entry_ok_def split: if_splits)
  qed
qed

lemma req_lines_ok:
  "\<forall>l \<in> set raws. CHR 0x0A \<notin> set l \<Longrightarrow> req_lines n raws = Inr ps \<Longrightarrow> list_all entry_ok ps"
proof (induction n raws arbitrary: ps rule: req_lines.induct)
  case (2 n raw raws)
  then show ?case using req_line_ok [of raw n]
    by (auto split: sum.splits option.splits)
qed simp

definition same_package :: "PackageEntry \<Rightarrow> PackageEntry \<Rightarrow> bool" where
  "same_package p q \<longleftrightarrow> pk_name p = pk_name q \<and> pk_version p = pk_version q"

lemma find_char_at: "x \<notin> set s \<Longrightarrow> find_char x (s @ x # t) = Some (length s)"
  by (simp add: find_char_append find_char_None [THEN iffD2])

lemma trim_req_text: "req_text s \<Longrightarrow> cli_trim s = s"
  unfolding cli_trim_def req_text_def by (rule trim_by_id) auto

lemma req_text_print:
  assumes "entry_ok p"
  shows "req_text (package_to_string p)" "package_to_string p \<noteq> []"
  using assms by (auto simp: entry_ok_def package_to_string_def req_text_def)

lemma req_line_print:
  assumes "entry_ok p"
  shows "\<exists>q. req_line n (package_to_string p) = Inr (Some q) \<and> same_package p q"
proof -
  note t = req_text_print [OF assms]
  have nh: "find_char (CHR ''#'') (package_to_string p) = None"
    using t(1) by (auto simp: req_text_def find_char_None)
  have b: "CHR '' '' \<notin> set (package_to_string p)" "CHR 0x09 \<notin> set (package_to_string p)"
    using t(1) by (auto simp: req_text_def)
  have v: "cli_trim (pk_name p) = pk_name p" "cli_trim (pk_version p) = pk_version p" "pk_name p \<noteq> []"
    using assms trim_req_text by (auto simp: entry_ok_def)
  have pos: "find_char (CHR ''@'') (package_to_string p) = (if pk_version p = [] then None else Some (length (pk_name p)))"
    using assms by (simp add: package_to_string_def find_char_at find_char_None entry_ok_def)
  show ?thesis
    unfolding req_line_def nh by (simp add: trim_req_text t b pos) (simp add: package_to_string_def v same_package_def)
qed

lemma req_lines_print:
  "list_all entry_ok ps \<Longrightarrow> \<exists>qs. req_lines n (map package_to_string ps) = Inr qs \<and> list_all2 same_package ps qs"
proof (induction ps arbitrary: n)
  case (Cons p ps)
  then obtain qs where "req_lines (n + 1) (map package_to_string ps) = Inr qs" "list_all2 same_package ps qs"
    by fastforce
  moreover obtain q where "req_line n (package_to_string p) = Inr (Some q)" "same_package p q"
    using req_line_print [of p n] Cons.prems by auto
  ultimately show ?case by simp
qed simp

lemma no_newline_print: "entry_ok p \<Longrightarrow> CHR 0x0A \<notin> set (package_to_string p)"
  using req_text_print(1) by (auto simp: req_text_def)

lemma getlines_from_free:
  "CHR 0x0A \<notin> set cur \<Longrightarrow> l \<in> set (getlines_from cur s) \<Longrightarrow> CHR 0x0A \<notin> set l"
  by (induction cur s rule: getlines_from.induct) (auto split: if_splits)

lemma parsed_entries_ok:
  assumes "parse_reqfile path h = Inr rf"
  shows "list_all entry_ok (rq_packages rf)"
proof -
  obtain t where t: "read_text (hw h) path = Some t" using assms by (auto simp: parse_reqfile_def split: option.splits)
  then have "req_lines 1 (getlines t) = Inr (rq_packages rf)"
    using assms by (auto simp: parse_reqfile_def split: sum.splits)
  then show ?thesis
    using req_lines_ok getlines_from_free [of "[]"] unfolding getlines_def by fastforce
qed

lemma parse_printed:
  assumes "list_all entry_ok ps" "read_text (hw h) q = Some (unlines (map package_to_string ps))"
  shows "\<exists>rf. parse_reqfile q h = Inr rf \<and> list_all2 same_package ps (rq_packages rf)"
proof -
  have "getlines (unlines (map package_to_string ps)) = map package_to_string ps"
    by (rule getlines_unlines) (use assms(1) no_newline_print in \<open>auto simp: list_all_iff\<close>)
  moreover obtain qs where "req_lines 1 (map package_to_string ps) = Inr qs" "list_all2 same_package ps qs"
    using req_lines_print [OF assms(1)] by blast
  ultimately show ?thesis using assms(2) by (simp add: parse_reqfile_def)
qed

text \<open>
  C18. Every requirement file that parses gives entries with a name, free of blanks, comment signs
  and stray ends; written out one a line they parse again, to the same names and versions.
\<close>

theorem reqfile_roundtrip:
  assumes "parse_reqfile path h = Inr rf"
    and "read_text (hw h') path' = Some (unlines (map package_to_string (rq_packages rf)))"
  shows "list_all entry_ok (rq_packages rf) \<and>
    (\<exists>rf'. parse_reqfile path' h' = Inr rf' \<and> list_all2 same_package (rq_packages rf) (rq_packages rf'))"
  using parsed_entries_ok [OF assms(1)] parse_printed [OF _ assms(2)] by blast

definition sample_host :: "world \<Rightarrow> host" where
  "sample_host w = \<lparr>hw = w, present = (\<lambda>_. False), can_mkdir = (\<lambda>_. True), can_unlink = (\<lambda>_. True), exe_link = None,
     temp_name = Some ''/tmp/nanlang_preprocessed_abcdef.nl'', clock_text = ''0.5'',
     fs_what = (\<lambda>p. ''filesystem error: '' @ p)\<rparr>"

definition sample_reqs :: string where
  "sample_reqs = unlines [''# packages'', ''  core@1.2  # base'', [], ''net'']"

lemma sample_reqs_parse:
  "parse_reqfile ''req.txt'' (sample_host (sample_world ''req.txt'' sample_reqs)) =
     Inr \<lparr>rq_path = ''req.txt'', rq_packages =
       [\<lparr>pk_name = ''core'', pk_version = ''1.2'', pk_comment = ''base'', pk_line = 2\<rparr>,
        \<lparr>pk_name = ''net'', pk_version = [], pk_comment = [], pk_line = 4\<rparr>]\<rparr>"
proof -
  have "req_lines 1 (getlines sample_reqs) = Inr
     [\<lparr>pk_name = ''core'', pk_version = ''1.2'', pk_comment = ''base'', pk_line = 2\<rparr>,
      \<lparr>pk_name = ''net'', pk_version = [], pk_comment = [], pk_line = 4\<rparr>]"
    by code_simp
  then show ?thesis by (simp add: parse_reqfile_def sample_host_def)
qed

theorem reqfile_roundtrip_witness:
  "\<exists>rf rf'. parse_reqfile ''req.txt'' (sample_host (sample_world ''req.txt'' sample_reqs)) = Inr rf \<and>
     parse_reqfile ''out.txt'' (sample_host (sample_world ''out.txt'' (unlines [''core@1.2'', ''net'']))) = Inr rf' \<and>
     list_all2 same_package (rq_packages rf) (rq_packages rf')"
  using reqfile_roundtrip [OF sample_reqs_parse,
      of "sample_host (sample_world ''out.txt'' (unlines [''core@1.2'', ''net'']))" "''out.txt''"]
    sample_reqs_parse
  by (simp add: sample_host_def package_to_string_def)

section \<open>A dry run\<close>

lemma and_then_simps: "and_then (Inl e, h) f = (Inl e, h)" "and_then (Inr x, h) f = f x h"
  by (simp_all add: and_then_def)

text \<open>The two states differ in what was printed to \<open>std::cout\<close> only.\<close>

definition only_printed :: "host \<Rightarrow> host \<Rightarrow> bool" where
  "only_printed h h' \<longleftrightarrow> (\<exists>s. h' = say s h)"

lemma only_printed_refl: "only_printed h h"
  unfolding only_printed_def by (rule exI [of _ "[]"]) (simp add: on_world_def cout_def)

lemma say_say: "say t (say s h) = say (s @ t) h"
  by (simp add: on_world_def cout_def)

lemma only_printed_say: "only_printed h h' \<Longrightarrow> only_printed h (say s h')"
  unfolding only_printed_def by (auto simp: say_say)

lemma only_printed_fold: "only_printed h h' \<Longrightarrow> only_printed h (fold (\<lambda>x. say (f x)) xs h')"
  by (induction xs arbitrary: h') (simp_all add: only_printed_say)

lemma only_printed_bind:
  "only_printed h (snd r) \<Longrightarrow> (\<And>x h'. r = (Inr x, h') \<Longrightarrow> only_printed h h' \<Longrightarrow> only_printed h (snd (f x h'))) \<Longrightarrow>
   only_printed h (snd (and_then r f))"
  by (cases r) (auto simp: and_then_def split: sum.splits)

lemmas only_printed_intros = only_printed_refl only_printed_say only_printed_fold

lemma stage_dry: "only_printed h h' \<Longrightarrow> only_printed h (snd (stage_packages cfg True ps h'))"
proof (induction ps arbitrary: h')
  case (Cons p ps)
  show ?case using Cons.IH [OF only_printed_say [OF Cons.prems]] by (simp add: stage_package_def Let_def and_then_def)
qed simp

lemma run_build_from_dry:
  assumes "dry_run opts" "only_printed h h'"
  shows "only_printed h (snd (run_build_from sys opts rf cfg h'))"
  using assms(2) unfolding run_build_from_def Let_def
  by (intro only_printed_bind)
     (auto simp: assms(1) resolve_deps_def invoke_compiler_def and_then_def Let_def
       intro!: only_printed_intros stage_dry)

lemma only_printed_read:
  "only_printed h h' \<Longrightarrow> (\<And>x. only_printed h (snd (f x h'))) \<Longrightarrow>
   only_printed h (snd (and_then (from_read g h') f))"
  by (auto simp: and_then_def from_read_def split: sum.split)

lemma run_build_dry:
  assumes "dry_run opts"
  shows "only_printed h (snd (run_build sys opts h))"
proof (cases "req_path opts = []")
  case False
  define o' where "o' = (if conf_path opts = [] then opts\<lparr>conf_path := config_path h\<rparr> else opts)"
  have d: "dry_run o'" using assms by (simp add: o'_def)
  show ?thesis
    unfolding run_build_def Let_def o'_def [symmetric] if_not_P [OF False]
    by (intro only_printed_read only_printed_intros run_build_from_dry d)
qed (simp add: run_build_def only_printed_refl)

text \<open>
  C19. A build with \<open>--dry-run\<close> only prints, whatever its outcome: it writes no file, makes no
  directory and starts no command, so it cannot depend on the shell.
\<close>

theorem dry_run_only_prints:
  assumes "dry_run opts"
  shows "(\<exists>s. snd (run_build sys opts h) = say s h) \<and> run_build sys opts h = run_build sys' opts h"
proof
  show "\<exists>s. snd (run_build sys opts h) = say s h" using run_build_dry [OF assms] by (simp add: only_printed_def)
  define o' where "o' = (if conf_path opts = [] then opts\<lparr>conf_path := config_path h\<rparr> else opts)"
  have "dry_run o'" using assms by (simp add: o'_def)
  then have eq: "run_build_from sys o' = run_build_from sys' o'"
    by (simp add: run_build_from_def invoke_compiler_def fun_eq_iff)
  show "run_build sys opts h = run_build sys' opts h"
    by (simp only: run_build_def Let_def o'_def [symmetric] eq)
qed

theorem dry_run_only_prints_witness:
  "\<exists>s. snd (run_build (\<lambda>_ h. (0, h)) (BuildOptions_new\<lparr>req_path := ''req.txt'', dry_run := True\<rparr>)
      (sample_host (sample_world ''req.txt'' sample_reqs))) = say s (sample_host (sample_world ''req.txt'' sample_reqs))"
  using dry_run_only_prints [of "BuildOptions_new\<lparr>req_path := ''req.txt'', dry_run := True\<rparr>" "\<lambda>_ h. (0, h)"
      "sample_host (sample_world ''req.txt'' sample_reqs)" "\<lambda>_ h. (0, h)"]
  by simp

section \<open>A build that can write everywhere\<close>

definition roomy :: "host \<Rightarrow> bool" where
  "roomy h \<longleftrightarrow> (\<forall>p. can_mkdir h p \<and> can_create (hw h) p \<and> disk_room (hw h) p = None)"

lemma roomy_say [simp]: "roomy (say s h) = roomy h" "roomy (on_world (cerr s) h) = roomy h"
  by (simp_all add: roomy_def on_world_def)

lemma hw_say [simp]: "hw (on_world f h) = f (hw h)"
  by (simp add: on_world_def)

lemma exists_say [simp]: "fs_exists (on_world (cout s) h) n = fs_exists h n" "fs_exists (on_world (cerr s) h) n = fs_exists h n"
  by (simp_all add: fs_exists_def on_world_def)

lemma read_say [simp]: "parse_reqfile q (say s h) = parse_reqfile q h" "load_config q (say s h) = load_config q h"
  by (simp_all add: parse_reqfile_def load_config_def)

lemma parse_fold_say [simp]:
  "roomy (fold (\<lambda>x. say (f x)) xs h) = roomy h"
  "load_config q (fold (\<lambda>x. say (f x)) xs h) = load_config q h"
  by (induction xs arbitrary: h) simp_all

lemma create_roomy:
  "roomy h \<Longrightarrow> p \<noteq> [] \<Longrightarrow> \<exists>h'. create_directories p h = (Inr (), h') \<and> roomy h'"
  by (simp add: create_directories_def roomy_def)

lemma put_roomy: "roomy h \<Longrightarrow> roomy (put_file p t h) \<and> read_text (hw (put_file p t h)) p = Some t"
  by (simp add: roomy_def put_file_def on_world_def write_file_ok read_text_def store_file_read)

lemma put_room [simp]: "roomy h \<Longrightarrow> roomy (put_file p t h)"
  using put_roomy by blast

lemma path_append_nonempty: "b \<noteq> [] \<Longrightarrow> path_append a b \<noteq> []"
  by (simp add: path_append_def)

lemma parent_path_append: "a \<noteq> [] \<Longrightarrow> parent_path (path_append a b) \<noteq> []"
proof -
  assume a: "a \<noteq> []"
  have "last a = CHR ''/'' \<Longrightarrow> CHR ''/'' \<in> set a" using last_in_set [OF a] by simp
  moreover have "b \<noteq> [] \<Longrightarrow> hd b = CHR ''/'' \<Longrightarrow> CHR ''/'' \<in> set b" using hd_in_set [of b] by simp
  ultimately have "CHR ''/'' \<in> set (path_append a b)" using a by (auto simp: path_append_def)
  then have "dropWhile (\<lambda>c. c \<noteq> CHR ''/'') (rev (path_append a b)) \<noteq> []"
    by (simp add: dropWhile_eq_Nil_conv)
  then show ?thesis by (simp add: parent_path_def Let_def)
qed

lemma stage_roomy:
  assumes "roomy h" "list_all entry_ok ps"
  shows "\<exists>h'. stage_packages cfg dry ps h = (Inr (), h') \<and> roomy h'"
  using assms
proof (induction ps arbitrary: h)
  case (Cons p ps)
  have "path_append (lib_dir cfg) (pk_name p) \<noteq> []"
    using Cons.prems by (intro path_append_nonempty) (simp add: entry_ok_def)
  then obtain h1 where "create_directories (path_append (lib_dir cfg) (pk_name p)) h = (Inr (), h1)" "roomy h1"
    using create_roomy Cons.prems(1) by blast
  then have "\<exists>h2. stage_package cfg dry p h = (Inr (), h2) \<and> roomy h2"
    using Cons.prems(1) by (cases dry) (simp_all add: stage_package_def Let_def and_then_simps)
  then obtain h2 where "stage_package cfg dry p h = (Inr (), h2)" "roomy h2" by blast
  then show ?case using Cons.IH [of h2] Cons.prems(2) by (simp add: and_then_simps)
qed simp

lemma deps_roomy:
  assumes "roomy h" "list_all entry_ok (rq_packages rf)" "lib_dir cfg \<noteq> []" "cache_dir cfg \<noteq> []" "output_dir cfg \<noteq> []"
  shows "\<exists>h'. resolve_deps rf cfg dry h = (Inr (), h') \<and> roomy h'"
proof (cases dry)
  case False
  obtain h1 where 1: "create_directories (lib_dir cfg) h = (Inr (), h1)" "roomy h1" using create_roomy assms by blast
  obtain h2 where 2: "create_directories (cache_dir cfg) h1 = (Inr (), h2)" "roomy h2" using create_roomy 1 assms by blast
  obtain h3 where 3: "create_directories (output_dir cfg) h2 = (Inr (), h3)" "roomy h3" using create_roomy 2 assms by blast
  show ?thesis using False 1 2 3 stage_roomy [OF 3(2) assms(2)] by (simp add: resolve_deps_def and_then_simps)
qed (use stage_roomy assms in \<open>simp add: resolve_deps_def and_then_simps\<close>)

lemma manifest_roomy:
  assumes "roomy h" "output_dir cfg \<noteq> []"
  shows "\<exists>h'. write_manifest (build_manifest cfg) rf cfg h = (Inr (), h') \<and> roomy h'"
proof -
  obtain h1 where "create_directories (parent_path (build_manifest cfg)) h = (Inr (), h1)" "roomy h1"
    using create_roomy [OF assms(1) parent_path_append [OF assms(2)]] unfolding build_manifest_def by blast
  then show ?thesis by (simp add: write_manifest_def and_then_simps)
qed

definition placeholder_text :: "string \<Rightarrow> string" where
  "placeholder_text manifest = ''# npi placeholder output'' @ eol @ ''# Real nanlang binary would be here.'' @ eol @
     ''# Manifest: '' @ manifest @ eol"

text \<open>A compiler that fails is replaced by the placeholder, and the build goes on as if it had worked.\<close>

lemma failing_compiler:
  assumes "roomy h" "\<not> dry_run opts" "output_dir cfg \<noteq> []"
    and "\<And>h. roomy h \<Longrightarrow> \<exists>rc h'. run_command sys (compiler_args cfg m (build_target opts cfg)) (verbose opts) h = (rc, h') \<and>
           rc \<noteq> 0 \<and> roomy h'"
  shows "\<exists>h'. invoke_compiler sys cfg m (build_target opts cfg) opts h = (Inr 0, h') \<and>
           read_text (hw h') (build_target opts cfg) = Some (placeholder_text m)"
proof -
  obtain rc h1 where r: "run_command sys (compiler_args cfg m (build_target opts cfg)) (verbose opts) h = (rc, h1)"
    "rc \<noteq> 0" "roomy h1" using assms(4) [OF assms(1)] by blast
  obtain h2 where "create_directories (parent_path (build_target opts cfg))
      (say (''[npi] [WARN] compiler not found or failed (exit='' @ int_to_string rc @
                            '') '' @ dash @ '' writing placeholder output'' @ eol) h1) = (Inr (), h2)" "roomy h2"
    using create_roomy parent_path_append [OF assms(3)] r(3) unfolding build_target_def by (metis roomy_say(1))
  then show ?thesis using assms(2) r put_roomy [of h2]
    by (simp add: invoke_compiler_def Let_def and_then_simps write_placeholder_output_def placeholder_text_def)
qed

lemma build_from_failing:
  assumes "roomy h" "\<not> dry_run opts" "list_all entry_ok (rq_packages rf)"
    and "lib_dir cfg \<noteq> []" "cache_dir cfg \<noteq> []" "output_dir cfg \<noteq> []"
    and "\<And>h. roomy h \<Longrightarrow> \<exists>rc h'. run_command sys (compiler_args cfg (build_manifest cfg) (build_target opts cfg)) (verbose opts) h =
           (rc, h') \<and> rc \<noteq> 0 \<and> roomy h'"
  shows "\<exists>h'. run_build_from sys opts rf cfg h = (Inr \<lparr>output_file = build_target opts cfg, packages = rq_count rf\<rparr>, h') \<and>
           read_text (hw h') (build_target opts cfg) = Some (placeholder_text (build_manifest cfg))"
proof -
  define h0 where "h0 = say (''[npi] Resolving dependencies into: '' @ lib_dir cfg @ eol)
    (if verbose opts then say (config_dump cfg) h else h)"
  have "roomy h0" using assms(1) by (simp add: h0_def)
  then obtain h1 where 1: "resolve_deps rf cfg (dry_run opts) h0 = (Inr (), h1)" "roomy h1"
    using deps_roomy assms by blast
  define h1' where "h1' = say (''[npi] Writing manifest: '' @ build_manifest cfg @ eol) h1"
  obtain h2 where 2: "write_manifest (build_manifest cfg) rf cfg h1' = (Inr (), h2)" "roomy h2"
    using manifest_roomy [of h1'] 1 assms(6) by (auto simp: h1'_def)
  define h2' where "h2' = say (''[npi] Invoking compiler: '' @ compiler cfg @ '' build'' @ eol) h2"
  obtain h3 where 3: "invoke_compiler sys cfg (build_manifest cfg) (build_target opts cfg) opts h2' = (Inr 0, h3)"
    "read_text (hw h3) (build_target opts cfg) = Some (placeholder_text (build_manifest cfg))"
    using failing_compiler [of h2' opts cfg sys "build_manifest cfg"] assms(2,6,7) 2(2) by (auto simp: h2'_def)
  show ?thesis
    using 3(2) unfolding run_build_from_def Let_def h0_def [symmetric] 1(1) and_then_simps h1'_def [symmetric]
      if_not_P [OF assms(2)] 2(1) h2'_def [symmetric] 3(1)
    by simp
qed

end
