(* ===== verification/Cli.thy ===== *)
theory Cli
  imports Npi_Correct
begin

text \<open>
  The two command-line programs over the package library: \<open>nanlang\<close>
  (\<open>src/src/nanlang_cli.cpp\<close>), which preprocesses sources and calls \<open>nanlang_cpp\<close>, and \<open>npi\<close>
  (\<open>src/src/npi_cli.cpp\<close>), the package tool. Both \<open>main\<close> functions map the arguments after the
  program name and the host to the exit code and the new host.
\<close>

section \<open>Tokens\<close>

record Parsed =
  positional :: "string list"
  pd_kv :: "string \<rightharpoonup> string"
  pd_flags :: "string \<rightharpoonup> bool"

definition Parsed_new :: Parsed where
  "Parsed_new = \<lparr>positional = [], pd_kv = Map.empty, pd_flags = Map.empty\<rparr>"

definition set_kv :: "string \<Rightarrow> string \<Rightarrow> Parsed \<Rightarrow> Parsed" where
  "set_kv k v p = p\<lparr>pd_kv := (pd_kv p)(k \<mapsto> v)\<rparr>"

definition set_flag :: "string \<Rightarrow> Parsed \<Rightarrow> Parsed" where
  "set_flag k p = p\<lparr>pd_flags := (pd_flags p)(k \<mapsto> True)\<rparr>"

text \<open>The function is repeated word for word in both programs.\<close>

fun parse_tokens :: "string list \<Rightarrow> Parsed \<Rightarrow> Parsed" where
  "parse_tokens [] p = p"
| "parse_tokens (tok # rest) p =
     (if prefix ''--'' tok \<and> find_char (CHR ''='') (drop 2 tok) \<noteq> None then
        (let key = drop 2 tok; eq = the (find_char (CHR ''='') key)
         in parse_tokens rest (set_kv (take eq key) (drop (eq + 1) key) p))
      else if prefix ''--'' tok \<or> (length tok = 2 \<and> hd tok = CHR ''-'') then
        (let key = (if prefix ''--'' tok then drop 2 tok else drop 1 tok)
         in case rest of
              v # rest' \<Rightarrow>
                if \<not> prefix ''-'' v then parse_tokens rest' (set_kv key v p)
                else parse_tokens rest (set_flag key p)
            | [] \<Rightarrow> parse_tokens rest (set_flag key p))
      else parse_tokens rest (p\<lparr>positional := positional p @ [tok]\<rparr>))"

text \<open>\<open>p.kv.count(k) ? p.kv[k] : def\<close>\<close>

definition kv_or :: "Parsed \<Rightarrow> string \<Rightarrow> string \<Rightarrow> string" where
  "kv_or p k def = (case pd_kv p k of Some v \<Rightarrow> v | None \<Rightarrow> def)"

definition has_flag :: "Parsed \<Rightarrow> string \<Rightarrow> bool" where
  "has_flag p k \<longleftrightarrow> pd_flags p k \<noteq> None"

section \<open>Errors and temporary files\<close>

definition exn_what :: "host \<Rightarrow> exn \<Rightarrow> string" where
  "exn_what h e = (case e of Runtime_error m \<Rightarrow> m | Filesystem_error p \<Rightarrow> fs_what h p)"

text \<open>The outermost \<open>catch\<close> of \<open>main\<close>.\<close>

definition catch_all :: "string \<Rightarrow> int throwing \<Rightarrow> int \<times> host" where
  "catch_all program r =
     (case r of (Inr rc, h) \<Rightarrow> (rc, h)
      | (Inl e, h) \<Rightarrow> (1, on_world (cerr (program @ '': '' @ exn_what h e @ eol)) h))"

text \<open>\<open>mkstemps\<close> makes an empty file that only its owner may read.\<close>

definition make_temp_preprocessed_file :: "host \<Rightarrow> string throwing" where
  "make_temp_preprocessed_file h =
     (case temp_name h of
        None \<Rightarrow> (Inl (Runtime_error ''could not create temporary preprocessed file''), h)
      | Some n \<Rightarrow> (Inr n, on_world (\<lambda>w. w\<lparr>files := (files w)(n \<mapsto>
           \<lparr>f_bytes = [], f_mtime_sec = now_sec w, f_mtime_nsec = now_nsec w, f_mode = 384\<rparr>)\<rparr>) h))"

text \<open>
  The \<open>try\<close> block that ends with \<open>fs::remove(temp)\<close>, and its \<open>catch (...)\<close>, which removes the file and
  rethrows. The handler also catches what the removal inside the block throws, and a removal that
  throws in the handler replaces the exception that was under way.
\<close>

definition remove_and_rethrow :: "string \<Rightarrow> exn \<Rightarrow> host \<Rightarrow> int throwing" where
  "remove_and_rethrow temp e h = and_then (fs_remove temp h) (\<lambda>_ h. (Inl e, h))"

definition with_temp :: "string \<Rightarrow> (host \<Rightarrow> int throwing) \<Rightarrow> host \<Rightarrow> int throwing" where
  "with_temp temp body h =
     (case and_then (body h) (\<lambda>rc h. and_then (fs_remove temp h) (\<lambda>_ h. (Inr rc, h))) of
        (Inr rc, h) \<Rightarrow> (Inr rc, h)
      | (Inl e, h) \<Rightarrow> remove_and_rethrow temp e h)"

section \<open>nanlang\<close>

fun find_source_from :: "nat \<Rightarrow> string list \<Rightarrow> nat option" where
  "find_source_from i [] = None"
| "find_source_from i (a # as) =
     (if a = ''--output'' \<or> a = ''-o'' then (case as of [] \<Rightarrow> None | _ # as' \<Rightarrow> find_source_from (i + 2) as')
      else if prefix ''--output='' a then find_source_from (i + 1) as
      else if a \<noteq> [] \<and> hd a = CHR ''-'' then find_source_from (i + 1) as
      else Some i)"

definition find_compile_source_index :: "string list \<Rightarrow> nat option" where
  "find_compile_source_index args = find_source_from 0 args"

definition nanlang_help :: string where
  "nanlang_help = full_banner @ eol @ eol @
     ''Usage:'' @ eol @
     ''  nanlang <command> [args]'' @ eol @ eol @
     ''Commands:'' @ eol @
     ''  help                         Show this help'' @ eol @
     ''  version                      Print version banner'' @ eol @
     ''  pkg install -r req.txt       Resolve package requirements'' @ eol @
     ''  build --src app.nl           Compile source with optional package resolution'' @ eol @
     ''  compile <src.nl> --output o  Preprocess + native compile (--elf default)'' @ eol @
     ''  run <file.elf|script>        Execute native artifact'' @ eol @
     ''  ui-render <scene.nl>         Open the NanLang GTK renderer'' @ eol @
     ''  demo <name> [flags]          Run C++ demo mode'' @ eol"

definition run_pkg :: "shell \<Rightarrow> string list \<Rightarrow> host \<Rightarrow> int throwing" where
  "run_pkg sys args h =
     (let args = (if args \<noteq> [] \<and> hd args = ''install'' then tl args else args);
          p = parse_tokens args Parsed_new;
          req = kv_or p ''r'' []
      in if req = [] then (Inl (Runtime_error ''missing required flag: -r <req.txt>''), h)
         else and_then
           (run_build sys \<lparr>req_path = req, conf_path = kv_or p ''config'' (config_path h),
              dry_run = has_flag p ''dry-run'', verbose = has_flag p ''verbose'', target_name = []\<rparr> h)
           (\<lambda>_ h. (Inr 0, h)))"

definition run_build_cmd :: "shell \<Rightarrow> string list \<Rightarrow> host \<Rightarrow> int throwing" where
  "run_build_cmd sys args h =
     (let p = parse_tokens args Parsed_new;
          src = kv_or p ''src'' []; target = kv_or p ''output'' ''out.elf''; req = kv_or p ''r'' []
      in if src = [] then (Inl (Runtime_error ''missing required flag: --src <file.nl>''), h)
         else and_then
           (if req \<noteq> [] then run_pkg sys [''-r'', req, ''--dry-run''] h else (Inr 0, h))
           (\<lambda>_ h. and_then (make_temp_preprocessed_file h)
              (\<lambda>temp. with_temp temp
                 (\<lambda>h. and_then (preprocess_source_file sys src temp h)
                    (\<lambda>_ h. and_then (from_read resolve_cpp_command_path h)
                       (\<lambda>cpp h. let (rc, h) = run_command sys
                            [cpp, ''--compile'', temp, ''--elf'', ''--output'', target] True h
                          in (Inr rc, h)))))))"

definition run_compile_cmd :: "shell \<Rightarrow> string list \<Rightarrow> host \<Rightarrow> int throwing" where
  "run_compile_cmd sys args h =
     (case find_compile_source_index args of
        None \<Rightarrow> (Inl (Runtime_error ''missing source file for compile (expected: nanlang compile <src.nl> --output <out.elf>)''), h)
      | Some i \<Rightarrow> and_then (make_temp_preprocessed_file h)
          (\<lambda>temp. with_temp temp
             (\<lambda>h. and_then (preprocess_source_file sys (args ! i) temp h)
                (\<lambda>_ h. and_then (from_read resolve_cpp_command_path h)
                   (\<lambda>cpp h. let (rc, h) = run_command sys (cpp # ''compile'' # args[i := temp]) True h
                      in (Inr rc, h))))))"

definition delegate_cpp :: "shell \<Rightarrow> string \<Rightarrow> string list \<Rightarrow> host \<Rightarrow> int throwing" where
  "delegate_cpp sys verb args h =
     and_then (from_read resolve_cpp_command_path h)
       (\<lambda>cpp h. let (rc, h) = run_command sys
            (cpp # (if verb = ''ui-render'' then ''--ui-render'' else verb) # args) True h
          in (Inr rc, h))"

definition nanlang_main :: "shell \<Rightarrow> string list \<Rightarrow> host \<Rightarrow> int \<times> host" where
  "nanlang_main sys argv h =
     (case argv of [] \<Rightarrow> (0, say nanlang_help h)
      | cmd # args \<Rightarrow>
          if cmd \<in> {''help'', ''-h'', ''--help''} then (0, say nanlang_help h)
          else if cmd \<in> {''version'', ''-v'', ''--version''} then (0, say (full_banner @ eol) h)
          else catch_all ''nanlang''
            (if cmd = ''pkg'' then run_pkg sys args h
             else if cmd = ''build'' then run_build_cmd sys args h
             else if cmd = ''compile'' then run_compile_cmd sys args h
             else if cmd = ''run'' \<or> cmd = ''demo'' \<or> cmd = ''ui-render'' then delegate_cpp sys cmd args h
             else (Inl (Runtime_error (''unknown command '' @ quoted cmd)), say nanlang_help h)))"

section \<open>npi\<close>

definition npi_help :: string where
  "npi_help = full_banner @ eol @ eol @
     ''USAGE (Legacy CLI - prefer ./nanlang pkg ...)'' @ eol @
     ''  npi -r <req.txt> [flags]'' @ eol @ eol @
     ''FLAGS'' @ eol @
     ''  -r <file>          Requirements file (required)'' @ eol @
     ''  --build            Full pipeline'' @ eol @
     ''  --dry-run          Preview'' @ eol @
     ''  --verbose          Verbose'' @ eol"

definition kOriginalityKey :: string where
  "kOriginalityKey = ''iTjz07jXdTggEDBfmYLK+xrkRgNipuDI63JvIdsQzXB4yES7J/N8wq+xpyFT0dYEGNZ6spRFyJ4=''"

definition list_packages :: "PackageEntry list \<Rightarrow> string" where
  "list_packages ps =
     concat (map (\<lambda>(i, pkg). ''  '' @ nat_to_string (i + 1) @ ''. '' @ package_to_string pkg @
        (if pk_comment pkg = [] then [] else ''  # '' @ pk_comment pkg) @ eol) (enumerate 0 ps))"

definition npi_body :: "shell \<Rightarrow> Parsed \<Rightarrow> host \<Rightarrow> int throwing" where
  "npi_body sys p h =
     (let req = kv_or p ''r'' []
      in if req = [] then (Inl (Runtime_error ''missing required flag: -r <req.txt>''), say npi_help h)
         else and_then (from_read (parse_reqfile req) (say (full_banner @ eol @ eol) h))
           (\<lambda>rf h.
              let h = say (''Loaded '' @ nat_to_string (rq_count rf) @ '' package(s) from '' @ rq_path rf @ '':'' @ eol) h;
                  h = say (list_packages (rq_packages rf) @ eol) h
              in if has_flag p ''build'' then
                   and_then
                     (run_build sys \<lparr>req_path = req, conf_path = kv_or p ''config'' (config_path h),
                        dry_run = has_flag p ''dry-run'', verbose = has_flag p ''verbose'',
                        target_name = kv_or p ''output'' ''output.elf''\<rparr> h)
                     (\<lambda>r h. (Inr 0, say (eol @ ''[OK] Output: '' @ output_file r @ eol @
                        ''  Packages : '' @ nat_to_string (packages r) @ eol @
                        ''  Duration : '' @ clock_text h @ ''s'' @ eol) h))
                 else (Inr 0, say (''Run with --build to execute the full build pipeline.'' @ eol @
                        ''Use ./nanlang pkg install -r req.txt for unified CLI.'' @ eol) h)))"

definition npi_main :: "shell \<Rightarrow> string list \<Rightarrow> host \<Rightarrow> int \<times> host" where
  "npi_main sys args h =
     (let p = parse_tokens args Parsed_new
      in if has_flag p ''help'' \<or> has_flag p ''h'' then (0, say npi_help h)
         else if has_flag p ''version'' then (0, say (full_banner @ eol) h)
         else if has_flag p ''origin'' then
           (0, say (''Project originality key (source-only, never compiled into binary):'' @ eol @
                '' '' @ kOriginalityKey @ eol) h)
         else catch_all ''npi error'' (npi_body sys p h))"

section \<open>Temporary files\<close>

text \<open>
  What an exit code and a host say of the temporary file: it is gone, or the removal threw and that
  exception is the outcome.
\<close>

definition temp_settled :: "string \<Rightarrow> int throwing \<Rightarrow> bool" where
  "temp_settled n r \<longleftrightarrow> \<not> fs_exists (snd r) n \<or> fst r = Inl (Filesystem_error n) \<and> \<not> can_unlink (snd r) n"

lemma fs_remove_gone: "can_unlink h n \<Longrightarrow> \<exists>k. fs_remove n h = (Inr (), k) \<and> \<not> fs_exists k n"
  by (simp add: fs_exists_def fs_remove_def on_world_def)

lemma fs_remove_throws: "\<not> can_unlink h n \<Longrightarrow> fs_remove n h = (Inl (Filesystem_error n), h)"
  by (simp add: fs_remove_def)

lemma remove_and_rethrow_settled: "temp_settled n (remove_and_rethrow n e h)"
  using fs_remove_gone [of h n] fs_remove_throws [of h n]
  by (cases "can_unlink h n") (auto simp: temp_settled_def remove_and_rethrow_def and_then_def)

lemma with_temp_settled: "temp_settled n (with_temp n body h)"
proof -
  have "\<not> fs_exists k n" if "fs_remove n g = (Inr (), k)" for g k
    using that by (cases "can_unlink g n") (auto simp: fs_remove_gone fs_remove_throws dest: fs_remove_gone)
  then have "temp_settled n (Inr rc, k)" if "fs_remove n g = (Inr (), k)" for g k and rc :: int
    using that by (auto simp: temp_settled_def)
  then show ?thesis
    unfolding with_temp_def and_then_def
    by (auto simp only: remove_and_rethrow_settled split: prod.split sum.split) auto
qed

text \<open>On a removable file both ways out are the expected ones.\<close>

lemma with_temp_removes:
  assumes "body h = (Inr rc, k)" "can_unlink k n"
  shows "with_temp n body h = (Inr rc, snd (fs_remove n k))"
  using assms by (simp add: with_temp_def and_then_def fs_remove_def)

lemma with_temp_keeps:
  assumes "body h = (Inr rc, k)" "\<not> can_unlink k n"
  shows "with_temp n body h = (Inl (Filesystem_error n), k)"
  using assms by (simp add: with_temp_def remove_and_rethrow_def and_then_def fs_remove_def)

lemma temp_name_say [simp]: "temp_name (say s h) = temp_name h"
  by (simp add: on_world_def)

lemma temp_scope_settled:
  assumes "temp_name h = Some n" "\<not> fs_exists h n"
  shows "temp_settled n (and_then (make_temp_preprocessed_file h) (\<lambda>temp. with_temp temp (body temp)))"
  using assms by (simp add: make_temp_preprocessed_file_def and_then_def with_temp_settled)

lemma dry_run_flag:
  "has_flag (parse_tokens [''--dry-run''] q) ''dry-run''"
  "has_flag (parse_tokens [tok, ''--dry-run''] q) ''dry-run''"
  by (auto simp: has_flag_def set_flag_def set_kv_def Let_def)

lemma run_pkg_dry: "\<exists>s. snd (run_pkg sys [''-r'', req, ''--dry-run''] h) = say s h"
proof -
  have f: "has_flag (parse_tokens [''-r'', req, ''--dry-run''] Parsed_new) ''dry-run''"
    using dry_run_flag by (simp add: Let_def del: parse_tokens.simps add: parse_tokens.simps(2) [of "''-r''"])
  have "only_printed h (snd (run_pkg sys [''-r'', req, ''--dry-run''] h))"
    unfolding run_pkg_def Let_def
    by (auto simp: f only_printed_refl simp del: parse_tokens.simps
        intro!: only_printed_bind run_build_dry)
  then show ?thesis by (simp add: only_printed_def)
qed

lemma run_build_cmd_settled:
  assumes "temp_name h = Some n" "\<not> fs_exists h n"
  shows "temp_settled n (run_build_cmd sys args h)"
proof -
  define req where "req = kv_or (parse_tokens args Parsed_new) ''r'' []"
  define r where "r = (if req \<noteq> [] then run_pkg sys [''-r'', req, ''--dry-run''] h else (Inr 0, h))"
  have "only_printed h (snd r)"
    using run_pkg_dry [of sys req h] only_printed_refl [of h] by (auto simp: r_def only_printed_def)
  then obtain s where s: "snd r = say s h" by (auto simp: only_printed_def)
  have missing: "temp_settled n (Inl e, g)" if "\<not> fs_exists g n" for e g using that by (simp add: temp_settled_def)
  show ?thesis
    unfolding run_build_cmd_def Let_def req_def [symmetric] r_def [symmetric]
    using assms s by (cases r; cases "fst r") (auto simp: and_then_simps temp_scope_settled missing)
qed

lemma run_compile_cmd_settled:
  assumes "temp_name h = Some n" "\<not> fs_exists h n"
  shows "temp_settled n (run_compile_cmd sys args h)"
  using assms temp_scope_settled by (simp add: run_compile_cmd_def temp_settled_def split: option.split)

lemma settled_report:
  assumes "temp_settled n r" "fs_exists (snd (catch_all prog_name r)) n"
  shows "\<exists>k. catch_all prog_name r = (1, on_world (cerr (prog_name @ '': '' @ fs_what k n @ eol)) k) \<and> \<not> can_unlink k n"
proof (cases r)
  case (Pair x k)
  then show ?thesis
    using assms by (cases x) (auto simp: catch_all_def temp_settled_def exn_what_def on_world_def fs_exists_def cerr_def)
qed

text \<open>
  C20. \<open>build\<close> and \<open>compile\<close> leave the preprocessed temporary file behind only when the system refuses
  to remove it: whatever the arguments, the tools they find, and the commands they run do, also when
  an exception ends them, either the file is gone at the end, or its removal threw, and then the exit
  code is 1 whatever the compiler answered and the removal's error is the last thing on the error
  output.
\<close>

theorem no_temporary_left:
  assumes "cmd = ''build'' \<or> cmd = ''compile''"
    and "temp_name h = Some n" and "\<not> fs_exists h n"
    and "nanlang_main sys (cmd # args) h = (rc, h')" and "fs_exists h' n"
  shows "rc = 1 \<and> \<not> can_unlink h' n \<and> (\<exists>k. h' = on_world (cerr (''nanlang: '' @ fs_what k n @ eol)) k)"
proof -
  define r where "r = (if cmd = ''build'' then run_build_cmd sys args h else run_compile_cmd sys args h)"
  have r: "nanlang_main sys (cmd # args) h = catch_all ''nanlang'' r" "temp_settled n r"
    using assms(1) run_compile_cmd_settled [OF assms(2,3)] run_build_cmd_settled [OF assms(2,3)]
    by (auto simp: nanlang_main_def r_def)
  show ?thesis using settled_report [OF r(2), of "''nanlang''"] assms(4,5) unfolding r(1) by (auto simp: on_world_def)
qed

theorem no_temporary_left_witness:
  "\<exists>h' k. nanlang_main (\<lambda>_ h. (0, h)) [''compile'', ''a.nl'']
       ((sample_host (sample_world ''a.nl'' []))\<lparr>can_unlink := (\<lambda>_. False)\<rparr>) = (1, h') \<and>
     fs_exists h' ''/tmp/nanlang_preprocessed_abcdef.nl'' \<and>
     h' = on_world (cerr (''nanlang: '' @ fs_what k ''/tmp/nanlang_preprocessed_abcdef.nl'' @ eol)) k"
proof -
  let ?h = "(sample_host (sample_world ''a.nl'' []))\<lparr>can_unlink := (\<lambda>_. False)\<rparr>"
  obtain rc h' where r: "nanlang_main (\<lambda>_ h. (0, h)) [''compile'', ''a.nl''] ?h = (rc, h')" by fastforce
  have "fs_exists (snd (nanlang_main (\<lambda>_ h. (0, h)) [''compile'', ''a.nl''] ?h)) ''/tmp/nanlang_preprocessed_abcdef.nl''"
    by code_simp
  then have e: "fs_exists h' ''/tmp/nanlang_preprocessed_abcdef.nl''" unfolding r by simp
  show ?thesis
    using no_temporary_left [OF _ _ _ r e] r e
    by (auto simp: sample_host_def fs_exists_def sample_world_def)
qed

end
