(* ===== verification/Cli_Driver.thy ===== *)
theory Cli_Driver
  imports Cli Driver
begin

text \<open>
  The command-line tools composed with the compiler they call: the command lines that \<open>nanlang\<close>
  and \<open>npi\<close> build, split by the shell, are the argument vectors of \<open>nanlang_cpp\<close>'s \<open>main\<close>.
\<close>

section \<open>Words on the command line\<close>

text \<open>An argument that no program takes for an option or a command word.\<close>

definition ordinary :: "string \<Rightarrow> bool" where
  "ordinary a \<longleftrightarrow> a \<noteq> [] \<and> hd a \<noteq> CHR ''-'' \<and>
     a \<noteq> ''compile'' \<and> a \<noteq> ''run'' \<and> a \<noteq> ''demo'' \<and> a \<noteq> ''help'' \<and> a \<noteq> ''version'' \<and> a \<noteq> ''true''"

lemma ordinary_facts:
  assumes "ordinary a"
  shows "\<not> prefix ''--'' a" "\<not> prefix ''-'' a" "\<not> starts_with_dash a" "a \<noteq> []" "hd a \<noteq> CHR ''-''"
    "a \<noteq> ''-h''" "a \<noteq> ''-v''" "a \<noteq> ''compile''" "a \<noteq> ''run''" "a \<noteq> ''demo''" "a \<noteq> ''help''"
    "a \<noteq> ''version''" "a \<noteq> ''true''" "a \<noteq> ''--output''" "a \<noteq> ''-o''" "\<not> prefix ''--output='' a"
proof -
  obtain c cs where a: "a = c # cs" "c \<noteq> CHR ''-''" using assms by (cases a) (simp_all add: ordinary_def)
  show "\<not> prefix ''--'' a" "\<not> prefix ''-'' a" "\<not> starts_with_dash a" "a \<noteq> []" "hd a \<noteq> CHR ''-''"
    "a \<noteq> ''-h''" "a \<noteq> ''-v''" "a \<noteq> ''--output''" "a \<noteq> ''-o''" "\<not> prefix ''--output='' a"
    using a(2) by (simp_all add: a(1) starts_with_dash_def)
  show "a \<noteq> ''compile''" "a \<noteq> ''run''" "a \<noteq> ''demo''" "a \<noteq> ''help''" "a \<noteq> ''version''" "a \<noteq> ''true''"
    using assms unfolding ordinary_def by - ((elim conjE, assumption)+)
qed

lemma parse_args_Nil: "parse_args [] a = a"
  by (subst parse_args.simps) simp

lemma parse_args_option:
  "parse_args ((CHR ''-'' # CHR ''-'' # key) # v # rest) a =
     (if \<not> starts_with_dash v then parse_args rest (a\<lparr>kv := (kv a)(key \<mapsto> v)\<rparr>)
      else parse_args (v # rest) (a\<lparr>flags := (flags a)(key \<mapsto> True)\<rparr>))"
  by (subst parse_args.simps) simp

lemma parse_args_compile:
  "parse_args (''compile'' # v # rest) a = parse_args rest (a\<lparr>kv := (kv a)(''compile'' \<mapsto> v)\<rparr>)"
  by (subst parse_args.simps) simp

lemma parse_args_skip:
  "\<not> prefix ''--'' tok \<Longrightarrow> tok \<notin> {''compile'', ''run'', ''demo'', ''help'', ''-h'', ''version'', ''-v''} \<Longrightarrow>
   parse_args (tok # rest) a = parse_args rest a"
  by (subst parse_args.simps) simp

lemma parse_args_ordinary: "ordinary tok \<Longrightarrow> parse_args (tok # rest) a = parse_args rest a"
  using ordinary_facts [of tok] by (intro parse_args_skip) auto

lemma slow_path_main:
  "v \<notin> {''--ui-render'', ''--compile'', ''--run''} \<Longrightarrow>
   main p (exe # v # rest) w = slow_path p (parse_args (v # rest) Args_new) w"
  by (simp add: main_def fast_path_compile_run_def)

lemmas read_args = slow_path_main parse_args_compile parse_args_Nil parse_args_ordinary parse_args_option

text \<open>
  A shell whose compiler is \<open>nanlang_cpp\<close>: the words of the command line are its argument vector
  and its exit code is in the upper byte of the status. \<open>other\<close> takes the lines that are not plain
  words.
\<close>

definition compiler_shell :: "platform \<Rightarrow> shell \<Rightarrow> shell" where
  "compiler_shell p other line h =
     (case sh_words line of
        Some argv \<Rightarrow>
          (case main p argv (hw h) of
             Some (rc, w) \<Rightarrow> (rc mod 256 * 256, h\<lparr>hw := w\<rparr>)
           | None \<Rightarrow> (-1, h))
      | None \<Rightarrow> other line h)"

definition no_null :: "string \<Rightarrow> bool" where
  "no_null s \<longleftrightarrow> CHR 0x00 \<notin> set s"

lemma no_null_quote: "no_null s \<Longrightarrow> no_null (quote_body s)"
  by (induction s) (auto simp: no_null_def squote_def)

lemma no_null_line: "\<forall>a \<in> set args. no_null a \<Longrightarrow> no_null (command_line args)"
proof (induction args rule: command_line.induct)
  case (2 a)
  then show ?case using no_null_quote [of a] by (auto simp: no_null_def shell_quote_def squote_def)
next
  case (3 a b as)
  then show ?case using no_null_quote [of a]
    by (auto simp: no_null_def shell_quote_def squote_def simp del: command_line.simps(2))
qed (simp add: no_null_def)

lemma compiler_shell_runs:
  assumes "\<forall>a \<in> set args. no_null a" "main p args (hw h) = Some (rc, w)"
  shows "run_command (compiler_shell p other) args True h = (rc mod 256, h\<lparr>hw := w\<rparr>)"
proof -
  have "takeWhile (\<lambda>c. c \<noteq> CHR 0x00) (command_line args) = command_line args"
    using no_null_line [OF assms(1)] by (auto simp: no_null_def takeWhile_eq_all_conv)
  then show ?thesis
    using assms(2) by (simp add: run_command_def run_shell_def compiler_shell_def lex_command_line
        shell_status_def del: takeWhile_eq_all_conv)
qed

section \<open>nanlang compile\<close>

lemma aot_compile_code: "fst (aot_compile b src out w) = 0 \<or> fst (aot_compile b src out w) = 1"
  by (simp add: aot_compile_def split: prod.split)

text \<open>The wrapper, once the preprocessor has run, for every way to write the arguments.\<close>

lemma nanlang_compile_steps:
  assumes "temp_name h = Some temp" "find_compile_source_index args = Some i"
    and "\<forall>a \<in> set (cpp # args[i := temp]). no_null a"
    and "preprocess_source_file (compiler_shell p other) (args ! i) temp (snd (make_temp_preprocessed_file h)) = (Inr (), h1)"
    and "resolve_cpp_command_path h1 = Inr cpp"
    and "main p (cpp # ''compile'' # args[i := temp]) (hw h1) = Some (aot_compile b src out (hw h1))"
    and "aot_compile b src out (hw h1) = (rc, w)"
  shows "nanlang_main (compiler_shell p other) (''compile'' # args) h =
    (if can_unlink h1 temp then (rc, snd (fs_remove temp (h1\<lparr>hw := w\<rparr>)))
     else (1, on_world (cerr (''nanlang: '' @ fs_what h1 temp @ eol)) (h1\<lparr>hw := w\<rparr>)))"
proof -
  let ?sys = "compiler_shell p other"
  define words where "words = cpp # ''compile'' # args[i := temp]"
  have rc: "rc mod 256 = rc" using aot_compile_code [of b src out "hw h1"] assms(7) by auto
  have nn: "\<forall>a \<in> set words. no_null a"
    using assms(3) by (simp add: words_def no_null_def)
  define k where "k = snd (make_temp_preprocessed_file h)"
  have make: "make_temp_preprocessed_file h = (Inr temp, k)"
    by (simp add: k_def make_temp_preprocessed_file_def assms(1))
  have run: "run_command ?sys words True h1 = (rc mod 256, h1\<lparr>hw := w\<rparr>)"
    using assms(6,7) by (intro compiler_shell_runs [OF nn]) (simp add: words_def)
  have body: "and_then (preprocess_source_file ?sys (args ! i) temp k)
      (\<lambda>_ h. and_then (from_read resolve_cpp_command_path h)
        (\<lambda>cpp h. let (rc, h) = run_command ?sys (cpp # ''compile'' # args[i := temp]) True h in (Inr rc, h)))
      = (Inr rc, h1\<lparr>hw := w\<rparr>)"
    unfolding k_def assms(4) and_then_simps from_read_def assms(5) words_def [symmetric] run by (simp add: rc)
  have "run_compile_cmd ?sys args h =
      (if can_unlink h1 temp then (Inr rc, snd (fs_remove temp (h1\<lparr>hw := w\<rparr>)))
       else (Inl (Filesystem_error temp), h1\<lparr>hw := w\<rparr>))"
    unfolding run_compile_cmd_def assms(2) option.case make and_then_simps
    using with_temp_removes [where body = "\<lambda>h. and_then (preprocess_source_file ?sys (args ! i) temp h) _", OF body]
      with_temp_keeps [where body = "\<lambda>h. and_then (preprocess_source_file ?sys (args ! i) temp h) _", OF body]
    by simp
  then show ?thesis by (simp add: nanlang_main_def catch_all_def exn_what_def)
qed

text \<open>What the wrapper makes of the compiler's result when the temporary file can be removed.\<close>

definition compiled_and_removed :: "string \<Rightarrow> host \<Rightarrow> int \<times> world \<Rightarrow> int \<times> host" where
  "compiled_and_removed temp h r = (fst r, snd (fs_remove temp (h\<lparr>hw := snd r\<rparr>)))"

lemma compile_words:
  assumes "ordinary target" "ordinary temp"
  shows "main p [cpp, ''compile'', temp, ''--output'', target] w = Some (aot_compile False temp target w)"
    "main p [cpp, ''compile'', temp, ''-o'', target] w = Some (aot_compile False temp ''output.elf'' w)"
    "main p [cpp, ''compile'', ''--output'', target, temp] w = Some (aot_compile False ''--output'' ''output.elf'' w)"
  using ordinary_facts [OF assms(1)] ordinary_facts [OF assms(2)] assms
  by (simp_all add: slow_path_def args_has_def args_get_def Args_new_def read_args parse_args_skip)

lemma source_index:
  assumes "ordinary src"
  shows "find_compile_source_index [src, ''--output'', target] = Some 0"
    "find_compile_source_index [src, ''-o'', target] = Some 0"
    "find_compile_source_index [''--output'', target, src] = Some 2"
  using ordinary_facts [OF assms] by (simp_all add: find_compile_source_index_def)

text \<open>
  C21. \<open>nanlang compile\<close> preprocesses the source to the temporary file and hands its arguments to
  \<open>nanlang_cpp compile\<close> with the source replaced by that file; when the file can be removed, the exit
  code and the effects are the compiler's, less the file. With the source first and \<open>--output\<close> the
  compiler compiles the file to the named output. The two other forms the wrapper accepts go wrong in
  the compiler: \<open>-o\<close> is ignored there, so the output is \<open>output.elf\<close>, and with the options first the
  compiler takes the word after \<open>compile\<close>, \<open>--output\<close>, for the source file. The shell finds the
  tools, the preprocessor has succeeded, and the names are neither options nor command words and
  hold no null byte.
\<close>

theorem compile_delegation:
  assumes "temp_name h = Some temp" and "ordinary src" and "ordinary target" and "ordinary temp"
    and "no_null cpp" and "no_null temp" and "no_null target"
    and "preprocess_source_file (compiler_shell p other) src temp (snd (make_temp_preprocessed_file h)) = (Inr (), h1)"
    and "resolve_cpp_command_path h1 = Inr cpp" and "can_unlink h1 temp"
  shows "nanlang_main (compiler_shell p other) [''compile'', src, ''--output'', target] h =
      compiled_and_removed temp h1 (aot_compile False temp target (hw h1)) \<and>
    nanlang_main (compiler_shell p other) [''compile'', src, ''-o'', target] h =
      compiled_and_removed temp h1 (aot_compile False temp ''output.elf'' (hw h1)) \<and>
    nanlang_main (compiler_shell p other) [''compile'', ''--output'', target, src] h =
      compiled_and_removed temp h1 (aot_compile False ''--output'' ''output.elf'' (hw h1))"
proof -
  have steps: "nanlang_main (compiler_shell p other) (''compile'' # args) h =
      compiled_and_removed temp h1 (aot_compile False s out (hw h1))"
    if "find_compile_source_index args = Some i" "args ! i = src" "\<forall>a \<in> set (args[i := temp]). no_null a"
      "main p (cpp # ''compile'' # args[i := temp]) (hw h1) = Some (aot_compile False s out (hw h1))" for args i s out
    using nanlang_compile_steps [where args = args and i = i and b = False and src = s and out = out,
        OF assms(1) that(1) _ _ assms(9) that(4)] assms(5,8,10) that(2,3)
    by (simp add: compiled_and_removed_def)
  note words = compile_words [OF assms(3,4), of p cpp "hw h1"] and idx = source_index [OF assms(2), of target]
  have nn: "no_null ''--output''" "no_null ''-o''" by (simp_all add: no_null_def)
  show ?thesis
    using steps [OF idx(1), of temp target] steps [OF idx(2), of temp "''output.elf''"]
      steps [OF idx(3), of "''--output''" "''output.elf''"] words nn assms(6,7)
    by (simp add: numeral_2_eq_2)
qed

text \<open>A host with the tools in place, and a preprocessor that writes a given text.\<close>

definition tool_host :: host where
  "tool_host = (sample_host ((sample_world ''a.nl'' [])\<lparr>environ := [''PATH'' \<mapsto> ''/bin'']\<rparr>))
     \<lparr>present := (\<lambda>q. q \<in> {''/bin/raku'', ''./scripts/nan_preprocessor.raku'', ''./bin/nanlang_cpp''})\<rparr>"

definition raku_shell :: "string \<Rightarrow> shell" where
  "raku_shell t = (\<lambda>_ h. (0, put_file ''/tmp/nanlang_preprocessed_abcdef.nl'' t h))"

definition tool_host_preprocessed :: "string \<Rightarrow> host" where
  "tool_host_preprocessed t = put_file ''/tmp/nanlang_preprocessed_abcdef.nl'' t (snd (make_temp_preprocessed_file tool_host))"

lemma tool_host_preprocess:
  "preprocess_source_file (compiler_shell sample_platform (raku_shell t)) ''a.nl'' ''/tmp/nanlang_preprocessed_abcdef.nl''
     (snd (make_temp_preprocessed_file tool_host)) =
   (Inr (), tool_host_preprocessed t)"
proof -
  define k where "k = snd (make_temp_preprocessed_file tool_host)"
  have k: "environ (hw k) = [''PATH'' \<mapsto> ''/bin'']" "present k = present tool_host" "exe_link k = None"
    by (simp_all add: k_def make_temp_preprocessed_file_def tool_host_def sample_host_def on_world_def)
  have split: "split_at (CHR '':'') ''/bin'' = [''/bin'']" by code_simp
  have ex: "fs_exists k ''/bin/raku''" "fs_exists k ''./scripts/nan_preprocessor.raku''"
    by (simp_all add: fs_exists_def k(2) tool_host_def)
  have "find_in_path ''raku'' k = ''/bin/raku''"
    using ex by (simp add: find_in_path_def getenv_def k(1) split path_append_def)
  then have raku: "resolve_raku_path k = Inr ''/bin/raku''" by (simp add: resolve_raku_path_def)
  have pre: "resolve_preprocessor_path k = Inr ''./scripts/nan_preprocessor.raku''"
    using ex by (simp add: resolve_preprocessor_path_def from_env_def getenv_def k(1,3) current_executable_path_def)
  define line where "line = shell_quote ''/bin/raku'' @ '' '' @ shell_quote ''./scripts/nan_preprocessor.raku'' @ '' '' @
    shell_quote ''a.nl'' @ '' > '' @ shell_quote ''/tmp/nanlang_preprocessed_abcdef.nl''"
  have "sh_words line = None" "takeWhile (\<lambda>c. c \<noteq> CHR 0x00) line = line"
    unfolding line_def by code_simp+
  then have "run_shell (compiler_shell sample_platform (raku_shell t)) line k =
      (0, put_file ''/tmp/nanlang_preprocessed_abcdef.nl'' t k)"
    by (simp add: run_shell_def compiler_shell_def raku_shell_def shell_status_def del: takeWhile_eq_all_conv)
  then show ?thesis
    unfolding tool_host_preprocessed_def k_def [symmetric] preprocess_source_file_def from_read_def raku pre and_then_simps line_def [symmetric]
    by simp
qed

lemma tool_host_preprocessed_facts:
  shows "can_create (hw (tool_host_preprocessed t)) q" "disk_room (hw (tool_host_preprocessed t)) q = None" "can_unlink (tool_host_preprocessed t) q"
    "read_text (hw (tool_host_preprocessed t)) ''/tmp/nanlang_preprocessed_abcdef.nl'' = Some t"
    "resolve_cpp_command_path (tool_host_preprocessed t) = Inr ''./bin/nanlang_cpp''"
proof -
  define k where "k = tool_host_preprocessed t"
  have w: "environ (hw k) = [''PATH'' \<mapsto> ''/bin'']" "present k = present tool_host" "exe_link k = None"
    "files (hw k) ''/bin/nanlang_cpp'' = None"
    and f: "can_create (hw k) q" "disk_room (hw k) q = None" "can_unlink k q"
      "read_text (hw k) ''/tmp/nanlang_preprocessed_abcdef.nl'' = Some t"
    by (simp_all add: k_def tool_host_preprocessed_def put_file_def on_world_def make_temp_preprocessed_file_def tool_host_def
        sample_host_def sample_world_def write_file_def read_text_def read_file_def store_file_def)
  have split: "split_at (CHR '':'') ''/bin'' = [''/bin'']" by code_simp
  have "find_in_path ''nanlang_cpp'' k = []"
    by (simp add: find_in_path_def getenv_def w split path_append_def fs_exists_def tool_host_def)
  then show "resolve_cpp_command_path (tool_host_preprocessed t) = Inr ''./bin/nanlang_cpp''"
    unfolding k_def [symmetric]
    by (simp add: resolve_cpp_command_path_def from_env_def getenv_def w current_executable_path_def)
       (simp add: fs_exists_def w tool_host_def)
  show "can_create (hw (tool_host_preprocessed t)) q" "disk_room (hw (tool_host_preprocessed t)) q = None"
    "can_unlink (tool_host_preprocessed t) q"
    "read_text (hw (tool_host_preprocessed t)) ''/tmp/nanlang_preprocessed_abcdef.nl'' = Some t"
    using f by (simp_all add: k_def)
qed

lemma tool_host_names:
  "temp_name tool_host = Some ''/tmp/nanlang_preprocessed_abcdef.nl''" "ordinary ''a.nl''" "ordinary ''a.elf''"
  "ordinary ''/tmp/nanlang_preprocessed_abcdef.nl''" "no_null ''./bin/nanlang_cpp''"
  "no_null ''/tmp/nanlang_preprocessed_abcdef.nl''" "no_null ''a.elf''"
  by (simp_all add: tool_host_def sample_host_def ordinary_def no_null_def)

lemma tool_host_other_file: "read_text (hw (tool_host_preprocessed t)) ''--output'' = None"
  by (simp add: tool_host_preprocessed_def put_file_def on_world_def make_temp_preprocessed_file_def tool_host_def
      sample_host_def sample_world_def write_file_def read_text_def read_file_def store_file_def)

theorem compile_delegation_witness:
  "fst (nanlang_main (compiler_shell sample_platform (raku_shell ''say 1;'')) [''compile'', ''a.nl'', ''-o'', ''a.elf''] tool_host) =
     fst (aot_compile False ''/tmp/nanlang_preprocessed_abcdef.nl'' ''output.elf'' (hw (tool_host_preprocessed ''say 1;''))) \<and>
   fst (nanlang_main (compiler_shell sample_platform (raku_shell ''say 1;'')) [''compile'', ''--output'', ''a.elf'', ''a.nl''] tool_host) =
     1"
  using compile_delegation [OF tool_host_names tool_host_preprocess
      tool_host_preprocessed_facts(5,3), where t1 = "''say 1;''"]
    unreadable_source [of "hw (tool_host_preprocessed ''say 1;'')" "''--output''"]
  by (simp add: compiled_and_removed_def tool_host_other_file)

section \<open>npi --build\<close>

lemma compiler_args_words:
  "compiler_args cfg m t =
     compiler cfg # ''build'' # ''--manifest'' # m # ''--output'' # t # ''--lib'' # lib_dir cfg # split_ws (build_flags cfg)"
  by (simp add: compiler_args_def split_ws.simps [of "[]"])

text \<open>The words that make \<open>nanlang_cpp\<close> do something; the other words of \<open>build_flags\<close> are ignored.\<close>

definition names_a_command :: "Args \<Rightarrow> bool" where
  "names_a_command a \<longleftrightarrow> list_ex (args_has a) [''help'', ''version'', ''ui-render'', ''compile'', ''run'', ''demo'']"

definition no_command_words :: "string list \<Rightarrow> bool" where
  "no_command_words ws \<longleftrightarrow> \<not> names_a_command (parse_args ws Args_new)"

lemma args_has_simps [simp]:
  "args_has Args_new k = False"
  "args_has (a\<lparr>kv := (kv a)(q \<mapsto> v)\<rparr>) k \<longleftrightarrow> k = q \<or> args_has a k"
  "args_has (a\<lparr>flags := (flags a)(q \<mapsto> b)\<rparr>) k \<longleftrightarrow> k = q \<or> args_has a k"
  by (auto simp: args_has_def Args_new_def)

text \<open>What the words add does not depend on what was read before them.\<close>

lemma parse_args_step:
  "\<exists>f ts. length ts \<le> length rest \<and> (\<forall>a. parse_args (tok # rest) a = parse_args ts (f a)) \<and>
     (\<forall>a k. args_has (f a) k \<longleftrightarrow> args_has a k \<or> args_has (f Args_new) k)"
proof -
  have put: ?thesis
    if "\<And>a. parse_args (tok # rest) a = parse_args ts (a\<lparr>kv := (kv a)(q \<mapsto> x)\<rparr>)" "length ts \<le> length rest" for ts q x
    using that by (intro exI [of _ "\<lambda>a. a\<lparr>kv := (kv a)(q \<mapsto> x)\<rparr>"] exI [of _ ts]) auto
  have raise: ?thesis if "\<And>a. parse_args (tok # rest) a = parse_args rest (a\<lparr>flags := (flags a)(q \<mapsto> x)\<rparr>)" for q x
    using that by (intro exI [of _ "\<lambda>a. a\<lparr>flags := (flags a)(q \<mapsto> x)\<rparr>"] exI [of _ rest]) auto
  note eqn = parse_args.simps [of "tok # us" for us]
  consider (dashed) "prefix ''--'' tok" | (verb) "\<not> prefix ''--'' tok" "tok = ''compile'' \<or> tok = ''run'' \<or> tok = ''demo''"
    | (asks_help) "tok = ''help'' \<or> tok = ''-h''" | (asks_version) "tok = ''version'' \<or> tok = ''-v''"
    | (other) "\<not> prefix ''--'' tok" "tok \<notin> {''compile'', ''run'', ''demo'', ''help'', ''-h'', ''version'', ''-v''}"
    by auto
  then show ?thesis
  proof cases
    case dashed
    show ?thesis
    proof (cases "rest = [] \<or> starts_with_dash (hd rest)")
      case True
      then show ?thesis by (intro raise [of "drop 2 tok" True]) (cases rest; simp add: eqn dashed Let_def)
    next
      case False
      then show ?thesis
        by (intro put [of "tl rest" "drop 2 tok" "hd rest"]) (cases rest; simp add: eqn dashed Let_def)+
    qed
  next
    case verb
    have "parse_args (tok # us) a = (case us of [] \<Rightarrow> parse_args us (a\<lparr>kv := (kv a)(tok \<mapsto> ''true'')\<rparr>)
        | v # r \<Rightarrow> parse_args r (a\<lparr>kv := (kv a)(tok \<mapsto> v)\<rparr>))" for us a
      by (subst parse_args.simps) (simp only: list.case verb if_True if_False)
    then show ?thesis
      by (intro put [of "tl rest" tok "if rest = [] then ''true'' else hd rest"]) (cases rest; simp)+
  next
    case asks_help
    then have "parse_args (tok # rest) a = parse_args rest (a\<lparr>flags := (flags a)(''help'' \<mapsto> True)\<rparr>)" for a
      by (elim disjE) (subst parse_args.simps, simp)+
    then show ?thesis by (rule raise)
  next
    case asks_version
    then have "parse_args (tok # rest) a = parse_args rest (a\<lparr>flags := (flags a)(''version'' \<mapsto> True)\<rparr>)" for a
      by (elim disjE) (subst parse_args.simps, simp)+
    then show ?thesis by (rule raise)
  next
    case other
    then show ?thesis by (intro exI [of _ "\<lambda>a. a"] exI [of _ rest]) (simp add: parse_args_skip)
  qed
qed

lemma parse_args_has: "args_has (parse_args ws a) k \<longleftrightarrow> args_has a k \<or> args_has (parse_args ws Args_new) k"
proof (induction ws arbitrary: a rule: length_induct)
  case (1 ws)
  show ?case
  proof (cases ws)
    case Nil
    then show ?thesis by (simp add: parse_args_Nil)
  next
    case (Cons tok rest)
    obtain f ts where f: "length ts \<le> length rest" "\<And>a. parse_args ws a = parse_args ts (f a)"
      "\<And>a. args_has (f a) k \<longleftrightarrow> args_has a k \<or> args_has (f Args_new) k"
      using parse_args_step [of rest tok] unfolding Cons by blast
    have "args_has (parse_args ts b) k \<longleftrightarrow> args_has b k \<or> args_has (parse_args ts Args_new) k" for b
      by (rule 1 [rule_format]) (use f(1) Cons in simp)
    note tail = this
    show ?thesis unfolding f(2) tail [of "f a"] tail [of "f Args_new"] f(3) [of a] by (simp only: disj_assoc)
  qed
qed

lemma build_is_rejected:
  assumes "\<not> starts_with_dash m" "\<not> starts_with_dash t" "\<not> starts_with_dash l" "no_command_words ws"
  shows "main p (exe # ''build'' # ''--manifest'' # m # ''--output'' # t # ''--lib'' # l # ws) w =
           Some (1, cerr (''[ERROR] Invalid arguments. Use --help.'' @ nl) w)"
proof -
  define a where "a = Args_new\<lparr>kv := [''manifest'' \<mapsto> m, ''output'' \<mapsto> t, ''lib'' \<mapsto> l]\<rparr>"
  have "parse_args (''build'' # ''--manifest'' # m # ''--output'' # t # ''--lib'' # l # ws) Args_new = parse_args ws a"
    using assms(1-3) by (simp add: a_def parse_args_skip parse_args_option Args_new_def)
  moreover have "\<not> args_has (parse_args ws a) k"
    if "k \<in> {''help'', ''version'', ''ui-render'', ''compile'', ''run'', ''demo''}" for k
    using that assms(4) parse_args_has [of ws a k]
    by (auto simp: no_command_words_def names_a_command_def a_def args_has_def Args_new_def)
  ultimately show ?thesis by (simp add: slow_path_main slow_path_def)
qed

text \<open>
  C16. \<open>npi --build\<close> calls the compiler with the command word \<open>build\<close>, which \<open>nanlang_cpp\<close> does not
  have, so the call is refused with exit code 1 unless a word of the configured \<open>build_flags\<close> is
  itself a command (such as \<open>--help\<close>, with which it exits with 0). The build takes no notice: it
  reports success, and the output file is the placeholder text, never a compiled program. This is
  stated for a verbose build (one that does not redirect the compiler's output) whose configured
  compiler is \<open>nanlang_cpp\<close>, whose requirement file and configuration are named and parse, which may make every
  directory and file it needs, whose build flags hold no command word (\<open>--opt\<close>, the repository's
  value, does not), whose configured directories are not empty, whose manifest, target and library
  paths do not start with a dash, and no word of whose compiler call holds a null byte.
\<close>

theorem npi_build_never_compiles:
  assumes "req_path opts \<noteq> []" "conf_path opts \<noteq> []" "\<not> dry_run opts" "verbose opts"
    and "parse_reqfile (req_path opts) h = Inr rf" "load_config (conf_path opts) h = Inr cfg"
    and "no_command_words (split_ws (build_flags cfg))"
    and "lib_dir cfg \<noteq> []" "cache_dir cfg \<noteq> []" "output_dir cfg \<noteq> []"
    and "roomy h" "\<forall>a \<in> set (compiler_args cfg (build_manifest cfg) (build_target opts cfg)). no_null a"
    and "\<not> starts_with_dash (build_manifest cfg)" "\<not> starts_with_dash (build_target opts cfg)"
    and "\<not> starts_with_dash (lib_dir cfg)"
  shows "\<exists>h'. run_build (compiler_shell p other) opts h =
            (Inr \<lparr>output_file = build_target opts cfg, packages = rq_count rf\<rparr>, h') \<and>
          read_text (hw h') (build_target opts cfg) = Some (placeholder_text (build_manifest cfg))"
proof -
  define h1 where "h1 = say (''[npi] Reading requirements: '' @ req_path opts @ eol) h"
  define h2 where "h2 = fold (\<lambda>pkg. say (''      * '' @ package_to_string pkg @ eol)) (rq_packages rf)
    (say (''[npi] Found '' @ nat_to_string (rq_count rf) @ '' package(s)'' @ eol) h1)"
  define h3 where "h3 = say (''[npi] Loading config: '' @ conf_path opts @ eol) h2"
  have f: "parse_reqfile (req_path opts) h1 = Inr rf" "load_config (conf_path opts) h3 = Inr cfg" "roomy h3"
    using assms(5,6,11) by (simp_all add: h1_def h2_def h3_def)
  have r: "run_command (compiler_shell p other) (compiler_args cfg (build_manifest cfg) (build_target opts cfg)) (verbose opts) k
      = (1, k\<lparr>hw := cerr (''[ERROR] Invalid arguments. Use --help.'' @ nl) (hw k)\<rparr>)" for k
    using compiler_shell_runs [OF assms(12), of p k] build_is_rejected [OF assms(13-15,7), of p "compiler cfg" "hw k"]
      assms(4) by (simp add: compiler_args_words)
  have "\<exists>rc k'. run_command (compiler_shell p other) (compiler_args cfg (build_manifest cfg) (build_target opts cfg))
      (verbose opts) k = (rc, k') \<and> rc \<noteq> 0 \<and> roomy k'" if "roomy k" for k
    unfolding r using that by (simp add: roomy_def)
  from build_from_failing [OF f(3) assms(3) parsed_entries_ok [OF assms(5)] assms(8-10) this]
  show ?thesis
    unfolding run_build_def Let_def if_not_P [OF assms(1)] if_not_P [OF assms(2)] from_read_def
      h1_def [symmetric] f(1) and_then_simps h2_def [symmetric] h3_def [symmetric] f(2) by blast
qed

text \<open>The settings of the repository's \<open>src/npi.conf\<close>, in a world that also holds a requirement file.\<close>

definition repository_conf :: string where
  "repository_conf = unlines [''lib_dir     = ./lib'', ''cache_dir   = ./.npi_cache'',
     ''registry_url = https://registry.nanlang.bluearch.network'', ''compiler    = /usr/bin/nanlang_cpp'',
     ''build_flags = --opt'', ''output_dir  = .'']"

definition build_host :: host where
  "build_host = sample_host ((sample_world ''req.txt'' sample_reqs)\<lparr>files :=
     (files (sample_world ''req.txt'' sample_reqs))(''npi.conf'' \<mapsto>
        \<lparr>f_bytes = bytes_of repository_conf, f_mtime_sec = 100, f_mtime_nsec = 0, f_mode = 420\<rparr>)\<rparr>)"

theorem npi_build_never_compiles_witness:
  "\<exists>h'. run_build (compiler_shell sample_platform (\<lambda>_ h. (0, h)))
        \<lparr>req_path = ''req.txt'', conf_path = ''npi.conf'', dry_run = False, verbose = True, target_name = []\<rparr>
        build_host = (Inr \<lparr>output_file = ''./output.elf'', packages = 2\<rparr>, h') \<and>
      read_text (hw h') ''./output.elf'' = Some (placeholder_text ''./npi_manifest.conf'')"
proof -
  let ?o = "\<lparr>req_path = ''req.txt'', conf_path = ''npi.conf'', dry_run = False, verbose = True, target_name = []\<rparr>"
  have "case config_lines 1 (getlines repository_conf) default_config of Inl _ \<Rightarrow> False
      | Inr m \<Rightarrow> m ''compiler'' = Some ''/usr/bin/nanlang_cpp'' \<and> m ''build_flags'' = Some ''--opt'' \<and>
          m ''lib_dir'' = Some ''./lib'' \<and> m ''cache_dir'' = Some ''./.npi_cache'' \<and> m ''output_dir'' = Some ''.''"
    by code_simp
  then obtain m where m: "config_lines 1 (getlines repository_conf) default_config = Inr m"
    "m ''compiler'' = Some ''/usr/bin/nanlang_cpp''" "m ''build_flags'' = Some ''--opt''" "m ''lib_dir'' = Some ''./lib''"
    "m ''cache_dir'' = Some ''./.npi_cache''" "m ''output_dir'' = Some ''.''"
    by (auto split: sum.splits)
  define cfg where "cfg = config_of m"
  have "read_text (hw build_host) ''npi.conf'' = Some repository_conf"
    by (simp add: build_host_def sample_host_def read_text_def read_file_def)
  then have c: "load_config (conf_path ?o) build_host = Inr cfg"
    by (simp only: load_config_def cfg_def m(1) option.case sum.case BuildOptions.simps)
  have f: "compiler cfg = ''/usr/bin/nanlang_cpp''" "build_flags cfg = ''--opt''" "lib_dir cfg = ''./lib''"
    "cache_dir cfg = ''./.npi_cache''" "output_dir cfg = ''.''"
    by (simp_all add: cfg_def m(2-6) config_of_def Let_def)
  have t: "build_manifest cfg = ''./npi_manifest.conf''" "build_target ?o cfg = ''./output.elf''"
    by (simp_all add: build_manifest_def build_target_def path_append_def f)
  have w: "split_ws ''--opt'' = [''--opt'']" "no_command_words [''--opt'']" by code_simp+
  obtain rf where "parse_reqfile ''req.txt'' (sample_host (sample_world ''req.txt'' sample_reqs)) = Inr rf" "rq_count rf = 2"
    using sample_reqs_parse by (simp add: rq_count_def)
  then have r: "parse_reqfile (req_path ?o) build_host = Inr rf" "rq_count rf = 2"
    by (simp_all add: parse_reqfile_def build_host_def sample_host_def read_text_def read_file_def sample_world_def)
  have "roomy build_host" by (simp add: roomy_def build_host_def sample_host_def)
  then show ?thesis
    using npi_build_never_compiles [OF _ _ _ _ r(1) c, of sample_platform "\<lambda>_ h. (0, h)"]
    unfolding t by (simp add: f w r(2) starts_with_dash_def compiler_args_words no_null_def)
qed

end
