(* ===== verification/Arch.thy ===== *)
theory Arch
  imports World
begin

text \<open>
  The architecture helpers of \<open>src/include/nan_arch.h\<close> and their demonstrations in
  \<open>src/src/arch_ops.cpp\<close>: the 32-byte vector operations in the AVX2 and the scalar build, slices
  without copying, the register map, the transfer with non-temporal stores and the rounding of huge
  pages. An AVX2 register is a 256-bit word whose lane \<open>i\<close> is the byte at address \<open>i\<close>. What
  \<open>mmap\<close> and \<open>malloc\<close> give is a parameter.
\<close>

section \<open>Vector operations\<close>

type_synonym m256i = "256 word"

fun loadu_si256 :: "byte list \<Rightarrow> m256i" where
  "loadu_si256 [] = 0"
| "loadu_si256 (b # bs) = ucast b OR push_bit 8 (loadu_si256 bs)"

definition storeu_si256 :: "m256i \<Rightarrow> byte list" where
  "storeu_si256 v = map (\<lambda>i. ucast (drop_bit (8 * i) v)) [0..<32]"

text \<open>\<open>out\<close> from \<open>a\<close> and \<open>b\<close>; the flag says whether the build has AVX2.\<close>

definition xor32 :: "bool \<Rightarrow> byte list \<Rightarrow> byte list \<Rightarrow> byte list" where
  "xor32 avx2 a b =
     (if avx2 then storeu_si256 (loadu_si256 (take 32 a) XOR loadu_si256 (take 32 b))
      else map (\<lambda>i. a ! i XOR b ! i) [0..<32])"

definition or32 :: "bool \<Rightarrow> byte list \<Rightarrow> byte list \<Rightarrow> byte list" where
  "or32 avx2 a b =
     (if avx2 then storeu_si256 (loadu_si256 (take 32 a) OR loadu_si256 (take 32 b))
      else map (\<lambda>i. a ! i OR b ! i) [0..<32])"

definition count_active :: "byte list \<Rightarrow> nat" where
  "count_active data = foldl (\<lambda>cnt b. cnt + (if b \<noteq> 0 then 1 else 0)) 0 data"

section \<open>Slices\<close>

text \<open>A pointer is an address, 0 the null pointer; the memory behind it is an argument.\<close>

record ZeroCopySlice =
  zc_ptr :: u64
  zc_len :: u64

definition null_slice :: ZeroCopySlice where
  "null_slice = \<lparr>zc_ptr = 0, zc_len = 0\<rparr>"

definition slice_index :: "(u64 \<Rightarrow> byte) \<Rightarrow> ZeroCopySlice \<Rightarrow> u64 \<Rightarrow> byte" where
  "slice_index mem s i = mem (zc_ptr s + i)"

definition slice_valid :: "ZeroCopySlice \<Rightarrow> bool" where
  "slice_valid s \<longleftrightarrow> zc_ptr s \<noteq> 0 \<and> 0 < zc_len s"

text \<open>The sum in the bounds test is one of \<open>size_t\<close>.\<close>

definition slice_sub :: "ZeroCopySlice \<Rightarrow> u64 \<Rightarrow> u64 \<Rightarrow> ZeroCopySlice" where
  "slice_sub s offset count =
     (if zc_len s < offset + count then null_slice
      else \<lparr>zc_ptr = zc_ptr s + offset, zc_len = count\<rparr>)"

section \<open>Registers\<close>

record RegisterMap =
  regs :: "u64 list"
  in_use :: "bool list"

definition RegisterMap_new :: RegisterMap where
  "RegisterMap_new = \<lparr>regs = replicate 16 0, in_use = replicate 16 False\<rparr>"

fun first_unused :: "bool list \<Rightarrow> nat \<Rightarrow> nat option" where
  "first_unused [] i = None"
| "first_unused (u # us) i = (if u then first_unused us (i + 1) else Some i)"

definition allocate :: "u64 \<Rightarrow> RegisterMap \<Rightarrow> int \<times> RegisterMap" where
  "allocate value rm =
     (case first_unused (in_use rm) 0 of
        Some i \<Rightarrow> (int i, rm\<lparr>regs := (regs rm)[i := value], in_use := (in_use rm)[i := True]\<rparr>)
      | None \<Rightarrow> (-1, rm))"

definition free_reg :: "int \<Rightarrow> RegisterMap \<Rightarrow> RegisterMap" where
  "free_reg k rm =
     (if 0 \<le> k \<and> k < 16
      then rm\<lparr>regs := (regs rm)[nat k := 0], in_use := (in_use rm)[nat k := False]\<rparr> else rm)"

definition read_reg :: "int \<Rightarrow> RegisterMap \<Rightarrow> u64" where
  "read_reg k rm = (if 0 \<le> k \<and> k < 16 then regs rm ! nat k else 0)"

definition used_count :: "RegisterMap \<Rightarrow> nat" where
  "used_count rm = foldl (\<lambda>c u. c + (if u then 1 else 0)) 0 (in_use rm)"

section \<open>Transfers and pages\<close>

text \<open>\<open>map_region\<close>: whether \<open>mmap\<close> works, then whether \<open>malloc\<close> does; \<open>None\<close> is a null pointer.\<close>

record allocator =
  mmap_ok :: "u64 \<Rightarrow> bool"
  malloc_bytes :: "u64 \<Rightarrow> byte list option"

definition map_region :: "allocator \<Rightarrow> u64 \<Rightarrow> world \<Rightarrow> byte list option \<times> world" where
  "map_region al n w =
     (if mmap_ok al n then (Some (replicate (unat n) 0), w)
      else (malloc_bytes al n, cerr (''[DMA] mmap failed, falling back to malloc'' @ [CHR 0x0A]) w))"

text \<open>The loop over whole vectors; the rest is copied byte by byte.\<close>

function nt_blocks :: "byte list \<Rightarrow> byte list \<Rightarrow> nat \<Rightarrow> nat \<Rightarrow> byte list" where
  "nt_blocks dst src i len =
     (if i + 32 \<le> len then
        nt_blocks (take i dst @ storeu_si256 (loadu_si256 (take 32 (drop i src))) @ drop (i + 32) dst) src (i + 32) len
      else take i dst @ take (len - i) (drop i src) @ drop len dst)"
  by auto
termination by (relation "measure (\<lambda>(dst, src, i, len). len - i)") auto

declare nt_blocks.simps [simp del]

definition nt_store :: "bool \<Rightarrow> byte list \<Rightarrow> byte list \<Rightarrow> nat \<Rightarrow> byte list" where
  "nt_store avx2 dst src len = (if avx2 then nt_blocks dst src 0 len else take len src @ drop len dst)"

definition HUGE_PAGE :: u64 where
  "HUGE_PAGE = 2 * 1024 * 1024"

definition huge_size :: "u64 \<Rightarrow> u64" where
  "huge_size n = (n + HUGE_PAGE - 1) AND NOT (HUGE_PAGE - 1)"

text \<open>Huge pages first, then ordinary ones; the result is the length mapped, \<open>None\<close> a null pointer.\<close>

definition huge_alloc :: "(u64 \<Rightarrow> bool) \<Rightarrow> (u64 \<Rightarrow> bool) \<Rightarrow> u64 \<Rightarrow> u64 option" where
  "huge_alloc mmap_huge mmap_plain n =
     (let n = huge_size n
      in if mmap_huge n then Some n else if mmap_plain n then Some n else None)"

section \<open>Demonstrations\<close>

definition ln :: "string \<Rightarrow> string" where
  "ln s = s @ [CHR 0x0A]"

fun simd_rounds :: "bool \<Rightarrow> nat \<Rightarrow> byte list \<Rightarrow> byte list \<Rightarrow> byte list option \<Rightarrow> byte list option" where
  "simd_rounds avx2 0 a b r = r"
| "simd_rounds avx2 (Suc k) a b r = (let r = Some (xor32 avx2 a b) in simd_rounds avx2 k a b (Some (or32 avx2 a b)))"

text \<open>\<open>None\<close>: with no iteration the demonstration reads the uninitialised array \<open>out\<close>.\<close>

definition run_simd_demo :: "bool \<Rightarrow> int \<Rightarrow> world \<Rightarrow> world option" where
  "run_simd_demo avx2 iterations w =
     (let a = map word_of_nat [0..<32]; b = map (\<lambda>i. word_of_nat (255 - i)) [0..<32]
      in case simd_rounds avx2 (nat iterations) a b None of
           None \<Rightarrow> None
         | Some r \<Rightarrow> Some (cout (ln (''[SIMD] iterations='' @ int_to_string iterations @
                         '' active_bytes='' @ nat_to_string (count_active r))) w))"

text \<open>\<open>None\<close>: a null region is written through.\<close>

definition run_dma_demo :: "bool \<Rightarrow> allocator \<Rightarrow> u64 \<Rightarrow> world \<Rightarrow> world option" where
  "run_dma_demo avx2 al n w =
     (let (src, w) = map_region al n w; (dst, w) = map_region al n w
      in case (if n = 0 then Some [] else map_option (\<lambda>_. replicate (unat n) 0xAB) src,
               if n = 0 then Some [] else dst) of
           (Some src, Some dst) \<Rightarrow>
             (let dst = nt_store avx2 dst src (unat n); ok = take (unat n) src = take (unat n) dst
              in Some (cout (ln (''[DMA] size='' @ nat_to_string (unat n) @ '' bytes  transfer='' @
                           (if ok then ''OK'' else ''FAIL''))) w))
         | _ \<Rightarrow> None)"

definition bit_text :: "bool \<Rightarrow> string" where
  "bit_text b = (if b then ''1'' else ''0'')"

definition hex_text :: "byte \<Rightarrow> string" where
  "hex_text b =
     (if b < 16 then [digit_char (unat b)] else [digit_char (unat b div 16), digit_char (unat b mod 16)])"

text \<open>The vector stands at the address \<open>base\<close>; \<open>None\<close>: the first byte of the slice lies outside it.\<close>

definition run_zerocopy_demo :: "u64 \<Rightarrow> byte list \<Rightarrow> u64 \<Rightarrow> u64 \<Rightarrow> world \<Rightarrow> world option" where
  "run_zerocopy_demo base data offset len w =
     (let full = \<lparr>zc_ptr = base, zc_len = word_of_nat (length data)\<rparr>;
          slice = slice_sub full offset len;
          w = cout (ln (''[ZEROCOPY] full='' @ nat_to_string (unat (zc_len full)) @
                '' slice offset='' @ nat_to_string (unat offset) @ '' len='' @ nat_to_string (unat (zc_len slice)) @
                '' valid='' @ bit_text (slice_valid slice))) w
      in if \<not> slice_valid slice then Some w
         else if unat (zc_ptr slice - base) < length data then
           Some (cout (ln (''[ZEROCOPY] first_byte=0x'' @ hex_text (data ! unat (zc_ptr slice - base)))) w)
         else None)"

definition run_register_map_demo :: "world \<Rightarrow> world" where
  "run_register_map_demo w =
     (let (r0, rm) = allocate 42 RegisterMap_new;
          (r1, rm) = allocate 99 rm;
          (r2, rm) = allocate 7 rm;
          show_reg = (\<lambda>r. ''R'' @ int_to_string r @ ''='' @ int_to_string (sint (read_reg r rm)));
          w = cout (ln (''[REGS] '' @ show_reg r0 @ '' '' @ show_reg r1 @ '' '' @ show_reg r2 @
                '' used='' @ nat_to_string (used_count rm))) w;
          rm = free_reg r1 rm
      in cout (ln (''[REGS] After free R'' @ int_to_string r1 @ '' used='' @ nat_to_string (used_count rm))) w)"

end
