(* ===== verification/Arch_Correct.thy ===== *)
theory Arch_Correct
  imports Arch
begin

text \<open>
  Facts on the architecture helpers: the vector build computes what the scalar build computes, the
  register map is a finite map that hands out the lowest free register, slices stay in bounds
  unless the sum of offset and length wraps, and huge-page rounding.
\<close>

section \<open>Lanes\<close>

lemma bit_loadu:
  "length bs \<le> 32 \<Longrightarrow> bit (loadu_si256 bs) k \<longleftrightarrow> k < 8 * length bs \<and> bit (bs ! (k div 8)) (k mod 8)"
proof (induction bs arbitrary: k)
  case (Cons b bs)
  have step: "bit (loadu_si256 (b # bs)) k \<longleftrightarrow>
      k < 256 \<and> (bit b k \<or> 8 \<le> k \<and> bit (loadu_si256 bs) (k - 8))"
    by (auto simp: bit_or_iff bit_ucast_iff bit_push_bit_iff)
  show ?case
  proof (cases "k < 8")
    case True
    then show ?thesis unfolding step by simp
  next
    case False
    then obtain m where m: "k = 8 + m" using le_Suc_ex [of 8 k] by auto
    then have "k div 8 = Suc (m div 8)" "k mod 8 = m mod 8" by simp_all
    moreover have "\<not> bit b k" using False by (simp add: impossible_bit)
    moreover have "bit (loadu_si256 bs) m \<longleftrightarrow> m < 8 * length bs \<and> bit (bs ! (m div 8)) (m mod 8)"
      using Cons by simp
    ultimately show ?thesis unfolding step using m Cons.prems by auto
  qed
qed simp

lemma bit_lane: "bit (ucast (drop_bit (8 * i) (v :: m256i)) :: byte) j \<longleftrightarrow> j < 8 \<and> bit v (8 * i + j)"
  by (auto simp: bit_ucast_iff bit_drop_bit_eq add.commute dest: bit_imp_le_length)

lemma lane_op:
  fixes f :: "m256i \<Rightarrow> m256i \<Rightarrow> m256i"
  assumes "length a = 32" "length b = 32" "i < 32"
    and "\<And>k. bit (f (loadu_si256 a) (loadu_si256 b)) k \<longleftrightarrow> F (bit (loadu_si256 a) k) (bit (loadu_si256 b) k)"
    and "\<And>x y k. k < 8 \<Longrightarrow> bit (g x y :: byte) k \<longleftrightarrow> F (bit x k) (bit y k)"
  shows "ucast (drop_bit (8 * i) (f (loadu_si256 a) (loadu_si256 b))) = g (a ! i) (b ! i)"
proof (rule bit_word_eqI)
  fix n assume n: "n < LENGTH(8)"
  then have "(8 * i + n) div 8 = i" "(8 * i + n) mod 8 = n" by simp_all
  then have "bit (loadu_si256 a) (8 * i + n) = bit (a ! i) n" "bit (loadu_si256 b) (8 * i + n) = bit (b ! i) n"
    using n assms(1-3) by (simp_all add: bit_loadu)
  then show "bit (ucast (drop_bit (8 * i) (f (loadu_si256 a) (loadu_si256 b))) :: byte) n = bit (g (a ! i) (b ! i)) n"
    using n unfolding bit_lane assms(4) by (simp add: assms(5))
qed

lemma store_load:
  assumes "length a = 32"
  shows "storeu_si256 (loadu_si256 a) = a"
proof (rule nth_equalityI)
  fix i assume "i < length (storeu_si256 (loadu_si256 a))"
  then have i: "i < 32" by (simp add: storeu_si256_def)
  then show "storeu_si256 (loadu_si256 a) ! i = a ! i"
    using lane_op [of a a i "\<lambda>x y. x" "\<lambda>x y. x" "\<lambda>x y. x"] assms by (simp add: storeu_si256_def)
qed (simp add: storeu_si256_def assms)

lemma vector_xor:
  "32 \<le> length a \<Longrightarrow> 32 \<le> length b \<Longrightarrow> xor32 True a b = xor32 False a b"
  using lane_op [of "take 32 a" "take 32 b" _ "(XOR)" "(\<noteq>)" "(XOR)"]
  by (simp add: xor32_def storeu_si256_def bit_xor_iff)

lemma vector_or:
  "32 \<le> length a \<Longrightarrow> 32 \<le> length b \<Longrightarrow> or32 True a b = or32 False a b"
  using lane_op [of "take 32 a" "take 32 b" _ "(OR)" "(\<or>)" "(OR)"]
  by (simp add: or32_def storeu_si256_def bit_or_iff)

lemma nt_blocks_copy:
  "i \<le> len \<Longrightarrow> len \<le> length src \<Longrightarrow> len \<le> length dst \<Longrightarrow> take i dst = take i src \<Longrightarrow>
   nt_blocks dst src i len = take len src @ drop len dst"
proof (induction dst src i len rule: nt_blocks.induct)
  case (1 dst src i len)
  show ?case
  proof (cases "i + 32 \<le> len")
    case True
    define d where "d = take i dst @ storeu_si256 (loadu_si256 (take 32 (drop i src))) @ drop (i + 32) dst"
    have s: "storeu_si256 (loadu_si256 (take 32 (drop i src))) = take 32 (drop i src)"
      using True 1(3) by (intro store_load) simp
    have l: "length d = length dst" using True 1(3,4) by (simp add: d_def s)
    have "take (i + 32) d = take (i + 32) src"
      using True 1(3-5) by (simp add: d_def s take_add)
    moreover have "drop len d = drop len dst" using True 1(3,4) by (simp add: d_def s)
    ultimately have "nt_blocks d src (i + 32) len = take len src @ drop len dst"
      using 1(1) [OF True, folded d_def] True 1(3,4) l by simp
    then show ?thesis using True by (simp add: nt_blocks.simps [of dst] d_def)
  next
    case False
    have "take len src = take i src @ take (len - i) (drop i src)"
      using 1(2) take_add [of i "len - i" src] by simp
    then show ?thesis using False 1(5) by (simp add: nt_blocks.simps [of dst])
  qed
qed

text \<open>
  The AVX2 build and the scalar build agree: the two vector operations and the non-temporal
  transfer compute the same bytes on every input with enough of them, and the transfer copies.
\<close>

theorem vector_build_agrees:
  assumes "32 \<le> length a" and "32 \<le> length b" and "len \<le> length src" and "len \<le> length dst"
  shows "xor32 True a b = xor32 False a b \<and> or32 True a b = or32 False a b \<and>
    nt_store True dst src len = nt_store False dst src len \<and>
    take len (nt_store True dst src len) = take len src"
  using vector_xor [OF assms(1,2)] vector_or [OF assms(1,2)] nt_blocks_copy [of 0 len src dst] assms(3,4)
  by (simp add: nt_store_def)

theorem vector_build_agrees_witness:
  "xor32 True (replicate 32 0xF0) (replicate 32 0xFF) = replicate 32 0x0F"
proof -
  have "xor32 False (replicate 32 0xF0) (replicate 32 0xFF) = replicate 32 0x0F"
    by (rule nth_equalityI) (simp_all add: xor32_def)
  then show ?thesis
    using vector_build_agrees [of "replicate 32 0xF0" "replicate 32 0xFF" 0 "[]" "[]"] by simp
qed

section \<open>The register map\<close>

text \<open>Sixteen registers, and a register that is not in use holds 0.\<close>

definition rm_ok :: "RegisterMap \<Rightarrow> bool" where
  "rm_ok rm \<longleftrightarrow> length (regs rm) = 16 \<and> length (in_use rm) = 16 \<and>
     (\<forall>i < 16. \<not> in_use rm ! i \<longrightarrow> regs rm ! i = 0)"

lemma rm_ok_new: "rm_ok RegisterMap_new"
  by (simp add: rm_ok_def RegisterMap_new_def)

lemma rm_ok_free: "rm_ok rm \<Longrightarrow> rm_ok (free_reg k rm)"
  by (auto simp: rm_ok_def free_reg_def nth_list_update)

lemma first_unused_Some:
  "first_unused us k = Some i \<longleftrightarrow> k \<le> i \<and> i < k + length us \<and> \<not> us ! (i - k) \<and> (\<forall>j < i - k. us ! j)"
proof (induction us arbitrary: k)
  case (Cons u us)
  show ?case
  proof (cases u)
    case True
    have "k \<le> i \<and> i < k + length (u # us) \<and> \<not> (u # us) ! (i - k) \<and> (\<forall>j < i - k. (u # us) ! j) \<longleftrightarrow>
        k + 1 \<le> i \<and> i < k + 1 + length us \<and> \<not> us ! (i - (k + 1)) \<and> (\<forall>j < i - (k + 1). us ! j)"
    proof (cases "i - k")
      case (Suc m)
      then have "i = k + Suc m" by simp
      then show ?thesis using True by (auto simp: All_less_Suc2)
    qed (use True in auto)
    then show ?thesis using True Cons [of "k + 1"] by simp
  next
    case False
    have "k \<le> i \<Longrightarrow> \<forall>j < i - k. (u # us) ! j \<Longrightarrow> i = k"
    proof (rule ccontr)
      assume "k \<le> i" "\<forall>j < i - k. (u # us) ! j" "i \<noteq> k"
      then have "(u # us) ! 0" by (metis diff_is_0_eq le_antisym not_gr_zero)
      with False show False by simp
    qed
    then show ?thesis using False by auto
  qed
qed simp

lemma rm_ok_allocate:
  assumes "rm_ok rm"
  shows "rm_ok (snd (allocate v rm))"
proof (cases "first_unused (in_use rm) 0")
  case (Some i)
  then have "i < 16" using assms by (simp add: first_unused_Some rm_ok_def)
  then show ?thesis using Some assms by (auto simp: rm_ok_def allocate_def nth_list_update split: if_splits)
qed (simp add: allocate_def assms)

lemma first_unused_None: "first_unused us k = None \<longleftrightarrow> (\<forall>i < length us. us ! i)"
  by (induction us arbitrary: k) (auto simp: All_less_Suc2 nth_Cons')

lemma used_count_length: "used_count rm = length (filter id (in_use rm))"
proof -
  have "foldl (\<lambda>c u. c + (if u then 1 else 0)) n us = n + length (filter id us)" for n us
    by (induction us arbitrary: n) auto
  then show ?thesis by (simp add: used_count_def)
qed

lemma length_filter_update:
  "i < length us \<Longrightarrow> \<not> us ! i \<Longrightarrow> length (filter id (us[i := True])) = Suc (length (filter id us))"
  by (induction us arbitrary: i) (auto simp: nth_Cons' split: nat.split)

text \<open>What a client of the map sees: the value in each register in use.\<close>

definition register_values :: "RegisterMap \<Rightarrow> int \<rightharpoonup> u64" where
  "register_values rm k =
     (if 0 \<le> k \<and> k < 16 \<and> in_use rm ! nat k then Some (regs rm ! nat k) else None)"

text \<open>
  C26. On a well-formed register map, \<open>allocate\<close> puts the value into the lowest free register and
  changes nothing else, and freeing that register gives back the map it started from; it fails
  with -1 exactly when all sixteen registers are in use. Freeing forgets one register, reading
  gives the value of a register in use and 0 otherwise.
\<close>

theorem register_map_correct:
  assumes "rm_ok rm"
  shows "(case allocate v rm of (k, rm') \<Rightarrow>
      rm_ok rm' \<and>
      (if used_count rm = 16 then k = -1 \<and> rm' = rm
       else 0 \<le> k \<and> k < 16 \<and> register_values rm k = None \<and>
         (\<forall>j. 0 \<le> j \<and> j < k \<longrightarrow> register_values rm j \<noteq> None) \<and>
         register_values rm' = (register_values rm)(k \<mapsto> v) \<and>
         used_count rm' = used_count rm + 1 \<and> free_reg k rm' = rm)) \<and>
    rm_ok (free_reg j rm) \<and> register_values (free_reg j rm) = (register_values rm)(j := None) \<and>
    read_reg j rm = (case register_values rm j of Some x \<Rightarrow> x | None \<Rightarrow> 0)"
proof -
  note ok = assms [unfolded rm_ok_def]
  have full: "used_count rm = 16 \<longleftrightarrow> first_unused (in_use rm) 0 = None"
    unfolding used_count_length first_unused_None
    using ok length_filter_less [of _ "in_use rm" id] filter_True [of "in_use rm" id]
    by (metis id_apply in_set_conv_nth less_irrefl)
  have alloc: "case allocate v rm of (k, rm') \<Rightarrow>
      (if used_count rm = 16 then k = -1 \<and> rm' = rm
       else 0 \<le> k \<and> k < 16 \<and> register_values rm k = None \<and>
         (\<forall>j. 0 \<le> j \<and> j < k \<longrightarrow> register_values rm j \<noteq> None) \<and>
         register_values rm' = (register_values rm)(k \<mapsto> v) \<and>
         used_count rm' = used_count rm + 1 \<and> free_reg k rm' = rm)"
  proof (cases "first_unused (in_use rm) 0")
    case None
    then show ?thesis using full by (simp add: allocate_def)
  next
    case (Some i)
    define rm' where "rm' = rm\<lparr>regs := (regs rm)[i := v], in_use := (in_use rm)[i := True]\<rparr>"
    have i: "i < 16" "\<not> in_use rm ! i" "\<forall>j < i. in_use rm ! j"
      using Some ok by (simp_all add: first_unused_Some)
    have v: "register_values rm' = (register_values rm)(int i \<mapsto> v)"
      using i ok by (auto simp: fun_eq_iff register_values_def rm'_def nth_list_update)
    have undo: "free_reg (int i) rm' = rm"
      using i ok list_update_id [of "regs rm" i] list_update_id [of "in_use rm" i]
      by (simp add: free_reg_def rm'_def)
    have "used_count rm' = used_count rm + 1"
      using i ok length_filter_update [of i "in_use rm"] by (simp add: used_count_length rm'_def)
    moreover have "allocate v rm = (int i, rm')" using Some by (simp add: allocate_def rm'_def)
    moreover have "register_values rm (int i) = None" "\<forall>j. 0 \<le> j \<and> j < int i \<longrightarrow> register_values rm j \<noteq> None"
      using i by (auto simp: register_values_def)
    ultimately show ?thesis using Some full i(1) v undo by simp
  qed
  have freed: "register_values (free_reg j rm) = (register_values rm)(j := None)"
    using ok by (auto simp: fun_eq_iff register_values_def free_reg_def nth_list_update nat_eq_iff split: if_splits)
  have "read_reg j rm = (case register_values rm j of Some x \<Rightarrow> x | None \<Rightarrow> 0)"
    using ok by (simp add: read_reg_def register_values_def nat_less_iff)
  then show ?thesis using alloc freed rm_ok_free [OF assms] rm_ok_allocate [OF assms, of v]
    by (auto split: prod.splits)
qed

theorem register_map_correct_witness:
  "free_reg 0 (snd (allocate 42 RegisterMap_new)) = RegisterMap_new"
proof -
  have "allocate 42 RegisterMap_new = (0, snd (allocate 42 RegisterMap_new))" "used_count RegisterMap_new = 0"
    by (simp_all add: allocate_def RegisterMap_new_def used_count_def numeral_eq_Suc)
  then obtain rm' where "allocate 42 RegisterMap_new = (0, rm')" by blast
  then show ?thesis using register_map_correct [OF rm_ok_new, of 42] \<open>used_count RegisterMap_new = 0\<close> by simp
qed

section \<open>Slices and pages\<close>

lemma no_wrap: "unat (a :: u64) + unat b < 2 ^ 64 \<Longrightarrow> unat (a + b) = unat a + unat b"
  by (simp add: unat_plus_if_size word_size)

text \<open>
  A sub-slice whose offset and length do not wrap is valid only inside its slice. The bounds
  test adds them modulo \<open>2 ^ 64\<close>: for every distance \<open>k\<close> and remainder that fits, the offset
  \<open>2 ^ 64 - k\<close> is accepted and gives a slice that starts \<open>k\<close> bytes before the data.
\<close>

theorem zero_copy_bounds:
  "(unat offset + unat count < 2 ^ 64 \<longrightarrow> slice_valid (slice_sub s offset count) \<longrightarrow>
      unat offset + unat count \<le> unat (zc_len s)) \<and>
   (rest \<le> zc_len s \<longrightarrow>
      slice_sub s (- k) (k + rest) = \<lparr>zc_ptr = zc_ptr s - k, zc_len = k + rest\<rparr>)"
proof (intro conjI impI)
  assume "unat offset + unat count < 2 ^ 64" "slice_valid (slice_sub s offset count)"
  then show "unat offset + unat count \<le> unat (zc_len s)"
    using no_wrap [of offset count] word_le_nat_alt [of "offset + count" "zc_len s"]
    by (auto simp: slice_sub_def slice_valid_def null_slice_def not_less split: if_splits)
qed (simp add: slice_sub_def)

theorem zero_copy_bounds_witness:
  "slice_sub \<lparr>zc_ptr = 4096, zc_len = 32\<rparr> (- 16) 20 = \<lparr>zc_ptr = 4080, zc_len = 20\<rparr>"
  using zero_copy_bounds [of 0 0 "\<lparr>zc_ptr = 4096, zc_len = 32\<rparr>" 4 16] by simp

lemma and_not_mask: "unat (x AND NOT (mask n) :: u64) = unat x - unat x mod 2 ^ n"
proof -
  have "x = (x AND NOT (mask n)) + (x AND mask n)"
    by (subst disjunctive_add) (auto simp: bit_simps intro!: bit_word_eqI)
  then have "x AND NOT (mask n) = x - (x AND mask n)" by (simp add: eq_diff_eq)
  moreover have "unat (x AND mask n) = unat x mod 2 ^ n"
    unfolding take_bit_eq_mask [symmetric] unsigned_take_bit_eq by (simp add: take_bit_eq_mod)
  ultimately show ?thesis
    by (simp add: unat_sub word_le_nat_alt)
qed

text \<open>
  Huge-page rounding: up to the last page that fits the size is rounded up to a whole number of
  2 MB pages; a larger size wraps and is rounded to 0, so the request that reaches \<open>mmap\<close> is empty.
\<close>

lemma huge_page_rounding:
  "unat (huge_size n) =
     (if unat n \<le> 2 ^ 64 - 2 ^ 21 then (unat n + (2 ^ 21 - 1)) div 2 ^ 21 * 2 ^ 21 else 0)"
proof -
  have h: "HUGE_PAGE - 1 = mask 21" "n + HUGE_PAGE - 1 = n + 2097151"
    by (simp_all add: HUGE_PAGE_def mask_eq_exp_minus_1)
  have "unat (n + 2097151) = (if unat n \<le> 2 ^ 64 - 2 ^ 21 then unat n + 2097151 else unat n + 2097151 - 2 ^ 64)"
    by (simp add: unat_plus_if_size word_size)
  moreover have "unat n < 2 ^ 64" using unsigned_less [of n] by simp
  ultimately show ?thesis
    unfolding huge_size_def h and_not_mask by (simp add: minus_mod_eq_div_mult)
qed

end
