(* ===== verification/Toolchain.thy ===== *)
theory Toolchain
  imports Arch Npi Text_Tools Binary_Ops Ring_Buffers Pulse Perf Compiler_Ops
begin

text \<open>
  The integrated toolchain of \<open>src/main.cpp\<close>: its arguments, the small bytecode compiler and
  runtime (\<open>NanCompiler\<close>, \<open>NanRuntime\<close>), the native build through \<open>g++\<close>, and \<open>main\<close> with all the
  demonstrations. What the demonstrations take from the machine, and \<open>std::system\<close>, are the record
  \<open>machine\<close>. \<open>None\<close> as a result stands for a run whose output C++ does not determine (an
  uninitialised value is read, or a null pointer written).
\<close>

section \<open>Arguments\<close>

record ToolArgs =
  ta_kv :: "string \<rightharpoonup> string"
  ta_flags :: "string \<rightharpoonup> bool"

definition ToolArgs_new :: ToolArgs where
  "ToolArgs_new = \<lparr>ta_kv = Map.empty, ta_flags = Map.empty\<rparr>"

text \<open>The empty argument does not start with a dash: its first byte is the terminator.\<close>

fun tool_parse :: "string list \<Rightarrow> ToolArgs \<Rightarrow> ToolArgs" where
  "tool_parse [] a = a"
| "tool_parse (tok # rest) a =
     (if 2 < length tok \<and> prefix ''--'' tok then
        (let key = drop 2 tok
         in case rest of
              v # rest' \<Rightarrow>
                if v = [] \<or> hd v \<noteq> CHR ''-'' then tool_parse rest' (a\<lparr>ta_kv := (ta_kv a)(key \<mapsto> v)\<rparr>)
                else tool_parse rest (a\<lparr>ta_flags := (ta_flags a)(key \<mapsto> True)\<rparr>)
            | [] \<Rightarrow> tool_parse rest (a\<lparr>ta_flags := (ta_flags a)(key \<mapsto> True)\<rparr>))
      else tool_parse rest a)"

definition tool_has :: "ToolArgs \<Rightarrow> string \<Rightarrow> bool" where
  "tool_has a k \<longleftrightarrow> ta_kv a k \<noteq> None \<or> ta_flags a k \<noteq> None"

definition tool_get :: "ToolArgs \<Rightarrow> string \<Rightarrow> string \<Rightarrow> string" where
  "tool_get a k def = (case ta_kv a k of Some v \<Rightarrow> v | None \<Rightarrow> def)"

definition tool_get_int :: "ToolArgs \<Rightarrow> string \<Rightarrow> int \<Rightarrow> int" where
  "tool_get_int a k def =
     (case ta_kv a k of None \<Rightarrow> def
      | Some v \<Rightarrow> (case stoi 0 v of Some (n, _) \<Rightarrow> n | None \<Rightarrow> def))"

text \<open>\<open>std::stoull\<close> takes a sign and negates modulo \<open>2 ^ 64\<close>.\<close>

definition stoull :: "nat \<Rightarrow> string \<Rightarrow> u64 option" where
  "stoull base s =
     (case strtol_raw base s of
        None \<Rightarrow> None
      | Some (v, _) \<Rightarrow> if \<bar>v\<bar> < 2 ^ 64 then Some (word_of_int v) else None)"

definition tool_get_u64 :: "ToolArgs \<Rightarrow> string \<Rightarrow> u64 \<Rightarrow> u64" where
  "tool_get_u64 a k def =
     (case ta_kv a k of None \<Rightarrow> def
      | Some v \<Rightarrow> (case stoull 0 v of Some n \<Rightarrow> n | None \<Rightarrow> def))"

definition tool_get_size :: "ToolArgs \<Rightarrow> string \<Rightarrow> u64 \<Rightarrow> u64" where
  "tool_get_size a k def = tool_get_u64 a k def"

definition tool_flag :: "ToolArgs \<Rightarrow> string \<Rightarrow> bool" where
  "tool_flag a k \<longleftrightarrow> ta_flags a k \<noteq> None"

section \<open>The compiler\<close>

text \<open>
  \<open>find('"') + 1\<close> is 0 for a line without quote, where \<open>end\<close> is \<open>npos\<close>; with a single quote the
  length \<open>end - start\<close> wraps and the rest of the line is taken.
\<close>

definition extract_string :: "string \<Rightarrow> string" where
  "extract_string line =
     (case (find_char (CHR 0x22) line, rfind_char (CHR 0x22) line) of
        (Some q, Some e) \<Rightarrow>
          if q + 1 \<le> e then substr line (q + 1) (e - (q + 1)) else drop (q + 1) line
      | _ \<Rightarrow> [])"

definition TOOL_MAGIC :: u32 where
  "TOOL_MAGIC = 0x214E414E"

definition OP_SAY_TOOL :: byte where
  "OP_SAY_TOOL = 0x02"

definition say_record :: "string \<Rightarrow> byte list" where
  "say_record content =
     (let n = word_of_nat (length content) :: u32
      in OP_SAY_TOOL # le_u32 n @ bytes_of (take (unat n) content))"

definition says :: "string list \<Rightarrow> string list" where
  "says lines = map extract_string (filter (\<lambda>line. find_sub ''say '' line \<noteq> None) lines)"

text \<open>
  The output is opened, and so emptied, after the source was opened and before it is read. A
  stream that cannot be opened or written is not noticed.
\<close>

definition generate_bytecode :: "string \<Rightarrow> string \<Rightarrow> world \<Rightarrow> exn + world" where
  "generate_bytecode input target w =
     (case read_text w input of
        None \<Rightarrow> Inl (Runtime_error (''Source not found: '' @ input))
      | Some _ \<Rightarrow>
          (let w1 = (case write_file target [] w of None \<Rightarrow> w | Some (_, w') \<Rightarrow> w');
               text = (case read_text w1 input of None \<Rightarrow> [] | Some t \<Rightarrow> t);
               image = le_u32 TOOL_MAGIC @ concat (map say_record (says (getlines text)));
               w2 = (case write_file target image w1 of None \<Rightarrow> w1 | Some (_, w') \<Rightarrow> w')
           in Inr (cout (''[OK] Bytecode generated: '' @ target @ eol) w2)))"

definition native_stub :: "string list \<Rightarrow> string" where
  "native_stub lines =
     ''#include <iostream>'' @ eol @ ''int main() {'' @ eol @
     concat (map (\<lambda>s. ''  std::cout << '' @ [CHR 0x22] @ s @ [CHR 0x22] @ '' << std::endl;'' @ eol) (says lines)) @
     ''  return 0;'' @ eol @ ''}'' @ eol"

definition build_native ::
  "(string \<Rightarrow> world \<Rightarrow> int \<times> world) \<Rightarrow> string \<Rightarrow> string \<Rightarrow> bool \<Rightarrow> world \<Rightarrow> world" where
  "build_native sys input out_name optimize w =
     (let stub = ''nan_temp__.cpp'';
          w = (case write_file stub [] w of None \<Rightarrow> w | Some (_, w') \<Rightarrow> w');
          text = (case read_text w input of None \<Rightarrow> [] | Some t \<Rightarrow> t);
          w = (case write_file stub (bytes_of (native_stub (getlines text))) w of None \<Rightarrow> w | Some (_, w') \<Rightarrow> w');
          cmd = ''g++ '' @ stub @ '' -o '' @ out_name @ '' -std=c++17'';
          cmd = cmd @ (if optimize then '' -O3 -march=native -flto'' else []);
          w = cout (''[BUILD] '' @ cmd @ eol) w;
          (status, w) = sys cmd w
      in if status = 0 then
           (let w = cout (''[OK] Binary: ./'' @ out_name @ eol) w in w\<lparr>files := (files w)(stub := None)\<rparr>)
         else cerr (''[FAIL] Native build failed.'' @ eol) w)"

section \<open>The runtime\<close>

text \<open>
  The loop over the opcodes. A short length is never assigned (\<open>None\<close>); a short payload leaves
  zeros in the buffer and ends the loop. Opcodes other than \<open>SAY\<close> are skipped.
\<close>

function run_opcodes :: "byte list \<Rightarrow> world \<Rightarrow> world option" where
  "run_opcodes [] w = Some w"
| "run_opcodes (op # p) w =
     (if op = OP_SAY_TOOL then
        (if length p < 4 then None
         else
           (let n = unat (le32 p); payload = take n (drop 4 p)
            in run_opcodes (drop n (drop 4 p))
                 (cout (string_of (payload @ replicate (n - length payload) 0) @ eol) w)))
      else run_opcodes p w)"
  by pat_completeness auto
termination by (relation "measure (\<lambda>(p, w). length p)") auto

definition tool_run :: "string \<Rightarrow> world \<Rightarrow> world option" where
  "tool_run path w =
     (case read_file w path of
        None \<Rightarrow> Some (cerr (''[RT] Could not open: '' @ path @ eol) w)
      | Some bytes \<Rightarrow>
          if length bytes < 4 then None
          else if le32 bytes \<noteq> TOOL_MAGIC then Some (cerr (''[RT] Invalid magic.'' @ eol) w)
          else run_opcodes (drop 4 bytes) w)"

section \<open>Demonstrations\<close>

record machine =
  has_avx2 :: bool
  tsc_start :: u64
  tsc_end :: u64
  regions :: allocator
  vector_base :: u64
  jit_page_ok :: bool
  cpuid_value :: u64
  show_percent :: "nat \<Rightarrow> int \<Rightarrow> string"
  system_call :: "string \<Rightarrow> world \<Rightarrow> int \<times> world"
  other_path :: "string \<Rightarrow> bool"

definition demo_names :: "string list" where
  "demo_names =
     [''pulse'', ''sigbuf'', ''simd'', ''dma'', ''zerocopy'', ''regmap'', ''binary'', ''compress'', ''selfheal'',
      ''jit'', ''linker'', ''color'', ''fold'', ''xplatform'', ''hwfp'', ''waitfree'', ''deadlock'', ''branch'',
      ''pipeline'', ''ooo'']"

definition demo_banner :: "string \<Rightarrow> world \<Rightarrow> world" where
  "demo_banner name = cout (eol @ ''====== DEMO: '' @ name @ '' ======'' @ eol)"

text \<open>Every demonstration but \<open>all\<close>; the banner is printed before.\<close>

definition single_demo :: "machine \<Rightarrow> ToolArgs \<Rightarrow> string \<Rightarrow> world \<Rightarrow> world option" where
  "single_demo m args name w =
     (let n = tool_get_int args ''count'' 64;
          pattern = word_of_int (tool_get_int args ''pattern'' 0xAA);
          nibble = word_of_int (tool_get_int args ''nibble'' 0x0B)
      in if name = ''pulse'' then Some (run_pulse_emitter_demo (has_avx2 m) (tsc_start m) (tsc_end m) n pattern w)
         else if name = ''sigbuf'' then run_signal_buffer_demo n w
         else if name = ''simd'' then run_simd_demo (has_avx2 m) (tool_get_int args ''iterations'' 100) w
         else if name = ''dma'' then run_dma_demo (has_avx2 m) (regions m) (tool_get_size args ''size'' 4096) w
         else if name = ''zerocopy'' then
           run_zerocopy_demo (vector_base m) (map (\<lambda>i. word_of_nat (i * 3)) [0..<32])
             (tool_get_size args ''offset'' 0) (tool_get_size args ''len'' 4) w
         else if name = ''regmap'' then Some (run_register_map_demo w)
         else if name = ''binary'' then
           run_obfuscation_demo [0x10, 0x20, 0x30, 0x40, 0x50, 0x60, 0x70, 0x80]
             (tool_get_u64 args ''cpu-key'' 0xCAFEBABEDEADBEEF) w
         else if name = ''compress'' then
           Some (run_compression_demo [0xAA, 0xAA, 0xAA, 0xBB, 0xCC, 0xCC, 0xDD, 0xDD, 0xDD, 0xDD] w)
         else if name = ''selfheal'' then Some (run_selfheal_demo (nibble AND 0x0F) w)
         else if name = ''jit'' then Some (run_jit_demo (jit_page_ok m) w)
         else if name = ''linker'' then
           Some (run_linker_demo (tool_get_int args ''segments'' 3) (tool_flag args ''strip-nops'') w)
         else if name = ''color'' then run_regcolor_demo w
         else if name = ''fold'' then Some (run_constant_fold_demo w)
         else if name = ''xplatform'' then Some (run_crossplatform_demo w)
         else if name = ''hwfp'' then Some (run_hwfp_demo (cpuid_value m) w)
         else if name = ''waitfree'' then run_waitfree_demo n w
         else if name = ''deadlock'' then run_deadlock_demo w
         else if name = ''branch'' then
           Some (run_branch_predictor_demo (show_percent m) (tool_get_int args ''rounds'' 256) w)
         else if name = ''pipeline'' then Some (run_pipeline_reorder_demo w)
         else if name = ''ooo'' then Some (run_ooo_demo w)
         else Some (cerr (''[ERROR] Unknown demo: '' @ name @ eol) w))"

fun demo_sequence :: "machine \<Rightarrow> ToolArgs \<Rightarrow> string list \<Rightarrow> world \<Rightarrow> world option" where
  "demo_sequence m args [] w = Some w"
| "demo_sequence m args (d # ds) w =
     (case single_demo m args d (demo_banner d w) of None \<Rightarrow> None
      | Some w \<Rightarrow> demo_sequence m args ds w)"

definition tool_run_demo :: "machine \<Rightarrow> ToolArgs \<Rightarrow> string \<Rightarrow> world \<Rightarrow> world option" where
  "tool_run_demo m args name w =
     (if name = ''all'' then demo_sequence m args demo_names (demo_banner name w)
      else single_demo m args name (demo_banner name w))"

section \<open>main\<close>

definition parse_hex_bytes :: "string \<Rightarrow> byte list" where
  "parse_hex_bytes s = List.map_filter (\<lambda>tok. map_option ucast (stoull 16 tok)) (split_ws s)"

definition tool_help :: string where
  "tool_help = eol @ ''NanLang Toolchain v4.0.0  '' @ dash @ '' Fully Parameterized CLI'' @ eol @
     ''=================================================='' @ eol @ eol @
     ''COMPILE & RUN'' @ eol @
     ''  --compile <file.nl>   [--output <out.nb>]     Generate bytecode'' @ eol @
     ''  --run     <file.nb>                            Run in VM'' @ eol @
     ''  --build-native <file.nl> [--output <n>] [--opt]  Native binary'' @ eol @ eol @
     ''PATCH'' @ eol @
     ''  --patch <file> --offset <hex> --bytes '' @ quoted ''DE AD BE EF'' @ eol @ eol @
     ''DEMO  (--demo <name> [parameters])'' @ eol @
     ''  pulse    --count N --pattern 0xXX'' @ eol @
     ''  sigbuf   --count N'' @ eol @
     ''  simd     --iterations N'' @ eol @
     ''  dma      --size N'' @ eol @
     ''  zerocopy --offset N --len N'' @ eol @
     ''  regmap'' @ eol @
     ''  binary   --cpu-key 0xXX'' @ eol @
     ''  compress'' @ eol @
     ''  selfheal --nibble 0xX'' @ eol @
     ''  jit'' @ eol @
     ''  linker   --segments N [--strip-nops]'' @ eol @
     ''  color'' @ eol @
     ''  fold'' @ eol @
     ''  xplatform'' @ eol @
     ''  hwfp'' @ eol @
     ''  waitfree --count N'' @ eol @
     ''  deadlock'' @ eol @
     ''  branch   --rounds N'' @ eol @
     ''  pipeline'' @ eol @
     ''  ooo'' @ eol @
     ''  all      (run all demos)'' @ eol @ eol @
     ''  --help | --version'' @ eol"

definition path_exists :: "machine \<Rightarrow> string \<Rightarrow> world \<Rightarrow> bool" where
  "path_exists m p w \<longleftrightarrow> files w p \<noteq> None \<or> other_path m p"

text \<open>\<open>argv\<close> includes the program name.\<close>

definition tool_main :: "machine \<Rightarrow> string list \<Rightarrow> world \<Rightarrow> (int \<times> world) option" where
  "tool_main m argv w =
     (let args = tool_parse (drop 1 argv) ToolArgs_new
      in if length argv < 2 \<or> tool_has args ''help'' then Some (0, cout tool_help w)
         else if tool_has args ''version'' then Some (0, cout (''NanLang v4.0.0'' @ eol) w)
         else if tool_has args ''compile'' then
           (let src = tool_get args ''compile'' []; target = tool_get args ''output'' ''output.nb''
            in if \<not> path_exists m src w then Some (1, cerr (''[ERROR] File not found: '' @ src @ eol) w)
               else case generate_bytecode src target w of
                 Inl e \<Rightarrow> Some (1, cerr (''[FATAL] '' @ (case e of Runtime_error t \<Rightarrow> t | Filesystem_error t \<Rightarrow> t) @ eol) w)
               | Inr w \<Rightarrow> Some (0, w))
         else if tool_has args ''run'' then
           (let nb = tool_get args ''run'' []
            in if \<not> path_exists m nb w then Some (1, cerr (''[ERROR] Bytecode not found: '' @ nb @ eol) w)
               else map_option (Pair 0) (tool_run nb w))
         else if tool_has args ''build-native'' then
           (let src = tool_get args ''build-native'' []; target = tool_get args ''output'' ''app.elf''
            in if \<not> path_exists m src w then Some (1, cerr (''[ERROR] Source not found: '' @ src @ eol) w)
               else Some (0, build_native (system_call m) src target (tool_flag args ''opt'') w))
         else if tool_has args ''patch'' then
           map_option (Pair 0)
             (run_binary_patch_demo (tool_get args ''patch'' []) (tool_get_size args ''offset'' 0)
                (parse_hex_bytes (tool_get args ''bytes'' ''90'')) w)
         else if tool_has args ''demo'' then
           map_option (Pair 0) (tool_run_demo m args (tool_get args ''demo'' []) w)
         else Some (1, cerr (''[ERROR] Invalid arguments. Use --help.'' @ eol) w))"

section \<open>Compiling and running\<close>

lemma run_opcodes_records:
  assumes "\<forall>c \<in> set cs. length c < 2 ^ 32"
  shows "run_opcodes (concat (map say_record cs)) w = Some (fold (\<lambda>c. cout (c @ eol)) cs w)"
  using assms
proof (induction cs arbitrary: w)
  case (Cons c cs)
  have n: "unat (word_of_nat (length c) :: u32) = length c"
    using Cons.prems by (simp add: unat_of_nat take_bit_nat_eq_self)
  have r: "say_record c = OP_SAY_TOOL # le_u32 (word_of_nat (length c)) @ bytes_of c"
    by (simp add: say_record_def Let_def n)
  show ?case
    using Cons.IH Cons.prems
    by (simp add: r n Let_def)
qed simp

lemma fold_cout: "fold (\<lambda>c. cout (c @ eol)) cs w = cout (concat (map (\<lambda>c. c @ eol) cs)) w"
  by (induction cs arbitrary: w) (simp_all add: cout_def)

lemma tool_run_image:
  assumes "read_file w path = Some (le_u32 TOOL_MAGIC @ concat (map say_record cs))"
    and "\<forall>c \<in> set cs. length c < 2 ^ 32"
  shows "tool_run path w = Some (cout (concat (map (\<lambda>c. c @ eol) cs)) w)"
  using run_opcodes_records [OF assms(2)] by (simp add: tool_run_def assms(1) fold_cout)

lemma generate_bytecode_image:
  assumes "read_text w input = Some text" "input \<noteq> target" "can_create w target" "disk_room w target = None"
  shows "\<exists>w'. generate_bytecode input target w = Inr w' \<and>
    read_file w' target = Some (le_u32 TOOL_MAGIC @ concat (map say_record (says (getlines text))))"
proof -
  have "read_text (store_file target [] w) input = Some text"
    using assms(1,2) by (simp add: read_text_def store_file_read)
  then show ?thesis
    using assms by (simp add: generate_bytecode_def Let_def write_file_ok store_file_read)
qed

text \<open>
  C25. A source compiled by \<open>--compile\<close> and run by \<open>--run\<close> prints, for every line that contains
  \<open>say\<close> and a blank, the text between its first and last quote, one a line and nothing else.
\<close>

theorem toolchain_compile_run:
  assumes "read_text w src = Some text" and "src \<noteq> target" and "hd src \<noteq> CHR ''-''" and "hd target \<noteq> CHR ''-''"
    and "can_create w target" and "disk_room w target = None"
    and "\<forall>c \<in> set (says (getlines text)). length c < 2 ^ 32"
  shows "\<exists>w'. tool_main m [exe, ''--compile'', src, ''--output'', target] w = Some (0, w') \<and>
    tool_main m [exe, ''--run'', target] w' =
      Some (0, cout (concat (map (\<lambda>c. c @ eol) (says (getlines text)))) w')"
proof -
  obtain w' where w': "generate_bytecode src target w = Inr w'"
    "read_file w' target = Some (le_u32 TOOL_MAGIC @ concat (map say_record (says (getlines text))))"
    using generate_bytecode_image [OF assms(1,2,5,6)] by blast
  have e: "path_exists m src w" "path_exists m target w'"
    using assms(1) w'(2) by (auto simp: path_exists_def read_text_def read_file_def)
  have "tool_main m [exe, ''--compile'', src, ''--output'', target] w = Some (0, w')"
    using assms(3,4) w'(1) e(1)
    by (simp add: tool_main_def tool_has_def tool_get_def ToolArgs_new_def Let_def)
  moreover have "tool_main m [exe, ''--run'', target] w' =
      Some (0, cout (concat (map (\<lambda>c. c @ eol) (says (getlines text)))) w')"
    using assms(4) e(2) tool_run_image [OF w'(2) assms(7)]
    by (simp add: tool_main_def tool_has_def tool_get_def ToolArgs_new_def Let_def)
  ultimately show ?thesis by blast
qed

theorem toolchain_compile_run_witness:
  "\<exists>w' m. tool_main m [''nan'', ''--compile'', ''a.nl'', ''--output'', ''a.nb'']
        (sample_world ''a.nl'' (''say '' @ quoted ''hi'' @ eol @ ''halt'' @ eol)) = Some (0, w') \<and>
     tool_main m [''nan'', ''--run'', ''a.nb''] w' = Some (0, cout (''hi'' @ eol) w')"
proof -
  have s: "says (getlines (''say '' @ quoted ''hi'' @ eol @ ''halt'' @ eol)) = [''hi'']"
    by code_simp
  show ?thesis
    using toolchain_compile_run [of "sample_world ''a.nl'' (''say '' @ quoted ''hi'' @ eol @ ''halt'' @ eol)" "''a.nl''"
        "''say '' @ quoted ''hi'' @ eol @ ''halt'' @ eol" "''a.nb''" _ "''nan''"]
    unfolding s by simp blast
qed

section \<open>The demonstrations end\<close>

lemma simd_rounds_Some: "0 < k \<Longrightarrow> \<exists>r. simd_rounds avx2 k a b x = Some r"
  by (induction avx2 k a b x rule: simd_rounds.induct) (case_tac k; simp)+

lemma simd_total:
  assumes "0 < iterations"
  shows "\<exists>w'. run_simd_demo avx2 iterations w = Some w'"
proof -
  obtain r where r: "simd_rounds avx2 (nat iterations) (map word_of_nat [0..<32]) (map (\<lambda>i. word_of_nat (255 - i)) [0..<32]) None = Some r"
    using simd_rounds_Some [of "nat iterations"] assms by fastforce
  show ?thesis unfolding run_simd_demo_def Let_def r by simp
qed

lemma dma_total: "mmap_ok al n \<Longrightarrow> \<exists>w'. run_dma_demo avx2 al n w = Some w'"
  by (simp add: run_dma_demo_def map_region_def Let_def)

lemma zerocopy_total:
  assumes "unat offset + unat n < 2 ^ 64" "length data < 2 ^ 32"
  shows "\<exists>w'. run_zerocopy_demo base data offset n w = Some w'"
proof -
  have l: "unat (word_of_nat (length data) :: u64) = length data"
    using assms(2) by (simp add: unat_of_nat take_bit_nat_eq_self)
  have s: "unat (offset + n) = unat offset + unat n" using assms(1) by (simp add: unat_plus_if_size word_size)
  have "slice_valid (slice_sub \<lparr>zc_ptr = base, zc_len = word_of_nat (length data)\<rparr> offset n) \<Longrightarrow> unat offset < length data"
    using l s by (auto simp: slice_sub_def slice_valid_def null_slice_def not_less word_le_nat_alt word_less_nat_alt
        split: if_splits)
  moreover have "slice_valid (slice_sub \<lparr>zc_ptr = base, zc_len = word_of_nat (length data)\<rparr> offset n) \<Longrightarrow>
      zc_ptr (slice_sub \<lparr>zc_ptr = base, zc_len = word_of_nat (length data)\<rparr> offset n) - base = offset"
    by (auto simp: slice_sub_def slice_valid_def null_slice_def split: if_splits)
  ultimately show ?thesis by (simp add: run_zerocopy_demo_def Let_def)
qed

lemma obfuscation_total: "data \<noteq> [] \<Longrightarrow> \<exists>w'. run_obfuscation_demo data key w = Some w'"
  by (simp add: run_obfuscation_demo_def Let_def)

definition demo_args_ok :: "machine \<Rightarrow> ToolArgs \<Rightarrow> bool" where
  "demo_args_ok m args \<longleftrightarrow> 0 < tool_get_int args ''iterations'' 100 \<and>
     mmap_ok (regions m) (tool_get_size args ''size'' 4096) \<and>
     unat (tool_get_size args ''offset'' 0) + unat (tool_get_size args ''len'' 4) < 2 ^ 64"

lemma single_demo_total:
  assumes "demo_args_ok m args"
  shows "\<exists>w'. single_demo m args name w = Some w'"
proof -
  have a: "0 < tool_get_int args ''iterations'' 100" "mmap_ok (regions m) (tool_get_size args ''size'' 4096)"
    "unat (tool_get_size args ''offset'' 0) + unat (tool_get_size args ''len'' 4) < 2 ^ 64"
    using assms by (simp_all add: demo_args_ok_def)
  note z = zerocopy_total [OF a(3), of "map (\<lambda>i. word_of_nat (i * 3)) [0..<32]" "vector_base m" w]
  note o = obfuscation_total [of "[0x10, 0x20, 0x30, 0x40, 0x50, 0x60, 0x70, 0x80]"
      "tool_get_u64 args ''cpu-key'' 0xCAFEBABEDEADBEEF" w]
  have q: "\<exists>w'. run_signal_buffer_demo k w = Some w'" "\<exists>w'. run_waitfree_demo k w = Some w'" for k
    using queue_demo_output by (simp_all add: Let_def)
  have either: "\<exists>w'. x = Some w' \<Longrightarrow> \<exists>w'. y = Some w' \<Longrightarrow> \<exists>w'. (if c then x else y) = Some w'"
    for x y :: "world option" and c
    by simp
  show ?thesis
    unfolding single_demo_def Let_def
    by (intro either simd_total [OF a(1)] dma_total [OF a(2)] run_regcolor_total run_deadlock_total q z o)
      (simp_all del: upt_conv_Cons_Cons)
qed

lemma demo_sequence_total:
  assumes "demo_args_ok m args"
  shows "\<exists>w'. demo_sequence m args ds w = Some w'"
proof (induction ds arbitrary: w)
  case (Cons d ds)
  obtain w1 where "single_demo m args d (demo_banner d w) = Some w1" using single_demo_total [OF assms] by blast
  then show ?case using Cons by simp
qed simp

text \<open>
  C27. With at least one iteration for \<open>simd\<close>, a region that \<open>mmap\<close> gives and a slice that does not
  wrap, every demonstration of the toolchain, \<open>all\<close> included, ends without reading an uninitialised
  value or leaving an array, and the program exits with 0. With no iteration the \<open>simd\<close>
  demonstration reads its uninitialised result.
\<close>

theorem demonstrations_end:
  assumes "tool_parse argv ToolArgs_new = args" and "demo_args_ok m args" and "ta_kv args ''demo'' = Some name"
    and "\<forall>k \<in> {''help'', ''version'', ''compile'', ''run'', ''build-native'', ''patch''}. \<not> tool_has args k"
  shows "(\<exists>w'. tool_main m (exe # argv) w = Some (0, w')) \<and> run_simd_demo avx2 0 w = None"
proof -
  have n: "argv \<noteq> []" using assms(1,3) by (cases argv) (auto simp: ToolArgs_new_def)
  have "\<exists>w'. tool_run_demo m args name w = Some w'"
    unfolding tool_run_demo_def
    using demo_sequence_total [OF assms(2)] single_demo_total [OF assms(2)] by simp
  moreover have "tool_has args ''demo''" "tool_get args ''demo'' [] = name"
    using assms(3) by (simp_all add: tool_has_def tool_get_def)
  moreover have "tool_main m (exe # argv) w = map_option (Pair 0) (tool_run_demo m args name w)"
    using assms(4) n calculation(2,3) by (simp add: tool_main_def assms(1))
  ultimately show ?thesis by (auto simp: run_simd_demo_def)
qed

definition sample_machine :: machine where
  "sample_machine = \<lparr>has_avx2 = True, tsc_start = 0, tsc_end = 1,
     regions = \<lparr>mmap_ok = (\<lambda>_. True), malloc_bytes = (\<lambda>_. None)\<rparr>, vector_base = 4096, jit_page_ok = True,
     cpuid_value = 1, show_percent = (\<lambda>_ _. ''100''), system_call = (\<lambda>_ w. (0, w)), other_path = (\<lambda>_. False)\<rparr>"

theorem demonstrations_end_witness:
  "\<exists>w'. tool_main sample_machine [''nan'', ''--demo'', ''all''] (sample_world [] []) = Some (0, w')"
  using demonstrations_end [of "[''--demo'', ''all'']" "\<lparr>ta_kv = [''demo'' \<mapsto> ''all''], ta_flags = Map.empty\<rparr>"
      sample_machine "''all''" "''nan''" "sample_world [] []" True]
  by (simp add: ToolArgs_new_def demo_args_ok_def sample_machine_def tool_get_int_def tool_get_size_def
      tool_get_u64_def tool_has_def)

end
