(* ===== verification/Ui_Drawing.thy ===== *)
theory Ui_Drawing
  imports Ui_Scene
begin

text \<open>
  The drawing of a scene in \<open>src/nanlang_cpp.cpp\<close>: \<open>render_ui_scene_to_cairo\<close> and its helpers. A
  function that draws is the list of the cairo calls it makes, in order; a pango layout shown is
  one call with its text, width, alignment and font. The pixel size pango gives a layout is the
  parameter \<open>measure\<close>. Doubles are exact rationals, as in the mouse handlers.
\<close>

section \<open>Calls\<close>

datatype alignment = AlignLeft | AlignCenter

record text_layout =
  tl_text :: string
  tl_width :: "(int \<times> alignment) option"
  tl_font :: string

datatype cairo_call =
    Save | Restore | SourceRgba rat rat rat rat | SourceGradient rat rat rat rat "(rat \<times> rat \<times> rat \<times> rat) list"
  | NewSubPath | ClosePath | Arc rat rat rat rat rat | MoveTo rat rat | LineTo rat rat
  | LineWidth rat | LineCapRound | LineJoinRound | Fill | FillPreserve | Stroke | Paint
  | ShowLayout text_layout

type_synonym drawing = "cairo_call list"
type_synonym measure = "text_layout \<Rightarrow> int \<times> int"

record Rgba =
  red :: rat
  green :: rat
  blue :: rat
  alpha :: rat

definition rgba :: "rat \<Rightarrow> rat \<Rightarrow> rat \<Rightarrow> rat \<Rightarrow> Rgba" where
  "rgba r g b a = \<lparr>red = r, green = g, blue = b, alpha = a\<rparr>"

definition kPi :: rat where
  "kPi = 314159265358979323846 / 10 ^ 20"

definition set_source_rgba :: "Rgba \<Rightarrow> drawing" where
  "set_source_rgba c = [SourceRgba (red c) (green c) (blue c) (alpha c)]"

section \<open>Shapes and text\<close>

definition draw_rounded_rect :: "rat \<Rightarrow> rat \<Rightarrow> rat \<Rightarrow> rat \<Rightarrow> rat \<Rightarrow> drawing" where
  "draw_rounded_rect x y w h r =
     (let x2 = x + w; y2 = y + h
      in [NewSubPath,
          Arc (x2 - r) (y + r) r (- kPi / 2) 0,
          Arc (x2 - r) (y2 - r) r 0 (kPi / 2),
          Arc (x + r) (y2 - r) r (kPi / 2) kPi,
          Arc (x + r) (y + r) r kPi (3 * kPi / 2),
          ClosePath])"

definition fill_card :: "rat \<Rightarrow> rat \<Rightarrow> rat \<Rightarrow> rat \<Rightarrow> rat \<Rightarrow> Rgba \<Rightarrow> Rgba \<Rightarrow> drawing" where
  "fill_card x y w h radius fill border =
     [Save] @ draw_rounded_rect x y w h radius @ set_source_rgba fill @ [FillPreserve] @
     set_source_rgba border @ [LineWidth 1, Stroke, Restore]"

text \<open>The C string of a text ends at its first null byte; a width is in units of 1/1024 pixel.\<close>

definition make_layout :: "string \<Rightarrow> string \<Rightarrow> int \<Rightarrow> alignment \<Rightarrow> text_layout" where
  "make_layout text font_desc width align =
     \<lparr>tl_text = takeWhile (\<lambda>c. c \<noteq> CHR 0x00) text,
      tl_width = (if 0 < width then Some (width * 1024, align) else None),
      tl_font = takeWhile (\<lambda>c. c \<noteq> CHR 0x00) font_desc\<rparr>"

definition draw_text :: "string \<Rightarrow> rat \<Rightarrow> rat \<Rightarrow> string \<Rightarrow> Rgba \<Rightarrow> int \<Rightarrow> alignment \<Rightarrow> drawing" where
  "draw_text text x y font_desc color width align =
     [Save] @ set_source_rgba color @
     [MoveTo x y, ShowLayout (make_layout text font_desc width align), Restore]"

abbreviation draw_text' :: "string \<Rightarrow> rat \<Rightarrow> rat \<Rightarrow> string \<Rightarrow> Rgba \<Rightarrow> drawing" where
  "draw_text' text x y font_desc color \<equiv> draw_text text x y font_desc color (-1) AlignLeft"

definition draw_text_centered :: "measure \<Rightarrow> string \<Rightarrow> rat \<Rightarrow> rat \<Rightarrow> string \<Rightarrow> Rgba \<Rightarrow> int \<Rightarrow> drawing" where
  "draw_text_centered m text center_x center_y font_desc color max_width =
     (let layout = make_layout text font_desc max_width AlignCenter;
          (text_w, text_h) = m layout
      in [Save] @ set_source_rgba color @
         [MoveTo (center_x - of_int text_w / 2) (center_y - of_int text_h / 2), ShowLayout layout, Restore])"

definition draw_chip :: "measure \<Rightarrow> rat \<Rightarrow> rat \<Rightarrow> rat \<Rightarrow> rat \<Rightarrow> string \<Rightarrow> Rgba \<Rightarrow> Rgba \<Rightarrow> drawing" where
  "draw_chip m x y w h text fill fg =
     fill_card x y w h 999 fill fill @
     draw_text_centered m text (x + w / 2) (y + h / 2 + 1) ''Sans Bold 11'' fg (-1)"

section \<open>Widgets\<close>

definition card_fill :: "bool \<Rightarrow> bool \<Rightarrow> bool \<Rightarrow> Rgba" where
  "card_fill button is_dragging is_clicked =
     (if is_dragging then rgba (20/100) (58/100) 1 (98/100)
      else if is_clicked then rgba (8/100) (35/100) (82/100) (98/100)
      else if button then rgba (13/100) (45/100) (92/100) (95/100)
      else rgba (95/100) (97/100) 1 (96/100))"

definition card_border :: "bool \<Rightarrow> bool \<Rightarrow> bool \<Rightarrow> Rgba" where
  "card_border button is_dragging is_clicked =
     (if is_dragging then rgba (30/100) (68/100) 1 1
      else if is_clicked then rgba (12/100) (45/100) (95/100) 1
      else if button then rgba (17/100) (50/100) (98/100) (90/100)
      else rgba (83/100) (88/100) (94/100) 1)"

text \<open>Both differences are of type \<open>int\<close> and wrap.\<close>

definition slider_ratio :: "UiWidget \<Rightarrow> rat" where
  "slider_ratio wd =
     (let span = of_int (max 1 (to_int (uw_max wd - uw_min wd)));
          v = of_int (to_int (uw_current wd - uw_min wd)) / span
      in if v < 0 then 0 else if 1 < v then 1 else v)"

definition knob_position :: "UiWidget \<Rightarrow> rat \<Rightarrow> rat \<Rightarrow> rat" where
  "knob_position wd x w = (x + 18) + slider_ratio wd * (w - 36)"

definition draw_slider :: "UiWidget \<Rightarrow> rat \<Rightarrow> rat \<Rightarrow> rat \<Rightarrow> rat \<Rightarrow> bool \<Rightarrow> Rgba \<Rightarrow> drawing" where
  "draw_slider wd x y w h is_dragging title_color =
     (let track_x = x + 18; track_y = y + h - 28; track_w = w - 36
      in draw_text' (''Range: '' @ int_to_string (uw_min wd) @ ''..'' @ int_to_string (uw_max wd))
           (x + 18) (y + 44) ''Sans 12'' title_color @
         draw_text' (''Current: '' @ int_to_string (uw_current wd)) (x + 18) (y + 66) ''Sans Bold 16'' title_color @
         [LineWidth 8, LineCapRound] @ set_source_rgba (rgba (82/100) (86/100) (92/100) 1) @
         [MoveTo track_x track_y, LineTo (track_x + track_w) track_y, Stroke] @
         (if is_dragging then
            set_source_rgba (rgba (30/100) (68/100) 1 1) @ [Arc (knob_position wd x w) track_y 11 0 (2 * kPi), Fill]
          else
            set_source_rgba (rgba (15/100) (52/100) (94/100) 1) @ [Arc (knob_position wd x w) track_y 9 0 (2 * kPi), Fill]))"

definition draw_widget_card :: "UiWidget \<Rightarrow> rat \<Rightarrow> rat \<Rightarrow> rat \<Rightarrow> rat \<Rightarrow> UiScene \<Rightarrow> drawing" where
  "draw_widget_card wd x y w h scene =
     (let button = (uw_kind wd = ButtonWidget); slider = (uw_kind wd = SliderWidget);
          is_dragging = (sc_dragging scene = uw_widget_id wd);
          is_clicked = (sc_clicked scene = uw_widget_id wd);
          title_color = (if button then rgba 1 1 1 1 else rgba (8/100) (12/100) (18/100) 1);
          body_color = (if button then rgba (90/100) (96/100) 1 (90/100) else rgba (27/100) (34/100) (45/100) 1)
      in fill_card x y w h 18 (card_fill button is_dragging is_clicked) (card_border button is_dragging is_clicked) @
         draw_text' (widget_kind_name (uw_kind wd)) (x + 18) (y + 16) ''Sans Bold 11'' body_color @
         draw_text' (''Widget #'' @ int_to_string (uw_widget_id wd)) (x + w - 102) (y + 16) ''Sans 10'' body_color @
         (if uw_kind wd = LabelWidget \<or> uw_kind wd = ButtonWidget then
            draw_text (uw_text wd) (x + 18) (y + 48) (if button then ''Sans Bold 17'' else ''Sans Bold 16'')
              title_color (trunc (w - 36)) AlignLeft @
            draw_text' (''window '' @ int_to_string (uw_window_id wd)) (x + 18) (y + h - 26) ''Sans 10'' body_color
          else if slider then draw_slider wd x y w h is_dragging title_color
          else []))"

section \<open>The chart\<close>

text \<open>The range of the samples, widened when it is empty and so that it holds 0 and 1.\<close>

definition chart_range :: "int list \<Rightarrow> rat \<times> rat" where
  "chart_range vs =
     (let min_v = of_int (foldl min (hd vs) (tl vs)); max_v = of_int (foldl max (hd vs) (tl vs));
          (min_v, max_v) = (if \<bar>max_v - min_v\<bar> < 1 / 10000 then (min_v - 1, max_v + 1) else (min_v, max_v));
          min_v = (if 0 < min_v then 0 else min_v);
          max_v = (if max_v < 1 then 1 else max_v)
      in (min_v, max_v))"

record chart_area =
  ca_gx :: rat
  ca_gy :: rat
  ca_w :: rat
  ca_h :: rat

definition chart_area_of :: "rat \<Rightarrow> rat \<Rightarrow> rat \<Rightarrow> rat \<Rightarrow> chart_area" where
  "chart_area_of x y w h =
     \<lparr>ca_gx = x + 24, ca_gy = y + 56, ca_w = max 1 (w - 24 - 24), ca_h = max 1 (h - 56 - 28)\<rparr>"

definition chart_point :: "chart_area \<Rightarrow> int list \<Rightarrow> nat \<Rightarrow> rat \<times> rat" where
  "chart_point ca vs i =
     (let (min_v, max_v) = chart_range vs; n = length vs;
          step = (if 1 < n then ca_w ca / (of_nat n - 1) else ca_w ca);
          norm = (of_int (vs ! i) - min_v) / (max_v - min_v)
      in (ca_gx ca + (if 1 < n then step * of_nat i else ca_w ca / 2), ca_gy ca + ca_h ca - norm * ca_h ca))"

definition draw_grid :: "chart_area \<Rightarrow> drawing" where
  "draw_grid ca =
     [Save, LineWidth 1] @ set_source_rgba (rgba (22/100) (28/100) (40/100) (55/100)) @
     concat (map (\<lambda>i. let yy = ca_gy ca + (ca_h ca / 4) * of_nat i
                       in [MoveTo (ca_gx ca) yy, LineTo (ca_gx ca + ca_w ca) yy]) [0..<5]) @
     [Stroke, Restore]"

definition draw_curve :: "measure \<Rightarrow> chart_area \<Rightarrow> int list \<Rightarrow> drawing" where
  "draw_curve m ca vs =
     [Save, LineWidth (24/10), LineJoinRound, LineCapRound] @
     set_source_rgba (rgba (15/100) (78/100) (87/100) 1) @
     map (\<lambda>i. let (px, py) = chart_point ca vs i in if i = 0 then MoveTo px py else LineTo px py) [0..<length vs] @
     [Stroke] @
     concat (map (\<lambda>i. let (px, py) = chart_point ca vs i
        in set_source_rgba (rgba (10/100) (62/100) (88/100) 1) @ [Arc px py (45/10) 0 (2 * kPi), Fill] @
           (if length vs \<le> 12
            then draw_text_centered m (int_to_string (vs ! i)) px (py - 14) ''Sans 10''
                   (rgba (86/100) (93/100) (98/100) 1) (-1)
            else [])) [0..<length vs]) @
     [Restore]"

definition bullet :: string where
  "bullet = map char_of [0xE2, 0x80, 0xA2 :: nat]"

definition draw_chart_panel :: "measure \<Rightarrow> UiScene \<Rightarrow> rat \<Rightarrow> rat \<Rightarrow> rat \<Rightarrow> rat \<Rightarrow> drawing" where
  "draw_chart_panel m scene x y w h =
     (let chart = sc_chart scene; vs = ch_values chart; ca = chart_area_of x y w h
      in fill_card x y w h 24 (rgba (7/100) (10/100) (18/100) (92/100)) (rgba (18/100) (24/100) (37/100) 1) @
         draw_text' (''Chart '' @ int_to_string (ch_chart_id chart)) (x + 20) (y + 16) ''Sans Bold 16'' (rgba 1 1 1 1) @
         draw_text' (nat_to_string (length vs) @ '' samples'') (x + w - 130) (y + 18) ''Sans 11''
           (rgba (72/100) (79/100) (90/100) 1) @
         draw_grid ca @
         (if vs = [] then
            draw_text_centered m ''No chart data'' (x + w / 2) (y + h / 2) ''Sans Bold 18''
              (rgba (78/100) (82/100) (90/100) (90/100)) (-1)
          else
            draw_curve m ca vs @
            draw_text' (''window '' @ int_to_string (ch_window_id chart) @ ''  '' @ bullet @ ''  range '' @
                int_to_string (trunc (fst (chart_range vs))) @ ''..'' @ int_to_string (trunc (snd (chart_range vs))))
              (x + 20) (y + h - 22) ''Sans 11'' (rgba (70/100) (77/100) (88/100) 1)))"

section \<open>The scene\<close>

definition draw_background :: "rat \<Rightarrow> rat \<Rightarrow> drawing" where
  "draw_background width height =
     [Save,
      SourceGradient 0 0 width height
        [(0, 5/100, 8/100, 15/100), (55/100, 7/100, 14/100, 22/100), (1, 8/100, 20/100, 25/100)],
      Paint, Restore,
      Save, SourceRgba (10/100) (45/100) (85/100) (12/100),
      Arc (width * (12/100)) (height * (12/100)) (min width height * (20/100)) 0 (2 * kPi), Fill,
      SourceRgba (17/100) (78/100) (73/100) (10/100),
      Arc (width * (86/100)) (height * (20/100)) (min width height * (15/100)) 0 (2 * kPi), Fill,
      Restore]"

definition draw_header :: "measure \<Rightarrow> UiScene \<Rightarrow> rat \<Rightarrow> drawing" where
  "draw_header m scene width =
     (let margin = 24
      in fill_card margin margin (width - 2 * margin) 110 28 (rgba (96/100) (98/100) 1 (96/100))
           (rgba (84/100) (88/100) (94/100) 1) @
         draw_text' ''NanLang Graphics Toolkit'' (margin + 24) (margin + 18) ''Sans Bold 22'' (rgba (8/100) (12/100) (18/100) 1) @
         draw_text (sc_title scene) (margin + 24) (margin + 52) ''Sans Bold 31'' (rgba (6/100) (22/100) (41/100) 1)
           (trunc (width * (62/100))) AlignLeft @
         draw_text' (''Rendered from NanLang `ui` directives. Close the window to exit.'') (margin + 24) (margin + 90)
           ''Sans 11'' (rgba (32/100) (39/100) (51/100) 1) @
         draw_chip m (width - margin - 230) (margin + 18) 90 24
           (if sc_has_magic scene then ''NAN3'' else ''NO MAGIC'')
           (if sc_has_magic scene then rgba (12/100) (61/100) (42/100) (95/100) else rgba (73/100) (26/100) (27/100) (95/100))
           (rgba 1 1 1 1) @
         draw_chip m (width - margin - 130) (margin + 18) 118 24
           (if sc_horizontal scene then ''HORIZONTAL'' else ''VERTICAL'') (rgba (11/100) (34/100) (73/100) (95/100))
           (rgba 1 1 1 1))"

text \<open>The columns and the card size, computed here a second time beside the mouse handler's.\<close>

definition render_layout :: "UiScene \<Rightarrow> int \<Rightarrow> card_layout" where
  "render_layout s width =
     (let margin = 24;
          gap = max 8 (of_int (sc_spacing s)) :: rat;
          horizontal = sc_horizontal s;
          widget_count = length (sc_widgets s);
          usable_w = of_int width - 2 * margin;
          min_card_w = (if horizontal then 270 else usable_w);
          cols = (if horizontal \<and> 0 < widget_count
                  then max 1 (min (max 1 (nat (trunc ((usable_w + gap) / (min_card_w + gap))))) widget_count)
                  else 1)
      in \<lparr>cl_cols = cols,
          cl_card_w = (if horizontal then (usable_w - gap * (of_nat cols - 1)) / of_nat cols else usable_w),
          cl_card_h = (if horizontal then 154 else 92),
          cl_gap = gap\<rparr>)"

record card =
  cd_widget :: UiWidget
  cd_x :: rat
  cd_y :: rat
  cd_w :: rat
  cd_h :: rat

text \<open>The calls of \<open>draw_widget_card\<close>, in order.\<close>

definition drawn_cards :: "UiScene \<Rightarrow> int \<Rightarrow> card list" where
  "drawn_cards s width =
     (let cl = render_layout s width; y = 24 + 126
      in map (\<lambda>i. let row = i div cl_cols cl; col = i mod cl_cols cl
                  in \<lparr>cd_widget = sc_widgets s ! i,
                      cd_x = 24 + of_nat col * (cl_card_w cl + cl_gap cl),
                      cd_y = y + of_nat row * (cl_card_h cl + cl_gap cl),
                      cd_w = cl_card_w cl, cd_h = cl_card_h cl\<rparr>) [0..<length (sc_widgets s)])"

definition render_ui_scene_to_cairo :: "measure \<Rightarrow> int \<Rightarrow> int \<Rightarrow> UiScene \<Rightarrow> drawing" where
  "render_ui_scene_to_cairo m width height s =
     (let margin = 24; cl = render_layout s width; widget_count = length (sc_widgets s);
          rows = (if widget_count = 0 then 0 else (widget_count + cl_cols cl - 1) div cl_cols cl);
          y = margin + 126;
          chart_y = y + of_nat rows * (cl_card_h cl + cl_gap cl) + 8;
          chart_h = max 220 (of_int height - chart_y - margin);
          footer = ''Widgets: '' @ nat_to_string widget_count @
            (if ch_present (sc_chart s) then ''  |  Chart points: '' @ nat_to_string (length (ch_values (sc_chart s))) else [])
      in draw_background (of_int width) (of_int height) @
         draw_header m s (of_int width) @
         concat (map (\<lambda>c. draw_widget_card (cd_widget c) (cd_x c) (cd_y c) (cd_w c) (cd_h c) s) (drawn_cards s width)) @
         draw_chart_panel m s margin chart_y (of_int width - 2 * margin) (min chart_h 300) @
         draw_text' footer (margin + 8) (of_int height - 18) ''Sans 10'' (rgba (74/100) (80/100) (90/100) (90/100)))"

text \<open>The draw handler, with the size GTK allocated to the drawing area; it always answers \<open>FALSE\<close>.\<close>

definition on_ui_draw :: "measure \<Rightarrow> int \<Rightarrow> int \<Rightarrow> UiScene \<Rightarrow> bool \<times> drawing" where
  "on_ui_draw m width height s = (False, render_ui_scene_to_cairo m width height s)"

section \<open>What is drawn is what is clicked\<close>

lemma render_layout_eq: "render_layout s width = card_layout_of s width"
  by (cases "sc_widgets s = []") (auto simp: render_layout_def card_layout_of_def Let_def)

definition inside :: "rat \<Rightarrow> rat \<Rightarrow> card \<Rightarrow> bool" where
  "inside x y c \<longleftrightarrow> cd_x c \<le> x \<and> x < cd_x c + cd_w c \<and> cd_y c \<le> y \<and> y < cd_y c + cd_h c"

definition card_at :: "card_layout \<Rightarrow> nat \<Rightarrow> UiWidget \<Rightarrow> card" where
  "card_at cl i wd =
     (let row = i div cl_cols cl; col = i mod cl_cols cl
      in \<lparr>cd_widget = wd, cd_x = 24 + of_nat col * (cl_card_w cl + cl_gap cl),
          cd_y = (24 + 126) + of_nat row * (cl_card_h cl + cl_gap cl), cd_w = cl_card_w cl, cd_h = cl_card_h cl\<rparr>)"

lemma in_card_at: "in_card cl i x y = inside x y (card_at cl i wd)"
  by (simp add: in_card_def inside_def card_at_def Let_def)

lemma drawn_cards_enumerate:
  "drawn_cards s width = map (\<lambda>(i, wd). card_at (render_layout s width) i wd) (enumerate 0 (sc_widgets s))"
  by (rule nth_equalityI) (simp_all add: drawn_cards_def card_at_def Let_def nth_enumerate_eq)

definition clickable :: "card \<Rightarrow> bool" where
  "clickable c \<longleftrightarrow> uw_kind (cd_widget c) \<noteq> LabelWidget"

definition grab :: "card \<Rightarrow> UiScene \<Rightarrow> UiScene" where
  "grab c s =
     (if uw_kind (cd_widget c) = SliderWidget then s\<lparr>sc_dragging := uw_widget_id (cd_widget c)\<rparr>
      else s\<lparr>sc_clicked := uw_widget_id (cd_widget c)\<rparr>)"

lemma press_loop_find:
  "press_loop cl x y k ws s =
     (case find (\<lambda>c. inside x y c \<and> clickable c) (map (\<lambda>(i, wd). card_at cl i wd) (enumerate k ws)) of
        None \<Rightarrow> (False, s) | Some c \<Rightarrow> (True, grab c s))"
proof (induction ws arbitrary: k)
  case (Cons wd ws)
  have w: "cd_widget (card_at cl k wd) = wd" by (simp add: card_at_def Let_def)
  show ?case
    by (cases "uw_kind wd") (simp_all add: Cons in_card_at [of cl k x y wd] clickable_def grab_def w)
qed simp

text \<open>
  C29. The mouse finds the widgets where they are drawn: a left press at a point picks the first
  slider or button whose drawn card holds the point, at any window width and in both layouts,
  and answers \<open>FALSE\<close> exactly when there is none.
\<close>

theorem press_hits_drawn_card:
  "on_ui_button_press 1 x y width s =
     (let s' = s\<lparr>sc_mouse_x := x, sc_mouse_y := y\<rparr>
      in case find (\<lambda>c. inside x y c \<and> clickable c) (drawn_cards s width) of
           None \<Rightarrow> (False, s')
         | Some c \<Rightarrow> (True, grab c s'))"
  by (simp add: on_ui_button_press_def drawn_cards_enumerate press_loop_find render_layout_eq Let_def)

section \<open>The chart stays in its panel\<close>

lemma foldl_min_max:
  "foldl min m vs \<le> (m :: int)" "v \<in> set vs \<Longrightarrow> foldl min m vs \<le> v"
  "m \<le> foldl max m vs" "v \<in> set vs \<Longrightarrow> v \<le> foldl max m vs"
proof (induction vs arbitrary: m)
  case (Cons a vs)
  { case 1 show ?case using Cons(1) [of "min m a"] by simp }
  { case 2 then show ?case using Cons(1,2) [of "min m a"] by auto }
  { case 3 show ?case using Cons(3) [of "max m a"] by simp }
  { case 4 then show ?case using Cons(3,4) [of "max m a"] by auto }
qed simp_all

lemma chart_range_holds:
  assumes "v \<in> set vs"
  shows "fst (chart_range vs) \<le> of_int v" "of_int v \<le> snd (chart_range vs)" "fst (chart_range vs) < snd (chart_range vs)"
proof -
  have m: "foldl min (hd vs) (tl vs) \<le> v" "v \<le> foldl max (hd vs) (tl vs)"
    using assms foldl_min_max by (cases vs; auto)+
  then have "(of_int (foldl min (hd vs) (tl vs)) :: rat) \<le> of_int v" "(of_int v :: rat) \<le> of_int (foldl max (hd vs) (tl vs))"
    by (simp_all only: of_int_le_iff)
  then show "fst (chart_range vs) \<le> of_int v" "of_int v \<le> snd (chart_range vs)" "fst (chart_range vs) < snd (chart_range vs)"
    by (auto simp: chart_range_def Let_def)
qed

lemma unit_interval:
  "0 \<le> (if v < 0 then 0 else if 1 < v then 1 else v :: rat)" "(if v < 0 then 0 else if 1 < v then 1 else v :: rat) \<le> 1"
  by simp_all

lemma between_scaled:
  assumes "(0 :: rat) \<le> t" "t \<le> 1" "0 \<le> w"
  shows "0 \<le> t * w" "t * w \<le> w"
  using assms mult_right_mono [of t 1 w] by simp_all

text \<open>
  C30. Every sample of a chart is drawn inside the grid of its panel, whatever the samples and the
  size of the panel are: the horizontal position runs from the left to the right edge and the
  vertical one lies between the top and the bottom line. The knob of a slider lies on its track,
  even when the current value is outside the range.
\<close>

theorem chart_points_inside:
  assumes "i < length vs" and "36 \<le> w"
  shows "(let ca = chart_area_of x y w h; (px, py) = chart_point ca vs i
      in ca_gx ca \<le> px \<and> px \<le> ca_gx ca + ca_w ca \<and> ca_gy ca \<le> py \<and> py \<le> ca_gy ca + ca_h ca) \<and>
    x + 18 \<le> knob_position wd x w \<and> knob_position wd x w \<le> x + w - 18"
proof -
  define t where "t = (of_int (vs ! i) - fst (chart_range vs)) / (snd (chart_range vs) - fst (chart_range vs))"
  define ca where "ca = chart_area_of x y w h"
  have pos: "1 \<le> ca_w ca" "1 \<le> ca_h ca" by (simp_all add: ca_def chart_area_of_def)
  have "vs ! i \<in> set vs" using assms(1) by simp
  then have t: "0 \<le> t" "t \<le> 1" using chart_range_holds [of "vs ! i" vs] by (simp_all add: t_def divide_simps)
  define q where "q = (if 1 < length vs then of_nat i / (of_nat (length vs) - 1) else 1 / 2 :: rat)"
  have "1 < length vs \<Longrightarrow> (of_nat i :: rat) \<le> of_nat (length vs - 1)"
    using assms(1) by (simp only: of_nat_le_iff)
  then have q: "0 \<le> q" "q \<le> 1" by (simp_all add: q_def of_nat_diff divide_simps)
  have p: "chart_point ca vs i = (ca_gx ca + q * ca_w ca, ca_gy ca + ca_h ca - t * ca_h ca)"
    by (simp add: chart_point_def Let_def case_prod_unfold t_def q_def)
  have r: "0 \<le> slider_ratio wd" "slider_ratio wd \<le> 1"
    unfolding slider_ratio_def Let_def by (rule unit_interval)+
  show ?thesis
    using between_scaled [OF q, of "ca_w ca"] between_scaled [OF t, of "ca_h ca"] between_scaled [OF r, of "w - 36"]
      pos assms(2)
    unfolding ca_def [symmetric] Let_def by (auto simp: p knob_position_def)
qed

theorem chart_points_inside_witness:
  "(let ca = chart_area_of 0 0 400 300; (px, py) = chart_point ca [1, 3] 1
    in ca_gx ca \<le> px \<and> px \<le> ca_gx ca + ca_w ca \<and> ca_gy ca \<le> py \<and> py \<le> ca_gy ca + ca_h ca) \<and>
   18 \<le> knob_position UiWidget_new 0 400"
  using chart_points_inside [of 1 "[1, 3]" 400 0 0 300 UiWidget_new] by simp

end
