(* ===== verification/Reg_Alloc.thy ===== *)
theory Reg_Alloc
  imports Prelude
begin

text \<open>
  The register allocator of the AOT compiler (\<open>RegisterAllocator\<close> in
  \<open>src/src/nan_aot_compiler.cpp\<close>), which the code generator holds and does not call yet. Registers
  are their x86-64 numbers: 0 is RAX, 4 RSP, 5 RBP. The two hash maps are maps; the stack offset is
  a natural number.
\<close>

record RegisterAllocator =
  var_to_reg :: "string \<rightharpoonup> nat"
  var_to_stack :: "string \<rightharpoonup> nat"
  reg_used :: "bool list"
  stack_offset :: nat

definition RegisterAllocator_new :: RegisterAllocator where
  "RegisterAllocator_new =
     \<lparr>var_to_reg = Map.empty, var_to_stack = Map.empty, reg_used = (replicate 16 False)[5 := True, 4 := True],
      stack_offset = 0\<rparr>"

definition spill :: "string \<Rightarrow> RegisterAllocator \<Rightarrow> RegisterAllocator" where
  "spill v ra =
     (if var_to_stack ra v = None
      then ra\<lparr>var_to_stack := (var_to_stack ra)(v \<mapsto> stack_offset ra), stack_offset := stack_offset ra + 8\<rparr>
      else ra)"

text \<open>The loop over the sixteen registers, which passes over RBP and RSP.\<close>

fun find_register :: "bool list \<Rightarrow> nat \<Rightarrow> nat option" where
  "find_register [] i = None"
| "find_register (u # us) i =
     (if i = 5 \<or> i = 4 then find_register us (i + 1)
      else if \<not> u then Some i else find_register us (i + 1))"

definition allocate_register :: "string \<Rightarrow> RegisterAllocator \<Rightarrow> nat \<times> RegisterAllocator" where
  "allocate_register v ra =
     (case find_register (reg_used ra) 0 of
        Some i \<Rightarrow> (i, ra\<lparr>reg_used := (reg_used ra)[i := True], var_to_reg := (var_to_reg ra)(v \<mapsto> i)\<rparr>)
      | None \<Rightarrow> (0, spill v ra))"

definition free_register :: "string \<Rightarrow> RegisterAllocator \<Rightarrow> RegisterAllocator" where
  "free_register v ra =
     (case var_to_reg ra v of
        None \<Rightarrow> ra
      | Some r \<Rightarrow> ra\<lparr>reg_used := (reg_used ra)[r := False], var_to_reg := (var_to_reg ra)(v := None)\<rparr>)"

section \<open>No register has two owners\<close>

definition inj_map :: "(string \<rightharpoonup> nat) \<Rightarrow> bool" where
  "inj_map m \<longleftrightarrow> (\<forall>u v r. m u = Some r \<longrightarrow> m v = Some r \<longrightarrow> u = v)"

definition ra_ok :: "RegisterAllocator \<Rightarrow> bool" where
  "ra_ok ra \<longleftrightarrow> length (reg_used ra) = 16 \<and> reg_used ra ! 4 \<and> reg_used ra ! 5 \<and>
     inj_map (var_to_reg ra) \<and>
     (\<forall>r \<in> ran (var_to_reg ra). r < 16 \<and> r \<noteq> 4 \<and> r \<noteq> 5 \<and> reg_used ra ! r) \<and>
     inj_map (var_to_stack ra) \<and>
     (\<forall>d \<in> ran (var_to_stack ra). 8 dvd d \<and> d + 8 \<le> stack_offset ra) \<and> 8 dvd stack_offset ra"

lemma find_register_Some:
  "find_register us k = Some i \<Longrightarrow> k \<le> i \<and> i < k + length us \<and> i \<noteq> 4 \<and> i \<noteq> 5 \<and> \<not> us ! (i - k)"
  by (induction us k rule: find_register.induct) (auto split: if_splits simp: nth_Cons')

lemma find_register_None:
  "find_register us k = None \<Longrightarrow> i < length us \<Longrightarrow> k + i \<noteq> 4 \<Longrightarrow> k + i \<noteq> 5 \<Longrightarrow> us ! i"
proof (induction us k arbitrary: i rule: find_register.induct)
  case (2 u us k)
  then show ?case by (cases i) (auto split: if_splits)
qed simp

lemma inj_update: "inj_map m \<Longrightarrow> x \<notin> ran m \<Longrightarrow> inj_map (m(v \<mapsto> x))"
  by (auto simp: inj_map_def ran_def)

lemma inj_forget: "inj_map m \<Longrightarrow> inj_map (m(v := None))"
  by (auto simp: inj_map_def)

lemma ran_update: "y \<in> ran (m(v \<mapsto> x)) \<Longrightarrow> y = x \<or> y \<in> ran m"
  by (auto simp: ran_def split: if_splits)

lemma ran_forget: "y \<in> ran (m(v := None)) \<Longrightarrow> \<exists>u. u \<noteq> v \<and> m u = Some y"
  by (auto simp: ran_def split: if_splits)

lemma ra_ok_new: "ra_ok RegisterAllocator_new"
  by (simp add: ra_ok_def RegisterAllocator_new_def inj_map_def)

lemma ra_ok_spill:
  assumes "ra_ok ra"
  shows "ra_ok (spill v ra)"
proof (cases "var_to_stack ra v")
  case None
  have "stack_offset ra \<notin> ran (var_to_stack ra)" using assms by (auto simp: ra_ok_def)
  then have "inj_map ((var_to_stack ra)(v \<mapsto> stack_offset ra))" using assms by (simp add: ra_ok_def inj_update)
  then show ?thesis using assms None
    by (auto simp: ra_ok_def spill_def simp del: fun_upd_apply dest!: ran_update)
qed (simp add: spill_def assms)

lemma ra_ok_allocate:
  assumes "ra_ok ra"
  shows "ra_ok (snd (allocate_register v ra))"
proof (cases "find_register (reg_used ra) 0")
  case (Some i)
  note f = find_register_Some [OF Some]
  then have "i \<notin> ran (var_to_reg ra)" using assms by (auto simp: ra_ok_def)
  then have "inj_map ((var_to_reg ra)(v \<mapsto> i))" using assms by (simp add: ra_ok_def inj_update)
  then show ?thesis using Some f assms
    by (auto simp: ra_ok_def allocate_register_def nth_list_update simp del: fun_upd_apply dest!: ran_update)
qed (simp add: allocate_register_def ra_ok_spill assms)

lemma ra_ok_free:
  assumes "ra_ok ra"
  shows "ra_ok (free_register v ra)"
proof (cases "var_to_reg ra v")
  case (Some r)
  have r: "r < 16" "r \<noteq> 4" "r \<noteq> 5" using assms Some by (auto simp: ra_ok_def ran_def)
  have "r \<noteq> r' \<and> r' \<in> ran (var_to_reg ra)" if "r' \<in> ran ((var_to_reg ra)(v := None))" for r'
    using ran_forget [OF that] assms Some by (auto simp: ra_ok_def inj_map_def ran_def)
  moreover have "inj_map ((var_to_reg ra)(v := None))"
    using assms by (simp add: ra_ok_def inj_forget)
  ultimately show ?thesis using Some r assms
    by (simp add: ra_ok_def free_register_def nth_list_update del: fun_upd_apply)
qed (simp add: free_register_def assms)

datatype ra_op = Allocate string | Spill string | Free string

fun ra_apply :: "ra_op \<Rightarrow> RegisterAllocator \<Rightarrow> RegisterAllocator" where
  "ra_apply (Allocate v) ra = snd (allocate_register v ra)"
| "ra_apply (Spill v) ra = spill v ra"
| "ra_apply (Free v) ra = free_register v ra"

lemma ra_ok_apply: "ra_ok ra \<Longrightarrow> ra_ok (ra_apply op ra)"
  by (cases op) (simp_all add: ra_ok_allocate ra_ok_spill ra_ok_free)

interpretation allocator: invariant "\<lambda>op s t. t = ra_apply op s" ra_ok
  by unfold_locales (simp add: ra_ok_apply)

text \<open>
  C31. Whatever variables are allocated, spilled and freed, in any order, no register belongs to two
  variables, none is RSP or RBP, and no two spilled variables share a stack slot. An allocation
  that finds all fourteen registers in use still answers RAX, a register that is in use.
\<close>

theorem allocator_never_shares:
  "let ra = fold ra_apply ops RegisterAllocator_new in
     (\<forall>u v r. var_to_reg ra u = Some r \<and> var_to_reg ra v = Some r \<longrightarrow> u = v) \<and>
     (\<forall>v r. var_to_reg ra v = Some r \<longrightarrow> r < 16 \<and> r \<noteq> 4 \<and> r \<noteq> 5) \<and>
     (\<forall>u v d. var_to_stack ra u = Some d \<and> var_to_stack ra v = Some d \<longrightarrow> u = v) \<and>
     (case allocate_register v ra of (r, ra') \<Rightarrow>
        if find_register (reg_used ra) 0 = None then r = 0 \<and> reg_used ra ! r \<and> var_to_reg ra' = var_to_reg ra
        else \<not> reg_used ra ! r \<and> var_to_reg ra' = (var_to_reg ra)(v \<mapsto> r))"
proof -
  define ra where "ra = fold ra_apply ops RegisterAllocator_new"
  have ok: "ra_ok ra" unfolding ra_def by (rule allocator.run_ops [OF refl ra_ok_new])
  have "find_register (reg_used ra) 0 = None \<Longrightarrow> reg_used ra ! 0"
    using find_register_None [of "reg_used ra" 0 0] ok unfolding ra_ok_def by (metis add_0 list.size(3) length_greater_0_conv zero_neq_numeral)
  then have "case allocate_register v ra of (r, ra') \<Rightarrow>
        if find_register (reg_used ra) 0 = None then r = 0 \<and> reg_used ra ! r \<and> var_to_reg ra' = var_to_reg ra
        else \<not> reg_used ra ! r \<and> var_to_reg ra' = (var_to_reg ra)(v \<mapsto> r)"
    using find_register_Some [of "reg_used ra" 0]
    by (auto simp: allocate_register_def spill_def ra_ok_def split: option.split)
  then show ?thesis
    unfolding ra_def [symmetric] Let_def using ok by (auto simp: ra_ok_def inj_map_def ran_def)
qed

theorem allocator_never_shares_witness:
  "\<not> reg_used (fold ra_apply [Allocate ''a'', Allocate ''b'', Free ''a''] RegisterAllocator_new) !
     fst (allocate_register ''c'' (fold ra_apply [Allocate ''a'', Allocate ''b'', Free ''a''] RegisterAllocator_new))"
proof -
  have "find_register (reg_used (fold ra_apply [Allocate ''a'', Allocate ''b'', Free ''a''] RegisterAllocator_new)) 0 \<noteq> None"
    by code_simp
  then show ?thesis
    using allocator_never_shares [of "[Allocate ''a'', Allocate ''b'', Free ''a'']" "''c''"]
    by (auto simp: Let_def split: prod.splits simp del: fold_simps)
qed

end
