(* ===== verification/Engine.thy ===== *)
theory Engine
  imports Arch
begin

text \<open>
  The execution engine (\<open>src/src/engine.cpp\<close>) and the value types of \<open>src/include/nan_core.h\<close>:
  registers by name holding one of four kinds of value, the vector merge of signal packets, the
  string that is overwritten when it is destroyed, and the I/O port. How long
  \<open>security_delay\<close> spins depends on \<open>rand\<close> and changes no state.
\<close>

section \<open>Values\<close>

datatype Signal = SignalLow | SignalHigh

fun signal_value :: "Signal \<Rightarrow> byte" where
  "signal_value SignalLow = 0"
| "signal_value SignalHigh = 1"

record SignalPacket =
  sp_data :: m256i

definition merge_packet :: "SignalPacket \<Rightarrow> SignalPacket \<Rightarrow> SignalPacket" where
  "merge_packet p other = p\<lparr>sp_data := sp_data p OR sp_data other\<rparr>"

record ManagedString =
  ms_content :: string
  ms_active :: bool

definition ManagedString_new :: "string \<Rightarrow> ManagedString" where
  "ManagedString_new v = \<lparr>ms_content = v, ms_active = True\<rparr>"

text \<open>The bytes the destructor leaves in memory.\<close>

definition ManagedString_destroy :: "ManagedString \<Rightarrow> byte list" where
  "ManagedString_destroy s = map (\<lambda>_. 0) (ms_content s)"

datatype engine_value =
  Potential byte | SignalValue Signal | SignalList "Signal list" | StringValue ManagedString

section \<open>The engine\<close>

record ExecutionEngine =
  registers :: "string \<rightharpoonup> engine_value"
  linear_memory :: "nat \<Rightarrow> byte"

text \<open>Eight megabytes of zeros; the memory is a function from offsets.\<close>

definition ExecutionEngine_new :: ExecutionEngine where
  "ExecutionEngine_new = \<lparr>registers = Map.empty, linear_memory = (\<lambda>_. 0)\<rparr>"

definition update_state :: "string \<Rightarrow> engine_value \<Rightarrow> ExecutionEngine \<Rightarrow> ExecutionEngine" where
  "update_state reg_id val e =
     (if reg_id \<noteq> [] then e\<lparr>registers := (registers e)(reg_id \<mapsto> val)\<rparr> else e)"

text \<open>\<open>std::hex\<close> without padding.\<close>

fun hex_digits_of :: "nat \<Rightarrow> string" where
  "hex_digits_of n = (if n < 16 then [digit_char n] else hex_digits_of (n div 16) @ [digit_char (n mod 16)])"

declare hex_digits_of.simps [simp del]

definition write_io_port :: "u64 \<Rightarrow> byte \<Rightarrow> world \<Rightarrow> world" where
  "write_io_port addr val w =
     cout (''[IO_BUS] Writing to 0x'' @ hex_digits_of (unat addr) @ '' -> '' @ nat_to_string (unat val) @ [CHR 0x0A]) w"

section \<open>Facts\<close>

text \<open>Merging packets is the lane-wise OR, so it is associative, commutative and idempotent.\<close>

lemma merge_packet_laws:
  "sp_data (merge_packet p p) = sp_data p"
  "sp_data (merge_packet p q) = sp_data (merge_packet q p)"
  "merge_packet (merge_packet p q) r = merge_packet p (merge_packet q r)"
  by (simp_all add: merge_packet_def or.commute or.assoc or.left_commute)

lemma update_state_reads:
  "registers (update_state r v e) = (if r = [] then registers e else (registers e)(r \<mapsto> v))"
  "linear_memory (update_state r v e) = linear_memory e"
  by (simp_all add: update_state_def)

lemma destroyed_string_is_zero:
  "set (ManagedString_destroy s) \<subseteq> {0}" "length (ManagedString_destroy s) = length (ms_content s)"
  by (auto simp: ManagedString_destroy_def)

end
