(* ===== verification/Launcher.thy ===== *)
theory Launcher
  imports Driver
begin

text \<open>
  The C launcher \<open>src/src/nanlang_cc.c\<close>: it answers a compile command itself when the fast cache is
  on and the output is newer than the source, and otherwise starts \<open>nanlang_cpp\<close> with the same
  arguments and returns its exit code. Starting a program and waiting for it, and \<open>access\<close>, are the
  record \<open>launch_env\<close>; a child that cannot be executed exits with 127.
\<close>

datatype child_result = Fork_failed | Wait_failed | Child_status int

record launch_env =
  run_child :: "string \<Rightarrow> string list \<Rightarrow> world \<Rightarrow> child_result \<times> world"
  executable :: "world \<Rightarrow> string \<Rightarrow> bool"

definition flag_enabled :: "world \<Rightarrow> string \<Rightarrow> bool" where
  "flag_enabled w name =
     (case getenv w name of None \<Rightarrow> False | Some v \<Rightarrow> if v = [] then False else v \<noteq> ''0'')"

text \<open>Whole seconds only.\<close>

definition cc_output_is_fresh :: "world \<Rightarrow> string \<Rightarrow> string \<Rightarrow> bool" where
  "cc_output_is_fresh w src_path out_path =
     (case files w src_path of None \<Rightarrow> False
      | Some src_st \<Rightarrow>
          (case files w out_path of None \<Rightarrow> False
           | Some out_st \<Rightarrow>
               if length (f_bytes out_st) \<le> 0 then False
               else if f_mtime_sec src_st < f_mtime_sec out_st then True
               else if f_mtime_sec out_st < f_mtime_sec src_st then False
               else True))"

definition resolve_nanlang_cpp :: "launch_env \<Rightarrow> world \<Rightarrow> string" where
  "resolve_nanlang_cpp e w =
     (case getenv w ''NANLANG_CPP'' of
        Some env \<Rightarrow>
          if env \<noteq> [] then env
          else if executable e w ''./bin/nanlang_cpp'' then ''./bin/nanlang_cpp'' else ''nanlang_cpp''
      | None \<Rightarrow> if executable e w ''./bin/nanlang_cpp'' then ''./bin/nanlang_cpp'' else ''nanlang_cpp'')"

definition cc_wait_status :: "int \<Rightarrow> int" where
  "cc_wait_status status =
     (if status < 0 then 1
      else if status mod 128 = 0 then status div 256 mod 256
      else if status mod 128 \<noteq> 127 then 128 + status mod 128
      else 1)"

definition delegate_to_nanlang_cpp :: "launch_env \<Rightarrow> string list \<Rightarrow> world \<Rightarrow> int \<times> world" where
  "delegate_to_nanlang_cpp e argv w =
     (let cpp_bin = resolve_nanlang_cpp e w
      in case run_child e cpp_bin (cpp_bin # drop 1 argv) w of
           (Fork_failed, w) \<Rightarrow> (1, w)
         | (Wait_failed, w) \<Rightarrow> (1, w)
         | (Child_status status, w) \<Rightarrow> (cc_wait_status status, w))"

text \<open>The loop over the arguments from the fourth on.\<close>

fun output_path_loop :: "string list \<Rightarrow> string \<Rightarrow> string" where
  "output_path_loop [] target = target"
| "output_path_loop (a # as) target =
     (if a = ''--output'' \<and> as \<noteq> [] then output_path_loop (tl as) (hd as)
      else if prefix ''--output='' a then output_path_loop as (drop 9 a)
      else output_path_loop as target)"

definition parse_output_path :: "string list \<Rightarrow> string" where
  "parse_output_path argv = output_path_loop (drop 3 argv) ''output.elf''"

definition cache_answer :: "string list \<Rightarrow> world \<Rightarrow> bool" where
  "cache_answer argv w \<longleftrightarrow>
     3 \<le> length argv \<and> argv ! 1 = ''--compile'' \<and> flag_enabled w ''NANLANG_FAST_CACHE'' \<and>
     cc_output_is_fresh w (argv ! 2) (parse_output_path argv)"

definition cc_main :: "launch_env \<Rightarrow> string list \<Rightarrow> world \<Rightarrow> int \<times> world" where
  "cc_main e argv w = (if cache_answer argv w then (0, w) else delegate_to_nanlang_cpp e argv w)"

section \<open>The launcher and the compiler\<close>

text \<open>A process that is \<open>nanlang_cpp\<close>: its exit code is in the upper byte of the status.\<close>

definition compiler_process :: "platform \<Rightarrow> (world \<Rightarrow> string \<Rightarrow> bool) \<Rightarrow> launch_env" where
  "compiler_process p x =
     \<lparr>run_child = (\<lambda>_ argv w. case main p argv w of
          Some (rc, w') \<Rightarrow> (Child_status (rc mod 256 * 256), w') | None \<Rightarrow> (Wait_failed, w)),
      executable = x\<rparr>"

text \<open>Both programs read the output path off the options in the same way.\<close>

lemma mode_token:
  "parse_flag_output_mode tok = Some m \<Longrightarrow> tok \<noteq> ''--output'' \<and> \<not> prefix ''--output='' tok"
  by (auto simp: parse_flag_output_mode_def split: if_splits)

lemma output_path_agrees:
  "compile_option_loop opts co = Some co' \<Longrightarrow> output_path_loop opts (co_out co) = co_out co'"
proof (induction opts co rule: compile_option_loop.induct)
  case (2 tok rest co)
  show ?case
  proof (cases "parse_flag_output_mode tok")
    case (Some m)
    then show ?thesis using 2(5) [OF Some] 2(6) mode_token [OF Some] by simp
  next
    case None
    consider (aot) "tok = ''--aot''" | (out) "tok = ''--output''" | (other) "tok \<noteq> ''--aot''" "tok \<noteq> ''--output''" by blast
    then show ?thesis
    proof cases
      case aot
      then show ?thesis using 2(1) [OF None aot] 2(6) None by simp
    next
      case out
      then show ?thesis using 2(2) [OF None _ out] 2(6) None by (cases rest) simp_all
    next
      case other
      then show ?thesis using 2(3,4) [OF None other] 2(6) None by (simp split: if_splits)
    qed
  qed
qed simp

lemma main_code: "main p argv w = Some (rc, w') \<Longrightarrow>
    delegate_to_nanlang_cpp (compiler_process p x) argv0 w = (rc mod 256, w')"
  if "argv = resolve_nanlang_cpp (compiler_process p x) w # drop 1 argv0"
  using that by (simp add: delegate_to_nanlang_cpp_def compiler_process_def Let_def cc_wait_status_def)


text \<open>The two freshness tests differ only inside one second.\<close>

lemma cc_fresh_iff:
  assumes "files w src = Some s" and "files w out = Some t"
  shows "cc_output_is_fresh w src out \<longleftrightarrow> output_is_fresh w src out \<or>
    f_bytes t \<noteq> [] \<and> f_mtime_sec s = f_mtime_sec t \<and> stat_mtime_nsec t < stat_mtime_nsec s"
  using assms by (auto simp: cc_output_is_fresh_def output_is_fresh_def)

lemma flag_is_fast_mode: "flag_enabled w ''NANLANG_FAST_CACHE'' = fast_cache_mode_enabled w"
  by (simp add: flag_enabled_def fast_cache_mode_enabled_def)

lemma cc_main_delegates:
  "main p (resolve_nanlang_cpp (compiler_process p x) w # args) w = Some (rc, w') \<Longrightarrow>
   cc_main (compiler_process p x) (name # args) w =
     (if cache_answer (name # args) w then (0, w) else (rc mod 256, w'))"
  by (simp add: cc_main_def main_code)

section \<open>Properties\<close>

text \<open>
  C10. The launcher in front of \<open>nanlang_cpp\<close> is transparent: with the same arguments it leaves the
  world \<open>nanlang_cpp\<close> leaves and exits with the low eight bits of its exit code, except when it
  answers from the cache; then it exits with 0 and does nothing. The output whose age it looks
  at is the one the compile command would write, for every list of options that command accepts.
\<close>

theorem launcher_is_transparent:
  assumes "main p (resolve_nanlang_cpp (compiler_process p x) w # args) w = Some (rc, w')"
  shows "cc_main (compiler_process p x) (name # args) w =
      (if cache_answer (name # args) w then (0, w) else (rc mod 256, w')) \<and>
    (\<forall>src opts co. args = ''--compile'' # src # opts \<longrightarrow>
      compile_option_loop opts \<lparr>co_out = ''output.elf'', co_mode = Elf, co_mode_count = 0\<rparr> = Some co \<longrightarrow>
      parse_output_path (name # args) = co_out co)"
proof -
  have "output_path_loop opts ''output.elf'' = co_out co"
    if "compile_option_loop opts \<lparr>co_out = ''output.elf'', co_mode = Elf, co_mode_count = 0\<rparr> = Some co" for opts co
    using output_path_agrees [OF that] by simp
  then show ?thesis using cc_main_delegates [OF assms] by (auto simp: parse_output_path_def)
qed

lemma launcher_is_transparent_witness:
  "cc_main (compiler_process sample_platform (\<lambda>_ _. True)) [''nanlang'', ''--run'', []] (sample_world [] []) =
     (1, cerr (''[ERROR] Missing executable file path.'' @ nl) (sample_world [] [])) \<and>
   parse_output_path [''nanlang'', ''--compile'', ''a.nl'', ''--bin'', ''--output=b''] = ''b''"
proof -
  define w where "w = sample_world [] []"
  define q where "q = cerr (''[ERROR] Missing executable file path.'' @ nl) w"
  define r where "r = resolve_nanlang_cpp (compiler_process sample_platform (\<lambda>_ _. True)) w"
  have m: "main sample_platform [r, ''--run'', []] w = Some (1, q)"
    by (simp add: main_def fast_path_compile_run_def q_def)
  have a: "cc_main (compiler_process sample_platform (\<lambda>_ _. True)) [''nanlang'', ''--run'', []] w = (1, q)"
    using launcher_is_transparent [OF m [unfolded r_def], of "''nanlang''"] by (simp add: cache_answer_def)
  obtain rc w' where c: "main sample_platform [r, ''--compile'', ''a.nl'', ''--bin'', ''--output=b''] w = Some (rc, w')"
    by (fastforce simp: main_def fast_path_compile_run_def)
  have "parse_output_path [''nanlang'', ''--compile'', ''a.nl'', ''--bin'', ''--output=b''] = ''b''"
    using launcher_is_transparent [OF c [unfolded r_def], of "''nanlang''"]
    by (simp add: parse_flag_output_mode_def)
  then show ?thesis using a by (simp add: w_def q_def)
qed

text \<open>
  C11. With the fast cache on, the launcher reports success for an output that is older than its
  source but was written in the same second, and leaves it as it is, where \<open>nanlang_cpp\<close>'s own test,
  which compares the nanoseconds as well, finds it stale.
\<close>

theorem launcher_serves_stale:
  assumes "fast_cache_mode_enabled w" and "out = parse_output_path (name # ''--compile'' # src # opts)"
    and "files w src = Some s" and "files w out = Some t" and "f_bytes t \<noteq> []"
    and "f_mtime_sec s = f_mtime_sec t" and "f_mtime_nsec t < f_mtime_nsec s"
  shows "cc_main e (name # ''--compile'' # src # opts) w = (0, w) \<and> \<not> output_is_fresh w src out"
  using assms cc_fresh_iff [OF assms(3,4)]
  by (auto simp: cc_main_def cache_answer_def flag_is_fast_mode stat_mtime_nsec_def output_is_fresh_def)

definition stale_world :: world where
  "stale_world = (sample_world [] [])\<lparr>
     environ := [''NANLANG_FAST_CACHE'' \<mapsto> ''1''],
     files := [''a.nl'' \<mapsto> \<lparr>f_bytes = [10], f_mtime_sec = 100, f_mtime_nsec = 900, f_mode = 420\<rparr>,
               ''b'' \<mapsto> \<lparr>f_bytes = [0], f_mtime_sec = 100, f_mtime_nsec = 10, f_mode = 493\<rparr>]\<rparr>"

lemma launcher_serves_stale_witness:
  "cc_main (compiler_process sample_platform (\<lambda>_ _. True)) [''nanlang'', ''--compile'', ''a.nl'', ''--output'', ''b''] stale_world =
     (0, stale_world) \<and> \<not> output_is_fresh stale_world ''a.nl'' ''b''"
  by (rule launcher_serves_stale [of _ _ _ _ _ "\<lparr>f_bytes = [10], f_mtime_sec = 100, f_mtime_nsec = 900, f_mode = 420\<rparr>"
        "\<lparr>f_bytes = [0], f_mtime_sec = 100, f_mtime_nsec = 10, f_mode = 493\<rparr>"])
    (simp_all add: stale_world_def fast_cache_mode_enabled_def getenv_def parse_output_path_def)

end
