(* ===== verification/Ui_Typing.thy ===== *)
theory Ui_Typing
  imports Ui_Scene
begin

text \<open>
  The type of a scene: what every value \<open>parse_ui_scene\<close> builds satisfies, whatever the file holds,
  and every mouse handler keeps. The integers fit in an \<open>int\<close>, the window has its minimum size, only a
  slider has values of its own, and a chart without a directive is empty.
\<close>

definition int_range :: "int \<Rightarrow> bool" where
  "int_range i \<longleftrightarrow> - (2 ^ 31) \<le> i \<and> i < 2 ^ 31"

definition widget_typed :: "UiWidget \<Rightarrow> bool" where
  "widget_typed wd \<longleftrightarrow>
     int_range (uw_window_id wd) \<and> int_range (uw_widget_id wd) \<and>
     int_range (uw_min wd) \<and> int_range (uw_max wd) \<and> int_range (uw_current wd) \<and>
     (uw_kind wd = SliderWidget \<or> uw_min wd = 0 \<and> uw_max wd = 100 \<and> uw_current wd = 0)"

definition chart_typed :: "UiChart \<Rightarrow> bool" where
  "chart_typed c \<longleftrightarrow>
     int_range (ch_window_id c) \<and> int_range (ch_chart_id c) \<and> int_range (ch_samples c) \<and>
     list_all int_range (ch_values c) \<and> (ch_present c \<or> ch_values c = [] \<and> ch_samples c = 0)"

definition scene_typed :: "UiScene \<Rightarrow> bool" where
  "scene_typed s \<longleftrightarrow>
     320 \<le> sc_width s \<and> 240 \<le> sc_height s \<and>
     int_range (sc_width s) \<and> int_range (sc_height s) \<and> int_range (sc_window_id s) \<and> int_range (sc_spacing s) \<and>
     list_all widget_typed (sc_widgets s) \<and> chart_typed (sc_chart s) \<and>
     (sc_has_ui s \<or> sc_widgets s = [] \<and> \<not> ch_present (sc_chart s))"

section \<open>Values\<close>

lemma int_range_to_int [simp]: "int_range (to_int v)"
  using sint_greater_eq [of "word_of_int v :: 32 word"] sint_less [of "word_of_int v :: 32 word"]
  by (simp add: int_range_def to_int_def)

lemma int_range_consts [simp]: "int_range 0" "int_range 1" "int_range 12" "int_range 100" "int_range 1280" "int_range 720"
  by (simp_all add: int_range_def)

lemma int_range_max [simp]:
  "int_range (max 320 (to_int v))" "int_range (max 240 (to_int v))"
  using int_range_to_int [of v] by (auto simp: int_range_def)

lemma int_range_clamp: "int_range lo \<Longrightarrow> int_range hi \<Longrightarrow> int_range (clamp v lo hi)"
  by (auto simp: int_range_def clamp_def)

lemma set_value_range:
  assumes "list_all int_range vs" and "int_range v"
  shows "list_all int_range (set_value vs i v)"
  using assms set_update_subset_insert [of "vs @ replicate (i + 1 - length vs) 0" i v] set_update_subset_insert [of vs i v]
  by (auto simp: set_value_def Let_def list_all_iff)

lemma chart_typed_intros:
  "chart_typed \<lparr>ch_present = True, ch_window_id = to_int a, ch_chart_id = to_int b, ch_samples = to_int d, ch_values = []\<rparr>"
  "chart_typed c \<Longrightarrow> chart_typed (c\<lparr>ch_present := True\<rparr>)"
  "chart_typed c \<Longrightarrow> ch_present c \<Longrightarrow> chart_typed (c\<lparr>ch_values := set_value (ch_values c) i (to_int v)\<rparr>)"
  "chart_typed c \<Longrightarrow> chart_typed (c\<lparr>ch_present := True, ch_chart_id := to_int k,
     ch_values := set_value (ch_values c) i (to_int v)\<rparr>)"
  by (simp_all add: chart_typed_def set_value_range)

section \<open>The parser\<close>

text \<open>A directive is applied to a scene with \<open>has_ui\<close> set; the updates of such a scene keep its type.\<close>

definition ui_typed :: "UiScene \<Rightarrow> bool" where
  "ui_typed s \<longleftrightarrow> scene_typed s \<and> sc_has_ui s"

lemma ui_typed_update:
  "ui_typed s \<Longrightarrow> ui_typed (scene_note m s)"
  "ui_typed s \<Longrightarrow> ui_typed (s\<lparr>sc_app_begin := b\<rparr>)" "ui_typed s \<Longrightarrow> ui_typed (s\<lparr>sc_app_end := b\<rparr>)"
  "ui_typed s \<Longrightarrow> ui_typed (s\<lparr>sc_title := t\<rparr>)"
  "ui_typed s \<Longrightarrow> ui_typed (s\<lparr>sc_horizontal := b, sc_spacing := to_int i\<rparr>)"
  "ui_typed s \<Longrightarrow> ui_typed (s\<lparr>sc_window_id := to_int i, sc_width := max 320 (to_int j), sc_height := max 240 (to_int k)\<rparr>)"
  "ui_typed s \<Longrightarrow> widget_typed wd \<Longrightarrow> ui_typed (s\<lparr>sc_widgets := sc_widgets s @ [wd]\<rparr>)"
  "ui_typed s \<Longrightarrow> chart_typed c \<Longrightarrow> ui_typed (s\<lparr>sc_chart := c\<rparr>)"
  by (simp_all add: ui_typed_def scene_typed_def scene_note_def)

lemma widget_typed_new:
  "widget_typed (UiWidget_new\<lparr>uw_kind := k, uw_window_id := to_int i, uw_widget_id := to_int j, uw_text := t\<rparr>)"
  "widget_typed (UiWidget_new\<lparr>uw_kind := SliderWidget, uw_window_id := to_int i, uw_widget_id := to_int j,
     uw_min := to_int a, uw_max := to_int b, uw_current := to_int c\<rparr>)"
  by (simp_all add: widget_typed_def UiWidget_new_def)

lemma ui_typed_branches:
  "(b \<Longrightarrow> ui_typed x) \<Longrightarrow> (\<not> b \<Longrightarrow> ui_typed y) \<Longrightarrow> ui_typed (if b then x else y)"
  "ui_typed n \<Longrightarrow> (\<And>v. ui_typed (g v)) \<Longrightarrow> ui_typed (case r of None \<Rightarrow> n | Some v \<Rightarrow> g v)"
  "ui_typed n \<Longrightarrow> (\<And>v vs. ui_typed (h v vs)) \<Longrightarrow> ui_typed (case xs of [] \<Rightarrow> n | v # vs \<Rightarrow> h v vs)"
  by (simp_all split: option.split list.split)

lemmas ui_typed_intros = ui_typed_branches ui_typed_update widget_typed_new

lemma chart_of_typed: "ui_typed s \<Longrightarrow> chart_typed (sc_chart s)"
  by (simp add: ui_typed_def scene_typed_def)

lemma scene_chart_typed: "ui_typed s \<Longrightarrow> ui_typed (scene_chart action tokens n s)"
  unfolding scene_chart_def scene_line_note_def Let_def
  using chart_of_typed [of s]
  by (intro ui_typed_intros) (auto intro: ui_typed_update chart_typed_intros simp: chart_typed_intros)

lemma scene_directive_typed:
  assumes "ui_typed s"
  shows "ui_typed (scene_directive tokens n s)"
  unfolding scene_directive_def scene_app_def scene_window_def scene_layout_def scene_text_widget_def
    scene_slider_def scene_line_note_def Let_def
  by (rule ui_typed_intros scene_chart_typed assms)+

lemma scene_line_typed: "scene_typed (snd (snd t)) \<Longrightarrow> scene_typed (snd (snd (scene_line raw t)))"
proof (cases t)
  case (fields n saw s)
  assume "scene_typed (snd (snd t))"
  then have s: "scene_typed s" using fields by simp
  then have "ui_typed (s\<lparr>sc_has_ui := True\<rparr>)" by (simp add: ui_typed_def scene_typed_def)
  then have "scene_typed (scene_directive tokens m (s\<lparr>sc_has_ui := True\<rparr>))" for tokens m
    using scene_directive_typed by (simp add: ui_typed_def)
  then show ?thesis
    using s fields
    by (cases "tokenize_ui_directive (normalize_source_line raw)")
       (simp add: scene_line_def Let_def scene_line_note_def scene_note_def scene_typed_def)
qed

interpretation typed_lines: invariant "\<lambda>raw s t. t = scene_line raw s" "\<lambda>t. scene_typed (snd (snd t))"
  by unfold_locales (simp add: scene_line_typed)

lemma UiScene_new_typed: "scene_typed UiScene_new"
  by (simp add: scene_typed_def UiScene_new_def chart_typed_def)

lemma parsed_typed: "scene_typed (fst (snd (parse_ui_scene src UiScene_new w)))"
  using typed_lines.run_ops [OF refl, where s = "(0, False, UiScene_new)"] UiScene_new_typed
  by (auto simp: parse_ui_scene_def case_prod_unfold Let_def split: option.split)

section \<open>The handlers\<close>

lemma press_loop_typed: "scene_typed s \<Longrightarrow> scene_typed (snd (press_loop cl x y i ws s))"
  by (induction cl x y i ws s rule: press_loop.induct) (auto simp: scene_typed_def split: UiKind.split)

lemma motion_loop_typed:
  "list_all widget_typed ws \<Longrightarrow> list_all widget_typed (fst (motion_loop i d ws w))"
  by (induction ws arbitrary: w)
     (auto simp: widget_typed_def drag_value_def int_range_clamp case_prod_unfold Let_def)

lemma motion_loop_nil: "fst (motion_loop i d ws w) = [] \<longleftrightarrow> ws = []"
  by (cases ws) (simp_all add: case_prod_unfold Let_def)

lemma ui_step_typed: "ui_step s e t \<Longrightarrow> scene_typed s \<Longrightarrow> scene_typed t"
proof -
  assume st: "ui_step s e t" and s: "scene_typed s"
  then have m: "scene_typed (s\<lparr>sc_mouse_x := x, sc_mouse_y := y\<rparr>)" for x y by (simp add: scene_typed_def)
  show "scene_typed t"
  proof (cases e)
    case (Press b x y wd)
    then show ?thesis using st m s by (auto simp: ui_step_simps on_ui_button_press_def press_loop_typed)
  next
    case (Release b)
    then obtain w where "t = fst (snd (on_ui_button_release b s w))" using st by (auto simp: ui_step_simps)
    then show ?thesis using s by (simp add: on_ui_button_release_def scene_typed_def)
  next
    case (Motion x y)
    then obtain w where "t = fst (on_ui_motion x y s w)" using st by (auto simp: ui_step_simps)
    then show ?thesis using s
      by (simp add: on_ui_motion_def scene_typed_def motion_loop_typed motion_loop_nil case_prod_unfold Let_def)
  qed
qed

interpretation ui_type: invariant "\<lambda>e s t. ui_step s e t" scene_typed
  by unfold_locales (rule ui_step_typed)

section \<open>Slow drags\<close>

lemma to_int_id: "int_range i \<Longrightarrow> to_int i = i"
  by (simp add: to_int_def int_range_def sint_sbintrunc' signed_take_bit_int_eq_self)

lemma trunc_small: "\<bar>d\<bar> < 2 \<Longrightarrow> trunc (d * (1 / 2)) = 0"
  by (auto simp: trunc_def floor_eq_iff ceiling_eq_iff)

text \<open>A motion of less than two pixels only puts the value into the range it may be outside of.\<close>

lemma drag_value_small:
  "widget_typed wd \<Longrightarrow> \<bar>d\<bar> < 2 \<Longrightarrow> drag_value d wd = clamp (uw_current wd) (uw_min wd) (uw_max wd)"
  unfolding drag_value_def trunc_small by (simp add: to_int_id widget_typed_def)

definition not_dragged :: "UiWidget \<Rightarrow> UiWidget \<Rightarrow> bool" where
  "not_dragged a b \<longleftrightarrow> same_widget a b \<and>
     (uw_kind a = SliderWidget \<and> uw_min a \<le> uw_max a \<longrightarrow>
        uw_current b = uw_current a \<or> uw_current b = clamp (uw_current a) (uw_min a) (uw_max a)) \<and>
     (slider_ok a \<longrightarrow> b = a)"

lemma not_dragged_refl: "not_dragged a a"
  by (simp add: not_dragged_def)

lemma not_dragged_trans:
  assumes "not_dragged a b" "not_dragged b c"
  shows "not_dragged a c"
proof -
  have s: "same_widget a b" "same_widget b c" using assms by (simp_all add: not_dragged_def)
  then have "same_widget a c" by (cases a; cases b; cases c) (simp add: same_widget_def)
  moreover have "clamp (clamp v lo hi) lo hi = clamp v lo hi" if "lo \<le> hi" for v lo hi
    using that by (simp add: clamp_def)
  ultimately show ?thesis using assms same_widget_fields [OF s(1)] by (auto simp: not_dragged_def)
qed

lemma slow_motion_widget:
  assumes "widget_typed wd" "uw_kind wd = SliderWidget" "\<bar>d\<bar> < 2"
  shows "not_dragged wd (wd\<lparr>uw_current := drag_value d wd\<rparr>)"
  using assms(2) unfolding drag_value_small [OF assms(1,3)]
  by (auto simp: not_dragged_def same_widget_def slider_ok_def clamp_def)

lemma slow_motion_loop:
  assumes "list_all widget_typed ws" and "\<bar>d\<bar> < 2"
  shows "list_all2 not_dragged ws (fst (motion_loop i d ws w))"
  using assms
  by (induction ws arbitrary: w)
     (simp_all add: case_prod_unfold Let_def slow_motion_widget not_dragged_refl list.rel_refl)

section \<open>Properties\<close>

text \<open>
  C23. Whatever the file holds and whatever the mouse then does, the scene has its type: all its
  numbers fit in an \<open>int\<close>, the window is at least 320 by 240, labels and buttons keep their default
  values, and a scene without ui directives has no widgets and no chart.
\<close>

theorem scene_has_type:
  assumes "ui_reach (fst (snd (parse_ui_scene src UiScene_new w))) t"
  shows "scene_typed t"
  by (rule ui_type.reach [OF assms [unfolded ui_reach_def] parsed_typed])

lemma scene_has_type_witness:
  "scene_typed (snd (on_ui_button_press 1 100 200 800
     (fst (snd (parse_ui_scene ''a.nl'' UiScene_new (sample_world ''a.nl'' ''ui slider 1 7 90 10 5''))))))"
  by (rule scene_has_type [OF ui_reach_step [OF ui_step.press]])

text \<open>
  C32. The handler restarts the distance at every motion event and truncates half of it to an
  integer: a drag made of steps of less than two pixels never moves a slider that is within its range, however far
  the pointer travels in total. A slider whose file gives it a current value outside its (not empty) range
  is at most put to the nearest end of it, and nothing but a slider's current value changes.
\<close>

theorem slow_drag_is_lost:
  assumes "scene_typed s"
    and "\<forall>i < length xs. \<bar>xs ! i - (sc_mouse_x s # xs) ! i\<bar> < 2"
  shows "list_all2 not_dragged (sc_widgets s) (sc_widgets (fst (fold (\<lambda>x (s, w). on_ui_motion x y s w) xs (s, w))))"
  using assms
proof (induction xs arbitrary: s w)
  case Nil
  then show ?case by (simp add: list.rel_refl not_dragged_refl)
next
  case (Cons x xs)
  obtain s1 w1 where s1: "on_ui_motion x y s w = (s1, w1)" by fastforce
  have "\<bar>x - sc_mouse_x s\<bar> < 2" using Cons.prems(2) by auto
  moreover have "list_all widget_typed (sc_widgets s)" using Cons.prems(1) by (simp add: scene_typed_def)
  ultimately have one: "list_all2 not_dragged (sc_widgets s) (sc_widgets s1)" "sc_mouse_x s1 = x"
    using s1 slow_motion_loop
    by (auto simp: on_ui_motion_def case_prod_unfold Let_def list.rel_refl not_dragged_refl split: if_splits)
  have "ui_step s (Motion x y) s1" using s1 ui_step.motion [of s x y w] by simp
  then have "scene_typed s1" using ui_step_typed Cons.prems(1) by blast
  moreover have "\<forall>i < length xs. \<bar>xs ! i - (sc_mouse_x s1 # xs) ! i\<bar> < 2"
    using Cons.prems(2) one(2) by fastforce
  ultimately have "list_all2 not_dragged (sc_widgets s1) (sc_widgets (fst (fold (\<lambda>x (s, w). on_ui_motion x y s w) xs (s1, w1))))"
    by (rule Cons.IH)
  then show ?case using list_all2_trans [OF not_dragged_trans one(1)] s1 by simp
qed

theorem slow_drag_is_lost_witness:
  "sc_widgets (fst (fold (\<lambda>x (s, w). on_ui_motion x 0 s w) [0, 1, 2, 3]
     (slider_scene\<lparr>sc_has_ui := True, sc_dragging := 7, sc_mouse_x := -1\<rparr>, sample_world [] []))) = sc_widgets slider_scene"
proof -
  let ?s = "slider_scene\<lparr>sc_has_ui := True, sc_dragging := 7, sc_mouse_x := -1\<rparr>"
  have ok: "scene_typed ?s"
    by (simp add: scene_typed_def slider_scene_def UiScene_new_def widget_typed_def UiWidget_new_def chart_typed_def int_range_def)
  have "\<forall>i < length [0, 1, 2, 3 :: rat]. \<bar>[0, 1, 2, 3] ! i - (sc_mouse_x ?s # [0, 1, 2, 3]) ! i\<bar> < 2"
    by (auto simp: less_Suc_eq)
  from slow_drag_is_lost [OF ok this, of 0 "sample_world [] []"] show ?thesis
    using slider_scene_ok by (auto simp: slider_scene_def not_dragged_def list_all2_Cons1)
qed

end
