(* ===== verification/Aot_Program.thy ===== *)
theory Aot_Program
  imports Aot_Say
begin

text \<open>
  The statement language of the AOT compiler as a reference semantics: \<open>say\<close>, \<open>match\<close> with its
  arms, \<open>halt\<close>, and the lines the parser ignores. A program is given as a list of statements; the
  lines of a source may indent them and add comments. The theorem ties the executable the
  compiler writes to this semantics.
\<close>

datatype stmt =
  Say_stmt string
| Match_stmt string "(string \<times> string) list"
| Halt_stmt
| Ignored_stmt string

definition arm_line :: "string \<times> string \<Rightarrow> string" where
  "arm_line = (\<lambda>(c, t). c @ '' => '' @ aot_say t)"

fun stmt_lines :: "stmt \<Rightarrow> string list" where
  "stmt_lines (Say_stmt t) = [aot_say t]"
| "stmt_lines (Match_stmt v arms) = (''match '' @ v @ '' {'') # map arm_line arms @ [''}'']"
| "stmt_lines Halt_stmt = [''halt;'']"
| "stmt_lines (Ignored_stmt l) = [l]"

text \<open>The first arm for the value, or for the wildcard.\<close>

fun select_arm :: "string \<Rightarrow> (string \<times> string) list \<Rightarrow> string option" where
  "select_arm v [] = None"
| "select_arm v ((c, t) # arms) = (if c = v \<or> c = ''_'' then Some t else select_arm v arms)"

definition print_line :: "string \<Rightarrow> string" where
  "print_line t = t @ [CHR 0x0A]"

text \<open>A \<open>say\<close> whose text contains \<open>=>\<close> prints nothing.\<close>

fun program_output :: "stmt list \<Rightarrow> string" where
  "program_output [] = []"
| "program_output (Say_stmt t # p) = (if find_sub ''=>'' t = None then print_line t else []) @ program_output p"
| "program_output (Match_stmt v arms # p) =
     (case select_arm v arms of None \<Rightarrow> [] | Some t \<Rightarrow> print_line t) @ program_output p"
| "program_output (Halt_stmt # p) = []"
| "program_output (Ignored_stmt l # p) = program_output p"

section \<open>Well-formed statements\<close>

definition plain_word :: "string \<Rightarrow> bool" where
  "plain_word v \<longleftrightarrow> v \<noteq> [] \<and> list_all (\<lambda>c. c \<notin> set [CHR '' '', CHR 0x09, quote, CHR ''/'', CHR ''{'', CHR ''='']) v"

definition arm_word :: "string \<Rightarrow> bool" where
  "arm_word c \<longleftrightarrow> plain_word c \<and> c \<notin> set [''fn'', ''let'', ''const'', ''on'', ''interrupt'', ''match'', ''}'', ''};''] \<and>
     \<not> prefix ''return'' c"

definition ignored_line :: "string \<Rightarrow> bool" where
  "ignored_line l \<longleftrightarrow>
     l \<noteq> [] \<and> \<not> is_blank (hd l) \<and> \<not> is_blank (last l) \<and> quote \<notin> set l \<and> CHR ''/'' \<notin> set l \<and>
     (aot_skip_line l \<or>
      \<not> prefix ''say '' l \<and> \<not> prefix ''halt'' l \<and> \<not> prefix ''match '' l \<and> find_sub ''=>'' l = None)"

fun stmt_ok :: "stmt \<Rightarrow> bool" where
  "stmt_ok (Say_stmt t) = literal_text t"
| "stmt_ok (Match_stmt v arms) =
     (plain_word v \<and> list_all (\<lambda>(c, t). arm_word c \<and> literal_text t) arms)"
| "stmt_ok Halt_stmt = True"
| "stmt_ok (Ignored_stmt l) = ignored_line l"

abbreviation decorated :: "string \<Rightarrow> string \<Rightarrow> bool" where
  "decorated \<equiv> decorated_by is_blank"

definition blank_line :: "string \<Rightarrow> bool" where
  "blank_line raw \<longleftrightarrow> decorated [] raw"

section \<open>Cleaning a line\<close>

text \<open>Bodies are words and literals; the comment scan passes over both.\<close>

inductive closed_body :: "string \<Rightarrow> bool" where
  words: "quote \<notin> set w \<Longrightarrow> CHR ''/'' \<notin> set w \<Longrightarrow> closed_body w"
| literal: "quote \<notin> set w \<Longrightarrow> CHR ''/'' \<notin> set w \<Longrightarrow> quote \<notin> set t \<Longrightarrow> closed_body b \<Longrightarrow>
    closed_body (w @ quote # t @ quote # b)"

lemma strip_words:
  "quote \<notin> set w \<Longrightarrow> CHR ''/'' \<notin> set w \<Longrightarrow> aot_strip_comment False (w @ r) = w @ aot_strip_comment False r"
proof (induction w)
  case (Cons c w)
  then show ?case by (cases "w @ r") (auto simp: quote_def)
qed simp

lemma strip_literal_body:
  "quote \<notin> set t \<Longrightarrow> aot_strip_comment True (t @ quote # r) = t @ quote # aot_strip_comment False r"
proof (induction t)
  case Nil
  then show ?case by (cases r) (simp_all add: quote_def)
next
  case (Cons c t)
  then show ?case by (cases "t @ quote # r") (auto simp: quote_def)
qed

lemma strip_closed: "closed_body b \<Longrightarrow> aot_strip_comment False (b @ r) = b @ aot_strip_comment False r"
proof (induction rule: closed_body.induct)
  case (words w)
  then show ?case by (rule strip_words)
next
  case (literal w t b)
  have "aot_strip_comment False (quote # t @ quote # b @ r) = quote # aot_strip_comment True (t @ quote # b @ r)"
    by (cases "t @ quote # b @ r") (simp_all add: quote_def)
  then show ?case
    using literal strip_words [OF literal(1,2), of "quote # t @ quote # b @ r"]
      strip_literal_body [OF literal(3), of "b @ r"] by simp
qed

lemma blanks_plain: "list_all is_blank s \<Longrightarrow> quote \<notin> set s \<and> CHR ''/'' \<notin> set s"
  by (induction s) (auto simp: is_blank_def quote_def)

lemma clean_decorated:
  assumes "decorated b raw" "closed_body b" "b = [] \<or> \<not> is_blank (hd b) \<and> \<not> is_blank (last b)"
  shows "aot_clean_line raw = b"
proof -
  obtain ind gap com where d: "raw = ind @ b @ gap @ com" "list_all is_blank ind" "list_all is_blank gap"
      "com = [] \<or> prefix ''//'' com"
    using assms(1) by (rule decorated_by_parts)
  have "aot_strip_comment False com = []" using d(4) by (auto simp: prefix_def)
  then have "aot_strip_comment False raw = ind @ b @ gap"
    using strip_words [of ind "b @ gap @ com"] strip_words [of gap com] strip_closed [OF assms(2), of "gap @ com"]
      blanks_plain [OF d(2)] blanks_plain [OF d(3)] by (simp add: d(1))
  then show ?thesis using trim_surrounded [OF d(2,3) assms(3)] by (simp add: aot_clean_line_def)
qed

lemma closed_aot_say: "quote \<notin> set w \<Longrightarrow> CHR ''/'' \<notin> set w \<Longrightarrow> quote \<notin> set t \<Longrightarrow> closed_body (w @ aot_say t)"
  using closed_body.literal [of "w @ ''say ''" t "'';''"] closed_body.words [of "'';''"]
  by (simp add: aot_say_def quote_def)


section \<open>One statement\<close>

definition stmt_instrs :: "stmt \<Rightarrow> IRInstruction list" where
  "stmt_instrs st =
     (case st of
        Say_stmt t \<Rightarrow> if find_sub ''=>'' t = None then [print_instr (print_line t)] else []
      | Match_stmt v arms \<Rightarrow> (case select_arm v arms of None \<Rightarrow> [] | Some t \<Rightarrow> [print_instr (print_line t)])
      | Halt_stmt \<Rightarrow> [halt_instr]
      | Ignored_stmt l \<Rightarrow> [])"

text \<open>The matched value left by earlier statements never equals the start of a \<open>say\<close>.\<close>

definition word_state :: "parse_state \<Rightarrow> bool" where
  "word_state s \<longleftrightarrow> current_match_val s = [] \<or> plain_word (current_match_val s)"

lemma parse_line_clean: "aot_clean_line raw = l \<Longrightarrow> aot_clean_line l = l \<Longrightarrow> parse_line s raw = parse_line s l"
  by (simp add: parse_line_def)

lemma plain_wordD:
  "plain_word v \<Longrightarrow> v \<noteq> [] \<and> CHR '' '' \<notin> set v \<and> quote \<notin> set v \<and> CHR ''/'' \<notin> set v \<and> CHR ''{'' \<notin> set v \<and> CHR ''='' \<notin> set v"
  by (auto simp: plain_word_def list_all_iff)

lemma plain_word_ends: "plain_word v \<Longrightarrow> \<not> is_blank (hd v) \<and> \<not> is_blank (last v)"
  by (auto simp: plain_word_def list_all_iff is_blank_def)

lemma prefix_word:
  "CHR '' '' \<notin> set k \<Longrightarrow> CHR '' '' \<notin> set c \<Longrightarrow> prefix (k @ '' '') (c @ CHR '' '' # r) \<Longrightarrow> c = k"
  "CHR '' '' \<notin> set k \<Longrightarrow> CHR '' '' \<notin> set c \<Longrightarrow> prefix k (c @ CHR '' '' # r) \<Longrightarrow> prefix k c"
proof (induction k arbitrary: c)
  case Nil
  { case 1 then show ?case by (cases c) auto }
  { case 2 then show ?case by simp }
next
  case (Cons x k)
  { case 1 then show ?case using Cons.IH(1) [of "tl c"] by (cases c) auto }
  { case 2 then show ?case using Cons.IH(2) [of "tl c"] by (cases c) auto }
qed

lemma in_trim: "x \<in> set s \<Longrightarrow> \<not> P x \<Longrightarrow> x \<in> set (trim_by P s)"
proof -
  have d: "x \<in> set (dropWhile P u)" if "x \<in> set u" "\<not> P x" for u
    using that by (induction u) auto
  show "x \<in> set s \<Longrightarrow> \<not> P x \<Longrightarrow> x \<in> set (trim_by P s)" by (simp add: trim_by_def d)
qed

lemma parse_say_line:
  assumes "literal_text t" "word_state s"
  shows "parse_line s (aot_say t) = s\<lparr>block_instrs := block_instrs s @ stmt_instrs (Say_stmt t)\<rparr>"
proof (cases "find_sub ''=>'' t")
  case None
  then show ?thesis
    using assms
    by (simp add: parse_line_def clean_aot_say literal_text_def aot_say_kind find_arrow Let_def
        parse_statement_line_def parse_aot_say stmt_instrs_def print_line_def)
next
  case (Some i)
  have "quote \<in> set (take (Suc (Suc (Suc (Suc (Suc i))))) (aot_say t))" by (simp add: aot_say_def)
  then have "quote \<in> set (take (i + 5) (aot_say t))" by (simp add: numeral_eq_Suc)
  then have q: "quote \<in> set (trim_by is_blank (take (i + 5) (aot_say t)))"
    by (rule in_trim) (simp add: quote_def is_blank_def)
  then have "trim_by is_blank (take (i + 5) (aot_say t)) \<noteq> current_match_val s"
    "trim_by is_blank (take (i + 5) (aot_say t)) \<noteq> ''_''"
    using assms(2) by (auto simp: word_state_def quote_def dest!: plain_wordD)
  then show ?thesis
    using assms Some
    by (simp add: parse_line_def clean_aot_say literal_text_def aot_say_kind find_arrow Let_def stmt_instrs_def)
qed

lemma parse_halt_line:
  "parse_line s ''halt;'' = s\<lparr>block_instrs := block_instrs s @ [halt_instr], has_halt := True\<rparr>"
  by (simp add: parse_line_def aot_clean_line_def trim_by_def is_blank_def aot_skip_line_def parse_statement_line_def)

lemma clean_ignored: "ignored_line l \<Longrightarrow> aot_clean_line l = l"
  using strip_words [of l "[]"] by (simp add: ignored_line_def aot_clean_line_def trim_by_id)

lemma parse_ignored_line: "ignored_line l \<Longrightarrow> parse_line s l = s"
  by (auto simp: parse_line_def clean_ignored Let_def)
    (auto simp: ignored_line_def parse_statement_line_def)


section \<open>Match\<close>

text \<open>Inside a match with value \<open>v\<close>: the state the arms see.\<close>

definition in_match :: "string \<Rightarrow> bool \<Rightarrow> IRInstruction list \<Rightarrow> parse_state \<Rightarrow> parse_state" where
  "in_match v done xs s =
     s\<lparr>current_match_val := v, match_resolved := done, block_instrs := block_instrs s @ xs\<rparr>"

lemma arm_line_parts:
  "arm_line (c, t) = c @ CHR '' '' # (''=> '' @ aot_say t)"
  by (simp add: arm_line_def)

lemma closed_arm_line: "plain_word c \<Longrightarrow> literal_text t \<Longrightarrow> closed_body (arm_line (c, t))"
  using closed_aot_say [of "c @ '' => ''" t] plain_wordD [of c]
  by (simp add: arm_line_def literal_text_def quote_def)

lemma clean_closed: "closed_body b \<Longrightarrow> b = [] \<or> \<not> is_blank (hd b) \<and> \<not> is_blank (last b) \<Longrightarrow> aot_clean_line b = b"
  by (rule clean_decorated) (auto simp: decorated_by_def Let_def dropWhile_id)

lemma arm_line_ends: "plain_word c \<Longrightarrow> \<not> is_blank (hd (arm_line (c, t))) \<and> \<not> is_blank (last (arm_line (c, t)))"
  using plain_word_ends [of c] plain_wordD [of c] by (simp add: arm_line_def hd_append aot_say_def is_blank_def)

lemma find_arrow_arm: "CHR ''='' \<notin> set c \<Longrightarrow> find_sub ''=>'' (c @ CHR '' '' # ''=> '' @ r) = Some (length c + 1)"
  by (induction c) auto

lemma arm_line_kind:
  assumes "arm_word c"
  shows "\<not> aot_skip_line (arm_line (c, t))" "\<not> prefix ''match '' (arm_line (c, t))"
proof -
  have w: "CHR '' '' \<notin> set c" "c \<noteq> []" using assms plain_wordD [of c] by (auto simp: arm_word_def)
  have k: "\<not> prefix (k @ '' '') (arm_line (c, t))" if "k \<in> set [''fn'', ''let'', ''const'', ''on'', ''interrupt'', ''match'']" for k
    using prefix_word(1) [of k c "''=> '' @ aot_say t"] that w assms
    by (auto simp: arm_line_parts arm_word_def)
  have r: "\<not> prefix ''return'' (arm_line (c, t))"
    using prefix_word(2) [of "''return''" c "''=> '' @ aot_say t"] w assms by (auto simp: arm_line_parts arm_word_def)
  have len: "3 < length (arm_line (c, t))" by (simp add: arm_line_def)
  have ne: "arm_line (c, t) \<noteq> x" if "length x \<le> 3" for x using len that by (metis linorder_not_le)
  show "\<not> prefix ''match '' (arm_line (c, t))" using k [of "''match''"] by simp
  show "\<not> aot_skip_line (arm_line (c, t))"
    using k [of "''fn''"] k [of "''let''"] k [of "''const''"] k [of "''on''"] k [of "''interrupt''"] r ne
    by (simp add: aot_skip_line_def)
qed

lemma parse_arm_line:
  assumes "arm_word c" "literal_text t"
  shows "parse_line (in_match v done xs s) (arm_line (c, t)) =
     (if done \<or> \<not> (c = v \<or> c = ''_'') then in_match v done xs s
      else in_match v True (xs @ [print_instr (print_line t)]) s)"
proof -
  have w: "plain_word c" using assms(1) by (simp add: arm_word_def)
  have clean: "aot_clean_line (arm_line (c, t)) = arm_line (c, t)"
    using clean_closed closed_arm_line [OF w assms(2)] arm_line_ends [OF w] by blast
  have arrow: "find_sub ''=>'' (arm_line (c, t)) = Some (length c + 1)"
    using find_arrow_arm plain_wordD [OF w] unfolding arm_line_parts by blast
  have cond: "trim_by is_blank (take (length c + 1) (arm_line (c, t))) = c"
    using trim_surrounded [of is_blank "[]" "'' ''" c] plain_word_ends [OF w] by (simp add: arm_line_parts is_blank_def)
  have act: "dropWhile is_blank (drop (length c + 1 + 2) (arm_line (c, t))) = aot_say t"
    by (simp add: arm_line_parts is_blank_def aot_say_def)
  show ?thesis
    unfolding parse_line_def Let_def clean arrow option.case cond act
    using arm_line_kind [OF assms(1), of t]
    by (simp add: in_match_def parse_statement_line_def parse_aot_say [OF assms(2)] aot_say_kind print_line_def)
qed

lemma parse_arms_done:
  "list_all (\<lambda>(c, t). arm_word c \<and> literal_text t) arms \<Longrightarrow>
   foldl parse_line (in_match v True xs s) (map arm_line arms) = in_match v True xs s"
  by (induction arms) (auto simp: parse_arm_line)

lemma parse_arms:
  "list_all (\<lambda>(c, t). arm_word c \<and> literal_text t) arms \<Longrightarrow>
   \<exists>d. foldl parse_line (in_match v False [] s) (map arm_line arms) =
     in_match v d (case select_arm v arms of None \<Rightarrow> [] | Some t \<Rightarrow> [print_instr (print_line t)]) s"
  by (induction arms) (auto simp: parse_arm_line parse_arms_done)

lemma parse_match_open:
  assumes "plain_word v"
  shows "parse_line s (''match '' @ v @ '' {'') = in_match v False [] s"
    and "aot_clean_line (''match '' @ v @ '' {'') = ''match '' @ v @ '' {''"
proof -
  have w: "quote \<notin> set v" "CHR ''/'' \<notin> set v" "CHR ''{'' \<notin> set v" using plain_wordD [OF assms] by auto
  have "closed_body (''match '' @ v @ '' {'')" by (rule closed_body.words) (use w in \<open>simp_all add: quote_def\<close>)
  then show clean: "aot_clean_line (''match '' @ v @ '' {'') = ''match '' @ v @ '' {''"
    by (rule clean_closed) (simp add: is_blank_def)
  have sp: "find_char (CHR '' '') (''match '' @ v @ '' {'') = Some 5" by simp
  have "find_char (CHR ''{'') (v @ '' {'') = Some (length v + 1)"
    using w(3) by (simp add: find_char_append find_char_None [symmetric])
  then have br: "find_char (CHR ''{'') (''match '' @ v @ '' {'') = Some (length v + 7)" by simp
  have val: "trim_by is_blank (substr (''match '' @ v @ '' {'') (5 + 1) (length v + 7 - (5 + 1))) = v"
    using trim_surrounded [of is_blank "[]" "'' ''" v] plain_word_ends [OF assms]
    by (simp add: substr_def is_blank_def)
  have "\<not> aot_skip_line (''match '' @ v @ '' {'')" by (simp add: aot_skip_line_def)
  then show "parse_line s (''match '' @ v @ '' {'') = in_match v False [] s"
    unfolding parse_line_def Let_def clean sp br option.case val by (simp add: in_match_def)
qed

lemma parse_close: "parse_line s ''}'' = s"
  by (simp add: parse_line_def aot_clean_line_def trim_by_def is_blank_def aot_skip_line_def)


section \<open>A program\<close>

lemma stmt_lines_closed:
  assumes "stmt_ok st" "b \<in> set (stmt_lines st)"
  shows "closed_body b \<and> b \<noteq> [] \<and> \<not> is_blank (hd b) \<and> \<not> is_blank (last b)"
proof (cases st)
  case (Say_stmt t)
  then show ?thesis using assms closed_aot_say [of "[]" t]
    by (simp add: literal_text_def aot_say_parts is_blank_def)
next
  case (Match_stmt v arms)
  have v: "plain_word v" using assms(1) Match_stmt by simp
  consider (first) "b = ''match '' @ v @ '' {''" | (arm) c t where "(c, t) \<in> set arms" "b = arm_line (c, t)" | (final) "b = ''}''"
    using assms(2) Match_stmt by auto
  then show ?thesis
  proof cases
    case first
    have "closed_body (''match '' @ v @ '' {'')"
      by (rule closed_body.words) (use plain_wordD [OF v] in \<open>simp_all add: quote_def\<close>)
    then show ?thesis using first by (simp add: is_blank_def)
  next
    case arm
    then have "plain_word c" "literal_text t" using assms(1) Match_stmt by (auto simp: list_all_iff arm_word_def)
    then show ?thesis using closed_arm_line arm_line_ends arm(2) by (simp add: arm_line_parts)
  next
    case final
    then show ?thesis by (auto simp: quote_def is_blank_def intro: closed_body.words)
  qed
next
  case Halt_stmt
  then show ?thesis using assms by (auto simp: quote_def is_blank_def intro: closed_body.words)
next
  case (Ignored_stmt l)
  then show ?thesis using assms by (auto simp: ignored_line_def intro: closed_body.words)
qed

lemma parse_stmt:
  assumes "stmt_ok st" "word_state s"
  shows "word_state (foldl parse_line s (stmt_lines st)) \<and>
    block_instrs (foldl parse_line s (stmt_lines st)) = block_instrs s @ stmt_instrs st \<and>
    (has_halt (foldl parse_line s (stmt_lines st)) \<longleftrightarrow> has_halt s \<or> st = Halt_stmt)"
proof (cases st)
  case (Match_stmt v arms)
  then have ok: "plain_word v" "list_all (\<lambda>(c, t). arm_word c \<and> literal_text t) arms" using assms(1) by simp_all
  have "foldl parse_line s (stmt_lines st) = foldl parse_line (in_match v False [] s) (map arm_line arms)"
    unfolding Match_stmt stmt_lines.simps foldl_Cons foldl_append foldl_Nil parse_match_open(1) [OF ok(1)] parse_close ..
  moreover have "stmt_instrs st = (case select_arm v arms of None \<Rightarrow> [] | Some t \<Rightarrow> [print_instr (print_line t)])"
    by (simp add: Match_stmt stmt_instrs_def)
  ultimately obtain d where "foldl parse_line s (stmt_lines st) = in_match v d (stmt_instrs st) s"
    using parse_arms [OF ok(2), of v s] by metis
  then show ?thesis using ok(1) Match_stmt by (simp add: in_match_def word_state_def)
qed (use assms in \<open>simp_all add: parse_say_line parse_halt_line parse_ignored_line word_state_def stmt_instrs_def\<close>)

lemma parse_program:
  "list_all stmt_ok prog \<Longrightarrow> word_state s \<Longrightarrow>
   block_instrs (foldl parse_line s (concat (map stmt_lines prog))) = block_instrs s @ concat (map stmt_instrs prog) \<and>
   (has_halt (foldl parse_line s (concat (map stmt_lines prog))) \<longleftrightarrow> has_halt s \<or> Halt_stmt \<in> set prog)"
proof (induction prog arbitrary: s)
  case (Cons st prog)
  then show ?case using parse_stmt [of st s] Cons.IH [of "foldl parse_line s (stmt_lines st)"] by auto
qed simp

lemma parse_blank: "blank_line raw \<Longrightarrow> parse_line s raw = s"
  using clean_decorated [of "[]" raw] closed_body.words [of "[]"]
  by (simp add: blank_line_def parse_line_def aot_skip_line_def)

lemma parse_without_blanks:
  "foldl parse_line s ls = foldl parse_line s (filter (\<lambda>l. \<not> blank_line l) ls)"
  by (induction ls arbitrary: s) (simp_all add: parse_blank)

lemma parse_decorated:
  "list_all2 decorated bodies raws \<Longrightarrow>
   (\<And>b. b \<in> set bodies \<Longrightarrow> closed_body b \<and> b \<noteq> [] \<and> \<not> is_blank (hd b) \<and> \<not> is_blank (last b)) \<Longrightarrow>
   foldl parse_line s raws = foldl parse_line s bodies"
proof (induction bodies raws arbitrary: s rule: list_all2_induct)
  case (Cons b bs r rs)
  have b: "closed_body b \<and> b \<noteq> [] \<and> \<not> is_blank (hd b) \<and> \<not> is_blank (last b)" by (rule Cons.prems) simp
  have "parse_line s r = parse_line s b"
    by (rule parse_line_clean; rule clean_decorated clean_closed) (use b Cons.hyps(1) in auto)
  moreover have "foldl parse_line (parse_line s b) rs = foldl parse_line (parse_line s b) bs"
    by (rule Cons.IH) (simp add: Cons.prems)
  ultimately show ?case by simp
qed simp

lemma item_of_simps [simp]: "item_of (print_instr t) = Print t" "item_of halt_instr = Exit"
  by (simp_all add: item_of_def)

lemma items_of_stmt:
  "st \<noteq> Halt_stmt \<Longrightarrow> item_output (map item_of (stmt_instrs st @ xs)) =
     map_option ((@) (program_output [st])) (item_output (map item_of xs))"
  by (cases st; cases "item_output (map item_of xs)")
     (auto simp: stmt_instrs_def split: option.split)

lemma program_output_Cons: "st \<noteq> Halt_stmt \<Longrightarrow> program_output (st # prog) = program_output [st] @ program_output prog"
  by (cases st) simp_all

lemma items_of_program:
  "item_output (map item_of (concat (map stmt_instrs prog) @ xs)) =
     (if Halt_stmt \<in> set prog then Some (program_output prog)
      else map_option ((@) (program_output prog)) (item_output (map item_of xs)))"
proof (induction prog)
  case Nil
  then show ?case by (cases "item_output (map item_of xs)") simp_all
next
  case (Cons st prog)
  show ?case
  proof (cases "st = Halt_stmt")
    case True
    then show ?thesis by (simp add: stmt_instrs_def)
  next
    case False
    then show ?thesis
      using items_of_stmt [OF False, of "concat (map stmt_instrs prog) @ xs"] Cons program_output_Cons [OF False, of prog]
      by (simp add: option.map_comp comp_def)
  qed
qed


lemma program_instrs:
  assumes "list_all stmt_ok prog"
    and "list_all2 decorated (concat (map stmt_lines prog)) (filter (\<lambda>l. \<not> blank_line l) (getlines text))"
  shows "parsed_instrs match_state_init (getlines text) =
    concat (map stmt_instrs prog) @ (if Halt_stmt \<in> set prog then [] else [halt_instr])"
proof -
  let ?s = "foldl parse_line (parse_init match_state_init) (getlines text)"
  have "?s = foldl parse_line (parse_init match_state_init) (concat (map stmt_lines prog))"
    unfolding parse_without_blanks [of _ "getlines text"]
    by (rule parse_decorated [OF assms(2)]) (use stmt_lines_closed assms(1) in \<open>auto simp: list_all_iff\<close>)
  moreover have "word_state (parse_init match_state_init)"
    by (simp add: word_state_def parse_init_def match_state_init_def)
  ultimately show ?thesis
    using parse_program [OF assms(1), of "parse_init match_state_init"]
    by (simp add: parsed_instrs_def Let_def parse_init_def match_state_init_def)
qed

lemma source_output_program:
  assumes "list_all stmt_ok prog"
    and "list_all2 decorated (concat (map stmt_lines prog)) (filter (\<lambda>l. \<not> blank_line l) (getlines text))"
  shows "source_output match_state_init text = Some (program_output prog)"
  unfolding source_output_def program_instrs [OF assms] items_of_program by simp

lemma program_lines:
  "prog \<noteq> [] \<Longrightarrow> list_all2 decorated (concat (map stmt_lines prog)) (filter (\<lambda>l. \<not> blank_line l) (getlines text)) \<Longrightarrow>
   getlines text \<noteq> []"
  by (cases prog; cases "hd prog") auto

section \<open>Property\<close>

text \<open>
  C5. The AOT compiler implements the statement language: for every well-formed program, however its
  lines are indented and commented and wherever it has blank lines, a successful \<open>compile_to_elf\<close>
  leaves an ELF executable that loads, prints what the reference semantics says (each \<open>match\<close> its
  first arm for the value or the wildcard, nothing after \<open>halt\<close>, nothing for a \<open>say\<close> whose text
  holds \<open>=>\<close>) and exits with status 0.
\<close>

theorem aot_program_runs:
  assumes "list_all stmt_ok prog" and "prog \<noteq> []"
    and "list_all2 decorated (concat (map stmt_lines prog)) (filter (\<lambda>l. \<not> blank_line l) (getlines text))"
    and "read_text w src = Some text"
    and "compile_to_elf match_state_init (AOTCompiler_new src) out w = (True, ms', c', w')"
    and "length (source_code match_state_init text) + 120 < 2 ^ 31"
  shows "\<exists>exe m n. read_file w' out = Some exe \<and> elf_load exe = Some m \<and>
    run n m = Exited 0 (bytes_of (program_output prog))"
  using compiled_elf_runs [OF assms(4) program_lines [OF assms(2,3)] assms(5,6)]
    source_output_program [OF assms(1,3)] by auto

definition match_program :: "stmt list" where
  "match_program = [Ignored_stmt ''fn main() {'', Say_stmt ''http://a'', Match_stmt ''red''
     [(''blue'', ''no''), (''red'', ''a => b''), (''_'', ''other'')], Say_stmt ''x=>y'', Halt_stmt, Say_stmt ''late'']"

definition match_source :: string where
  "match_source = unlines [''fn main() {'', ''  say '' @ [quote] @ ''http://a'' @ [quote] @ ''; // first'', [],
     ''  match red {'', ''    blue => say '' @ [quote] @ ''no'' @ [quote] @ '';'',
     ''    red => say '' @ [quote] @ ''a => b'' @ [quote] @ '';'',
     ''    // otherwise'', ''    _ => say '' @ [quote] @ ''other'' @ [quote] @ '';'', ''  }'',
     ''  say '' @ [quote] @ ''x=>y'' @ [quote] @ '';'', ''  halt;'', ''  say '' @ [quote] @ ''late'' @ [quote] @ '';'']"

lemma match_source_ok:
  "list_all stmt_ok match_program"
  "list_all2 decorated (concat (map stmt_lines match_program)) (filter (\<lambda>l. \<not> blank_line l) (getlines match_source))"
  "program_output match_program = ''http://a'' @ [CHR 0x0A] @ ''a => b'' @ [CHR 0x0A]"
  by code_simp+

lemma match_source_size: "length (source_code match_state_init match_source) = 161"
  unfolding length_source_code program_instrs [OF match_source_ok(1,2)]
  by (simp add: match_program_def stmt_instrs_def print_line_def)

lemma aot_program_runs_witness:
  "\<exists>ms' c' w' exe m n. compile_to_elf match_state_init (AOTCompiler_new ''a.nl'') ''out'' (sample_world ''a.nl'' match_source) = (True, ms', c', w') \<and>
     read_file w' ''out'' = Some exe \<and> elf_load exe = Some m \<and>
     run n m = Exited 0 (bytes_of (''http://a'' @ [CHR 0x0A] @ ''a => b'' @ [CHR 0x0A]))"
proof -
  let ?w = "sample_world ''a.nl'' match_source"
  have "getlines match_source \<noteq> []" by code_simp
  then obtain ms' w' where c: "compile_to_elf match_state_init (AOTCompiler_new ''a.nl'') ''out'' ?w =
      (True, ms', AOTCompiler_new ''a.nl'', w')"
    using compile_to_native_succeeds [of ?w "AOTCompiler_new ''a.nl''" match_source "''out''" match_state_init True]
    by (auto simp: compile_to_elf_def AOTCompiler_new_def)
  have "match_program \<noteq> []" by (simp add: match_program_def)
  then have "\<exists>exe m n. read_file w' ''out'' = Some exe \<and> elf_load exe = Some m \<and>
      run n m = Exited 0 (bytes_of (program_output match_program))"
    by (rule aot_program_runs [OF match_source_ok(1) _ match_source_ok(2) _ c]) (simp_all add: match_source_size)
  then show ?thesis unfolding match_source_ok(3) using c by blast
qed

end
