(* ===== verification/Bytecode_Exec.thy ===== *)
theory Bytecode_Exec
  imports Bytecode_VM
begin

text \<open>
  The virtual machine on every file: the instruction set as a datatype with its encoding and its
  semantics, and the theorem that \<open>run_bytecode\<close> executes the longest sequence of instructions
  the bytes begin with and says what is wrong with what follows.
\<close>

datatype instr = ISay string | ILoad byte | IStore byte

fun encode_instr :: "instr \<Rightarrow> byte list" where
  "encode_instr (ISay t) = OP_SAY # le_u32 (word_of_nat (length t)) @ bytes_of t"
| "encode_instr (ILoad v) = [OP_LOAD, v]"
| "encode_instr (IStore a) = [OP_STORE, a]"

abbreviation encode_instrs :: "instr list \<Rightarrow> byte list" where
  "encode_instrs p \<equiv> concat (map encode_instr p)"

text \<open>A length that its four bytes can hold.\<close>

fun instr_fits :: "instr \<Rightarrow> bool" where
  "instr_fits (ISay t) = (length t < 2 ^ 32)"
| "instr_fits _ = True"

text \<open>What instructions print, from the value in the accumulator.\<close>

fun instrs_output :: "byte \<Rightarrow> instr list \<Rightarrow> string" where
  "instrs_output acc [] = []"
| "instrs_output acc (ISay t # p) = t @ [CHR 0x0A] @ instrs_output acc p"
| "instrs_output acc (ILoad v # p) = instrs_output v p"
| "instrs_output acc (IStore a # p) =
     (if a = PULSE_PORT then ''[pulse] '' @ signal_name acc @ [CHR 0x0A]
      else if a = EMIT_PORT then ''[emit] '' @ signal_name acc @ [CHR 0x0A] else []) @ instrs_output acc p"

text \<open>No instruction starts here.\<close>

definition no_instr :: "byte list \<Rightarrow> bool" where
  "no_instr rest \<longleftrightarrow> (\<forall>i r. instr_fits i \<longrightarrow> rest \<noteq> encode_instr i @ r)"

text \<open>How a run of the loop ends at what follows the instructions.\<close>

definition vm_end :: "byte list \<Rightarrow> world \<Rightarrow> bool \<times> bool \<times> world \<Rightarrow> bool" where
  "vm_end rest w r \<longleftrightarrow>
     (if rest = [] then r = (True, False, w)
      else if hd rest = OP_HALT then r = (True, True, w)
      else \<exists>msg. r = (False, False, cerr msg w))"

definition explained :: "byte \<Rightarrow> byte list \<Rightarrow> world \<Rightarrow> bool \<times> bool \<times> world \<Rightarrow> bool" where
  "explained acc p w r \<longleftrightarrow>
     (\<exists>is rest. list_all instr_fits is \<and> p = encode_instrs is @ rest \<and> no_instr rest \<and>
        vm_end rest (cout (instrs_output acc is) w) r)"

lemma explained_stop: "no_instr p \<Longrightarrow> vm_end p w r \<Longrightarrow> explained acc p w r"
  unfolding explained_def by (rule exI [of _ "[]"], rule exI [of _ p]) simp

lemma explained_step:
  assumes "p = encode_instr i @ q" "instr_fits i" "explained acc' q w' r"
    and "\<And>is. cout (instrs_output acc' is) w' = cout (instrs_output acc (i # is)) w"
  shows "explained acc p w r"
proof -
  obtain "is" rest where q: "list_all instr_fits is" "q = encode_instrs is @ rest" "no_instr rest"
    "vm_end rest (cout (instrs_output acc' is) w') r"
    using assms(3) unfolding explained_def by blast
  then have "list_all instr_fits (i # is) \<and> p = encode_instrs (i # is) @ rest \<and> no_instr rest \<and>
      vm_end rest (cout (instrs_output acc (i # is)) w) r"
    using assms(1,2) unfolding assms(4) by simp
  then show ?thesis unfolding explained_def by blast
qed

lemma no_instrI:
  "(\<And>t r. length t < 2 ^ 32 \<Longrightarrow> rest \<noteq> OP_SAY # le_u32 (word_of_nat (length t)) @ bytes_of t @ r) \<Longrightarrow>
   (\<And>v r. rest \<noteq> OP_LOAD # v # r) \<Longrightarrow> (\<And>a r. rest \<noteq> OP_STORE # a # r) \<Longrightarrow> no_instr rest"
  unfolding no_instr_def
proof (intro allI impI)
  fix i r
  assume "\<And>t r. length t < 2 ^ 32 \<Longrightarrow> rest \<noteq> OP_SAY # le_u32 (word_of_nat (length t)) @ bytes_of t @ r"
    "\<And>v r. rest \<noteq> OP_LOAD # v # r" "\<And>a r. rest \<noteq> OP_STORE # a # r" "instr_fits i"
  then show "rest \<noteq> encode_instr i @ r" by (cases i) simp_all
qed

lemma no_instr_simps:
  "no_instr []" "no_instr (OP_HALT # p)" "no_instr [OP_LOAD]" "no_instr [OP_STORE]"
  "op \<noteq> OP_SAY \<Longrightarrow> op \<noteq> OP_LOAD \<Longrightarrow> op \<noteq> OP_STORE \<Longrightarrow> no_instr (op # p)"
  by (rule no_instrI; simp add: opcodes)+

lemma no_instr_say:
  assumes "length p < 4 \<or> length (drop 4 p) < unat (le32 p)"
  shows "no_instr (OP_SAY # p)"
proof (rule no_instrI)
  fix t :: string and r assume t: "length t < 2 ^ 32"
  show "OP_SAY # p \<noteq> OP_SAY # le_u32 (word_of_nat (length t)) @ bytes_of t @ r"
  proof
    assume "OP_SAY # p = OP_SAY # le_u32 (word_of_nat (length t)) @ bytes_of t @ r"
    then have p: "p = le_u32 (word_of_nat (length t)) @ bytes_of t @ r" by simp
    show False using assms t unfolding p by (simp add: unat_of_nat take_bit_nat_eq_self)
  qed
qed (simp_all add: opcodes)

lemma say_decodes:
  assumes "4 \<le> length p" "unat (le32 p) \<le> length (drop 4 p)"
  defines "t \<equiv> string_of (take (unat (le32 p)) (drop 4 p))"
  shows "OP_SAY # p = encode_instr (ISay t) @ drop (unat (le32 p)) (drop 4 p)"
    and "instr_fits (ISay t)"
proof -
  have l: "length t = unat (le32 p)" using assms(2) by (simp add: t_def)
  then show "instr_fits (ISay t)" using unsigned_less [of "le32 p", where ?'a = nat] by simp
  have "le_u32 (word_of_nat (length t)) = take 4 p" using le_u32_le32 [OF assms(1)] by (simp add: l)
  moreover have "bytes_of t = take (unat (le32 p)) (drop 4 p)" by (simp add: t_def)
  ultimately have "encode_instr (ISay t) @ drop (unat (le32 p)) (drop 4 p) =
      OP_SAY # take 4 p @ take (unat (le32 p)) (drop 4 p) @ drop (unat (le32 p)) (drop 4 p)" by simp
  also have "\<dots> = OP_SAY # p" unfolding append_take_drop_id ..
  finally show "OP_SAY # p = encode_instr (ISay t) @ drop (unat (le32 p)) (drop 4 p)" ..
qed

lemma vm_loop_explained: "explained acc p w (vm_loop off acc p w)"
proof (induction off acc p w rule: vm_loop.induct)
  case (1 off acc w)
  show ?case by (rule explained_stop) (simp_all add: no_instr_simps vm_end_def)
next
  case (2 off acc op p w)
  let ?r = "vm_loop off acc (op # p) w"
  consider (halt) "op = OP_HALT" | (say) "op = OP_SAY" | (load) "op = OP_LOAD" | (store) "op = OP_STORE"
    | (other) "op \<noteq> OP_HALT" "op \<noteq> OP_SAY" "op \<noteq> OP_LOAD" "op \<noteq> OP_STORE" by blast
  then show ?case
  proof cases
    case halt
    then show ?thesis by (intro explained_stop) (simp_all add: no_instr_simps vm_end_def)
  next
    case say
    show ?thesis
    proof (cases "length p < 4 \<or> length (drop 4 p) < unat (le32 p)")
      case True
      then have "vm_end (op # p) w ?r" using say by (auto simp: vm_end_def rt_error_def Let_def opcodes)
      then show ?thesis using no_instr_say [OF True] say by (auto intro: explained_stop)
    next
      case False
      define t where "t = string_of (take (unat (le32 p)) (drop 4 p))"
      define q where "q = drop (unat (le32 p)) (drop 4 p)"
      have d: "op # p = encode_instr (ISay t) @ q" "instr_fits (ISay t)"
        using say_decodes [of p] False unfolding t_def q_def say by auto
      have r: "?r = vm_loop (off + 5 + unat (le32 p)) acc q (cout (t @ [CHR 0x0A]) w)"
        using False say by (simp add: opcodes Let_def t_def q_def)
      have "explained acc q (cout (t @ [CHR 0x0A]) w) ?r"
        unfolding r t_def q_def by (rule 2(1)) (use False say in \<open>simp_all add: opcodes\<close>)
      then show ?thesis by (rule explained_step [OF d]) simp
    qed
  next
    case load
    show ?thesis
    proof (cases p)
      case Nil
      have "no_instr (op # p)" using load Nil by (simp add: no_instr_simps)
      moreover have "vm_end (op # p) w ?r" using load Nil by (auto simp: vm_end_def rt_error_def opcodes)
      ultimately show ?thesis by (rule explained_stop)
    next
      case (Cons v q)
      show ?thesis
        by (rule explained_step [of _ "ILoad v" q v w])
           (use Cons load 2(2) in \<open>simp_all add: opcodes\<close>)
    qed
  next
    case store
    show ?thesis
    proof (cases p)
      case Nil
      have "no_instr (op # p)" using store Nil by (simp add: no_instr_simps)
      moreover have "vm_end (op # p) w ?r" using store Nil by (auto simp: vm_end_def rt_error_def opcodes)
      ultimately show ?thesis by (rule explained_stop)
    next
      case (Cons a q)
      show ?thesis
        by (rule explained_step [of _ "IStore a" q acc
              "if a = PULSE_PORT then cout (''[pulse] '' @ signal_name acc @ [CHR 0x0A]) w
               else if a = EMIT_PORT then cout (''[emit] '' @ signal_name acc @ [CHR 0x0A]) w else w"])
           (use Cons store 2(3) in \<open>simp_all add: opcodes\<close>)
    qed
  next
    case other
    then show ?thesis by (intro explained_stop) (auto simp: no_instr_simps vm_end_def rt_error_def)
  qed
qed


section \<open>Property\<close>

text \<open>
  C14. The virtual machine on every file that begins with the magic: the bytes after it begin with a
  sequence of instructions after which no further instruction follows, and the run prints exactly what
  these instructions say. It succeeds when the file ends there (with a warning) or a HALT comes next, and
  otherwise fails with an error message: a truncated or unknown instruction is reported after the
  output of those before it, and no byte outside the file is read.
\<close>

theorem vm_runs_every_file:
  assumes "read_file w path = Some (MAGIC_BYTES @ p)"
  shows "\<exists>is rest msg. list_all instr_fits is \<and> p = encode_instrs is @ rest \<and> no_instr rest \<and>
    run_bytecode path w =
      (if rest = [] then (True, cerr (''[RT] Program reached EOF without HALT.'' @ [CHR 0x0A]) (cout (instrs_output 0 is) w))
       else if hd rest = OP_HALT then (True, cout (instrs_output 0 is) w)
       else (False, cerr msg (cout (instrs_output 0 is) w)))"
proof -
  obtain "is" rest where e: "list_all instr_fits is" "p = encode_instrs is @ rest" "no_instr rest"
    "vm_end rest (cout (instrs_output 0 is) w) (vm_loop 4 0 p w)"
    using vm_loop_explained unfolding explained_def by blast
  have r: "run_bytecode path w = (let (ok, halted, w) = vm_loop 4 0 p w in
      if \<not> ok then (False, w)
      else if \<not> halted then (True, cerr (''[RT] Program reached EOF without HALT.'' @ [CHR 0x0A]) w)
      else (True, w))"
    by (simp add: run_bytecode_def assms MAGIC_BYTES_def)
  obtain msg where "run_bytecode path w =
      (if rest = [] then (True, cerr (''[RT] Program reached EOF without HALT.'' @ [CHR 0x0A]) (cout (instrs_output 0 is) w))
       else if hd rest = OP_HALT then (True, cout (instrs_output 0 is) w)
       else (False, cerr msg (cout (instrs_output 0 is) w)))"
    using e(4) unfolding r vm_end_def by (auto split: if_splits)
  then show ?thesis using e(1-3) by blast
qed

definition broken_file :: world where
  "broken_file = (sample_world [] [])\<lparr>files := [''b'' \<mapsto>
     \<lparr>f_bytes = MAGIC_BYTES @ [OP_LOAD, 1, OP_STORE, 0x10, OP_SAY, 9, 0], f_mtime_sec = 0, f_mtime_nsec = 0, f_mode = 420\<rparr>]\<rparr>"

lemma vm_runs_every_file_witness:
  "\<exists>is rest. [OP_LOAD, 1, OP_STORE, 0x10, OP_SAY, 9, 0] = encode_instrs is @ rest \<and>
     fst (run_bytecode ''b'' broken_file) = (rest = [] \<or> hd rest = OP_HALT)"
proof -
  have "read_file broken_file ''b'' = Some (MAGIC_BYTES @ [OP_LOAD, 1, OP_STORE, 0x10, OP_SAY, 9, 0])"
    by (simp add: broken_file_def read_file_def)
  from vm_runs_every_file [OF this] show ?thesis by (metis (no_types, lifting) fst_conv)
qed

end
