(* ===== verification/Nanlang_Compile.thy ===== *)
theory Nanlang_Compile
  imports Cli_Driver Aot_Program
begin

text \<open>
  The whole chain behind \<open>nanlang compile\<close>: the wrapper makes a temporary file, has it filled by the
  preprocessor, builds a command line, the shell splits it, \<open>nanlang_cpp\<close> reads the words and compiles,
  the wrapper removes the file and returns the exit code. The preprocessor is the part of the shell
  that the model leaves open; what it wrote is a hypothesis.
\<close>

section \<open>Property\<close>

text \<open>
  C3. \<open>nanlang compile src --output target\<close>, from the words on the command line to the program that
  runs: when the preprocessor has written a well-formed program to the temporary file, the
  command exits with 0 or 1, the temporary file is gone unless the system refuses to remove it, exit
  code 0 means that the file is gone and that the target loads as an
  ELF executable which prints what the program says, and with room for the target and a temporary
  file that can be removed the code is 0.
\<close>

theorem nanlang_compile_runs:
  assumes "temp_name h = Some temp" and "ordinary src" and "ordinary target" and "ordinary temp" and "target \<noteq> temp"
    and "no_null cpp" and "no_null temp" and "no_null target"
    and "preprocess_source_file (compiler_shell p other) src temp (snd (make_temp_preprocessed_file h)) = (Inr (), h1)"
    and "resolve_cpp_command_path h1 = Inr cpp" and "read_text (hw h1) temp = Some text"
    and "list_all stmt_ok ps" and "ps \<noteq> []"
    and "list_all2 decorated (concat (map stmt_lines ps)) (filter (\<lambda>l. \<not> blank_line l) (getlines text))"
    and "length (source_code match_state_init text) + 120 < 2 ^ 31"
  shows "\<exists>rc h'. nanlang_main (compiler_shell p other) [''compile'', src, ''--output'', target] h = (rc, h') \<and>
    (rc = 0 \<or> rc = 1) \<and> (can_unlink h1 temp \<longrightarrow> \<not> fs_exists h' temp) \<and>
    (rc = 0 \<longrightarrow> \<not> fs_exists h' temp \<and> (\<exists>exe m n. read_file (hw h') target = Some exe \<and> elf_load exe = Some m \<and>
       run n m = Exited 0 (bytes_of (program_output ps)))) \<and>
    (can_create (hw h1) target \<and> disk_room (hw h1) target = None \<and> can_unlink h1 temp \<longrightarrow> rc = 0)"
proof -
  obtain rc w where c: "aot_compile False temp target (hw h1) = (rc, w)" by fastforce
  have lines: "getlines text \<noteq> []" by (rule program_lines [OF assms(13,14)])
  have main: "nanlang_main (compiler_shell p other) [''compile'', src, ''--output'', target] h =
      (if can_unlink h1 temp then (rc, snd (fs_remove temp (h1\<lparr>hw := w\<rparr>)))
       else (1, on_world (cerr (''nanlang: '' @ fs_what h1 temp @ eol)) (h1\<lparr>hw := w\<rparr>)))"
    by (rule nanlang_compile_steps [OF assms(1) source_index(1) [OF assms(2)] _ _ assms(10) _ c])
       (use assms(6-9) compile_words(1) [OF assms(3,4)] in \<open>simp_all add: no_null_def\<close>)
  have runs: "\<exists>exe m n. read_file w target = Some exe \<and> elf_load exe = Some m \<and>
      run n m = Exited 0 (bytes_of (program_output ps))" if "rc = 0"
    using aot_compile_success [of False temp target "hw h1" w] c that
      compiled_elf_runs [OF assms(11) lines _ assms(15)] source_output_program [OF assms(12,14)] by fastforce
  have can: "can_create (hw h1) target \<and> disk_room (hw h1) target = None \<longrightarrow> rc = 0"
    using aot_compile_can [OF assms(11) lines, of target False] c by fastforce
  have codes: "rc = 0 \<or> rc = 1" using aot_compile_code [of False temp target "hw h1"] c by simp
  show ?thesis
  proof (cases "can_unlink h1 temp")
    case True
    then obtain k where k: "fs_remove temp (h1\<lparr>hw := w\<rparr>) = (Inr (), k)" "\<not> fs_exists k temp"
      using fs_remove_gone [of "h1\<lparr>hw := w\<rparr>" temp] by auto
    moreover have "read_file (hw k) target = read_file w target"
      using k(1) True assms(5) by (auto simp: fs_remove_def on_world_def read_file_def)
    ultimately show ?thesis using main True runs can codes by simp
  qed (use main in simp)
qed

lemma nanlang_compile_runs_witness:
  "\<exists>h' exe m n. nanlang_main (compiler_shell sample_platform (raku_shell match_source)) [''compile'', ''a.nl'', ''--output'', ''a.elf''] tool_host = (0, h') \<and>
     read_file (hw h') ''a.elf'' = Some exe \<and> elf_load exe = Some m \<and>
     run n m = Exited 0 (bytes_of (''http://a'' @ [CHR 0x0A] @ ''a => b'' @ [CHR 0x0A]))"
proof -
  have ne: "match_program \<noteq> []" by (simp add: match_program_def)
  show ?thesis
    using nanlang_compile_runs [OF tool_host_names(1-4) _ tool_host_names(5-7) tool_host_preprocess
        tool_host_preprocessed_facts(5,4) match_source_ok(1) ne match_source_ok(2)] tool_host_preprocessed_facts(1-3)
    unfolding match_source_ok(3) by (fastforce simp: match_source_size)
qed

end
