(* ===== verification/Native_Program.thy ===== *)
theory Native_Program
  imports Native_Driver
begin

text \<open>
  The statement language of the native compiler (\<open>parse_native_program\<close> in \<open>src/nanlang_cpp.cpp\<close>)
  as a reference semantics: \<open>say\<close> with any text, \<open>pulse\<close> and \<open>emit\<close> of a signal, port lines that
  begin with an at sign, \<open>halt\<close>, and the lines that print nothing. Lines may be indented and commented.
  Unlike in the AOT compiler, a \<open>halt\<close> does not keep later statements from printing.
\<close>

datatype level = High | Low | Uncertain | Falling | Double_falling

fun level_token :: "level \<Rightarrow> string" where
  "level_token High = ''^''"
| "level_token Low = ''_''"
| "level_token Uncertain = ''?''"
| "level_token Falling = ''_>_''"
| "level_token Double_falling = ''_>>_''"

fun level_name :: "level \<Rightarrow> string" where
  "level_name High = ''HIGH''"
| "level_name Low = ''LOW''"
| "level_name Uncertain = ''UNCERTAIN''"
| "level_name Falling = ''FALLING''"
| "level_name Double_falling = ''DOUBLE_FALLING''"

datatype nstmt =
  N_say string
| N_pulse level
| N_emit level
| N_port string
| N_halt
| N_silent string

fun nstmt_line :: "nstmt \<Rightarrow> string" where
  "nstmt_line (N_say t) = say_line t"
| "nstmt_line (N_pulse v) = ''pulse '' @ level_token v @ '';''"
| "nstmt_line (N_emit v) = ''emit '' @ level_token v @ '';''"
| "nstmt_line (N_port l) = CHR ''@'' # l"
| "nstmt_line N_halt = ''halt;''"
| "nstmt_line (N_silent l) = l"

fun nstmt_output :: "nstmt \<Rightarrow> string list" where
  "nstmt_output (N_say t) = [t]"
| "nstmt_output (N_pulse v) = [''[pulse] '' @ level_name v]"
| "nstmt_output (N_emit v) = [''[emit] '' @ level_name v]"
| "nstmt_output (N_port l) = [''[mmio] '' @ CHR ''@'' # l]"
| "nstmt_output N_halt = []"
| "nstmt_output (N_silent l) = []"

definition native_output :: "nstmt list \<Rightarrow> string" where
  "native_output ps = concat (map ln (concat (map nstmt_output ps)))"

text \<open>The lines of a silent statement: control flow, declarations, and what is not supported.\<close>

definition control_line :: "string \<Rightarrow> bool" where
  "control_line l \<longleftrightarrow> is_brace_line l \<or> is_ignored_decl l \<or>
     list_ex (starts_with_keyword l) [''if'', ''else'', ''loop'', ''break'', ''return'']"

definition silent_line :: "string \<Rightarrow> bool" where
  "silent_line l \<longleftrightarrow> control_line l \<or>
     hd l \<noteq> CHR ''@'' \<and> \<not> list_ex (starts_with_keyword l) [''say'', ''pulse'', ''emit'', ''halt'']"

fun nstmt_ok :: "nstmt \<Rightarrow> bool" where
  "nstmt_ok (N_port l) = (list_all plain_char l \<and> (l = [] \<or> \<not> isspace (last l)))"
| "nstmt_ok (N_silent l) =
     (l \<noteq> [] \<and> \<not> isspace (hd l) \<and> \<not> isspace (last l) \<and> list_all plain_char l \<and>
      \<not> starts_with_keyword l ''ui'' \<and> silent_line l)"
| "nstmt_ok _ = True"

section \<open>Cleaning a line\<close>

text \<open>The comment scan passes over \<open>b\<close> and is outside a literal after it.\<close>

definition passes :: "string \<Rightarrow> bool" where
  "passes b \<longleftrightarrow> (\<forall>r. comment_pos False False (b @ r) = map_option ((+) (length b)) (comment_pos False False r))"

lemma passes_plain: "list_all plain_char b \<Longrightarrow> passes b"
  by (simp add: passes_def comment_pos_plain list_all_iff)

lemma passes_literal: "passes (quote_for_log t)"
  by (simp add: passes_def comment_pos_literal)

lemma passes_append: "passes a \<Longrightarrow> passes b \<Longrightarrow> passes (a @ b)"
  by (simp add: passes_def option.map_comp comp_def add.assoc fun_eq_iff cong: option.map_cong)

lemma isspace_plain: "isspace c \<Longrightarrow> plain_char c"
  by (cases "c = CHR 0x22"; cases "c = CHR ''/''") (simp_all add: plain_char_def isspace_def)

lemma blanks_pass: "list_all isspace s \<Longrightarrow> passes s"
  by (rule passes_plain) (simp add: list_all_iff isspace_plain)

lemma normalize_decorated:
  assumes "decorated_by isspace b raw" "passes b" "b = [] \<or> \<not> isspace (hd b) \<and> \<not> isspace (last b)"
  shows "normalize_source_line raw = b"
proof -
  obtain ind gap com where d: "raw = ind @ b @ gap @ com" "list_all isspace ind" "list_all isspace gap"
      "com = [] \<or> prefix ''//'' com"
    using assms(1) by (rule decorated_by_parts)
  have "passes (ind @ b @ gap)"
    by (intro passes_append blanks_pass d(2,3) assms(2))
  then have c: "comment_pos False False raw = map_option ((+) (length (ind @ b @ gap))) (comment_pos False False com)"
    unfolding passes_def d(1) by simp
  have "strip_line_comment raw = ind @ b @ gap"
  proof (cases "com = []")
    case True
    then show ?thesis using c by (simp add: strip_line_comment_def d(1))
  next
    case False
    then obtain x where "com = CHR ''/'' # CHR ''/'' # x" using d(4) by (auto simp: prefix_def)
    then have "comment_pos False False com = Some 0" by simp
    then show ?thesis using c by (simp add: strip_line_comment_def substr_def d(1))
  qed
  then show ?thesis by (simp add: normalize_source_line_eq trim_surrounded [OF d(2,3) assms(3)])
qed

lemma nstmt_line_clean:
  assumes "nstmt_ok st"
  shows "passes (nstmt_line st) \<and> nstmt_line st \<noteq> [] \<and> \<not> isspace (hd (nstmt_line st)) \<and> \<not> isspace (last (nstmt_line st))"
proof (cases st)
  case (N_say t)
  have "passes (''say '' @ quote_for_log t @ '';'')"
    by (intro passes_append passes_literal passes_plain) (simp_all add: plain_char_def)
  then show ?thesis by (simp add: N_say say_line_def isspace_def)
next
  case (N_pulse v)
  then show ?thesis by (cases v) (auto intro!: passes_plain simp: plain_char_def isspace_def)
next
  case (N_emit v)
  then show ?thesis by (cases v) (auto intro!: passes_plain simp: plain_char_def isspace_def)
next
  case (N_port l)
  then show ?thesis using assms by (auto intro!: passes_plain simp: plain_char_def isspace_def)
next
  case N_halt
  then show ?thesis by (auto intro!: passes_plain simp: plain_char_def isspace_def)
next
  case (N_silent l)
  then show ?thesis using assms by (auto intro!: passes_plain)
qed

section \<open>One statement\<close>

lemma native_line_clean:
  "normalize_source_line raw = b \<Longrightarrow> normalize_source_line b = b \<Longrightarrow> native_line raw s = native_line b s"
  by (simp add: native_line_def)

lemma decorated_by_itself: "b \<noteq> [] \<Longrightarrow> \<not> P (hd b) \<Longrightarrow> decorated_by P b b"
  by (simp add: decorated_by_def Let_def dropWhile_id)

lemma nstmt_normal: "nstmt_ok st \<Longrightarrow> normalize_source_line (nstmt_line st) = nstmt_line st"
  using nstmt_line_clean [of st] by (intro normalize_decorated decorated_by_itself) auto

text \<open>What a line adds to the program's writes.\<close>

definition adds :: "string list \<Rightarrow> native_parse \<Rightarrow> string + native_parse \<Rightarrow> bool" where
  "adds ts s r \<longleftrightarrow> (\<exists>s'. r = Inr s' \<and> writes (prog s') = writes (prog s) @ map ln ts)"

definition signal_byte :: "level \<Rightarrow> byte" where
  "signal_byte v = (case v of High \<Rightarrow> 1 | Low \<Rightarrow> 0 | Uncertain \<Rightarrow> 0xFF | Falling \<Rightarrow> 0x10 | Double_falling \<Rightarrow> 0x11)"

lemma parse_signals:
  "parse_pulse_or_emit (''pulse '' @ level_token v @ '';'') = Some (True, signal_byte v)"
  "parse_pulse_or_emit (''emit '' @ level_token v @ '';'') = Some (False, signal_byte v)"
  by (cases v; simp add: parse_pulse_or_emit_def parse_signal_token_def signal_byte_def isspace_def Let_def)+

lemma signal_byte_name: "signal_name (signal_byte v) = level_name v"
  by (cases v) (simp_all add: signal_byte_def signal_name_def)

lemma signal_keywords:
  assumes "l = ''pulse '' @ t \<or> l = ''emit '' @ t"
  shows "l \<noteq> []" "\<not> is_brace_line l" "\<not> is_ignored_decl l" "\<not> starts_with_keyword l ''if''"
    "\<not> starts_with_keyword l ''else''" "\<not> starts_with_keyword l ''loop''" "\<not> starts_with_keyword l ''break''"
    "\<not> starts_with_keyword l ''return''" "\<not> starts_with_keyword l ''say''" "\<not> starts_with_keyword l ''ui''"
    "starts_with_keyword l ''pulse'' \<or> starts_with_keyword l ''emit''"
  using assms by (auto simp: starts_with_keyword_def is_ignored_decl_def is_brace_line_def)

lemma port_keywords:
  "\<not> is_brace_line (CHR ''@'' # l)" "\<not> is_ignored_decl (CHR ''@'' # l)"
  "kw \<noteq> [] \<Longrightarrow> hd kw \<noteq> CHR ''@'' \<Longrightarrow> \<not> starts_with_keyword (CHR ''@'' # l) kw"
  by (auto simp: starts_with_keyword_def is_ignored_decl_def is_brace_line_def prefix_Cons)

lemma halt_keywords:
  "\<not> is_brace_line ''halt;''" "\<not> is_ignored_decl ''halt;''" "starts_with_keyword ''halt;'' ''halt''"
  "kw \<in> set [''if'', ''else'', ''loop'', ''break'', ''return'', ''say'', ''ui'', ''pulse'', ''emit''] \<Longrightarrow>
   \<not> starts_with_keyword ''halt;'' kw"
  by (auto simp: starts_with_keyword_def is_ignored_decl_def is_brace_line_def)

lemma native_signal:
  assumes "l = ''pulse '' @ t \<or> l = ''emit '' @ t" and "normalize_source_line l = l"
    and "parse_pulse_or_emit l = Some (b, signal_byte v)"
  shows "adds [''['' @ (if b then ''pulse'' else ''emit'') @ ''] '' @ level_name v] s (native_line l s)"
  unfolding native_line_def Let_def assms(2)
  using signal_keywords [OF assms(1)] assms(3) by (simp add: adds_def ln_def signal_byte_name)

lemma native_stmt:
  assumes "nstmt_ok st"
  shows "adds (nstmt_output st) s (native_line (nstmt_line st) s)"
proof (cases st)
  case (N_say t)
  then show ?thesis by (simp add: adds_def native_line_say ln_def)
next
  case (N_pulse v)
  then show ?thesis
    using native_signal [OF _ _ parse_signals(1) [of v], where t = "level_token v @ '';''"] nstmt_normal [OF assms] by simp
next
  case (N_emit v)
  then show ?thesis
    using native_signal [OF _ _ parse_signals(2) [of v], where t = "level_token v @ '';''"] nstmt_normal [OF assms] by simp
next
  case (N_port l)
  then show ?thesis
    using nstmt_normal [OF assms] unfolding native_line_def Let_def
    by (simp add: port_keywords adds_def ln_def)
next
  case N_halt
  then show ?thesis
    using nstmt_normal [OF assms] unfolding native_line_def Let_def
    by (simp add: halt_keywords adds_def)
next
  case (N_silent l)
  have n: "normalize_source_line l = l" using nstmt_normal [OF assms] N_silent by simp
  show ?thesis
    using assms N_silent unfolding N_silent nstmt_line.simps native_line_def Let_def n
    by (auto simp: adds_def add_warning_def ui_warn_def silent_line_def control_line_def)
qed

section \<open>A program\<close>

definition space_line :: "string \<Rightarrow> bool" where
  "space_line raw \<longleftrightarrow> decorated_by isspace [] raw"

lemma native_space_line: "space_line raw \<Longrightarrow> adds [] s (native_line raw s)"
  using normalize_decorated [of "[]" raw] passes_plain [of "[]"]
  by (simp add: space_line_def native_line_def adds_def)

lemma native_decorated:
  assumes "nstmt_ok st" "decorated_by isspace (nstmt_line st) raw"
  shows "normalize_source_line raw = nstmt_line st" "adds (nstmt_output st) s (native_line raw s)"
proof -
  show n: "normalize_source_line raw = nstmt_line st"
    using nstmt_line_clean [OF assms(1)] by (intro normalize_decorated assms(2)) auto
  show "adds (nstmt_output st) s (native_line raw s)"
    using native_stmt [OF assms(1)] native_line_clean [OF n nstmt_normal [OF assms(1)]] by simp
qed

lemma adds_then:
  assumes "adds ts s r" "\<And>s'. adds us s' (f s')"
  shows "\<exists>s'. r = Inr s' \<and> adds (ts @ us) s (f s')"
  using assms unfolding adds_def by fastforce

lemma native_lines_add:
  "list_all nstmt_ok ps \<Longrightarrow>
   list_all2 (decorated_by isspace) (map nstmt_line ps) (filter (\<lambda>l. \<not> space_line l) raws) \<Longrightarrow>
   adds (concat (map nstmt_output ps)) s (fold_lines native_line raws s)"
proof (induction raws arbitrary: ps s)
  case Nil
  then show ?case by (simp add: adds_def)
next
  case (Cons raw raws)
  show ?case
  proof (cases "space_line raw")
    case True
    have "adds (concat (map nstmt_output ps)) s' (fold_lines native_line raws s')" for s'
      using Cons True by simp
    from adds_then [OF native_space_line [OF True, of s] this] show ?thesis by auto
  next
    case False
    then obtain st qs where ps: "ps = st # qs" "decorated_by isspace (nstmt_line st) raw"
      "list_all2 (decorated_by isspace) (map nstmt_line qs) (filter (\<lambda>l. \<not> space_line l) raws)"
      using Cons.prems(2) by (cases ps) auto
    have ok: "nstmt_ok st" "list_all nstmt_ok qs" using Cons.prems(1) ps(1) by simp_all
    have "adds (concat (map nstmt_output qs)) s' (fold_lines native_line raws s')" for s'
      using Cons.IH [OF ok(2) ps(3)] .
    from adds_then [OF native_decorated(2) [OF ok(1) ps(2), of s] this] show ?thesis by (auto simp: ps(1))
  qed
qed

lemma nstmt_not_ui: "nstmt_ok st \<Longrightarrow> \<not> starts_with_keyword (nstmt_line st) ''ui''"
proof (cases st)
  case (N_pulse v)
  then show ?thesis using signal_keywords(10) [of "nstmt_line st"] by simp
next
  case (N_emit v)
  then show ?thesis using signal_keywords(10) [of "nstmt_line st"] by simp
qed (simp_all add: port_keywords halt_keywords)

lemma native_program_no_ui:
  assumes "list_all nstmt_ok ps" "read_text w src = Some text"
    and "list_all2 (decorated_by isspace) (map nstmt_line ps) (filter (\<lambda>l. \<not> space_line l) (getlines text))"
  shows "\<not> source_contains_ui_directives w src"
proof -
  have "\<not> is_ui_line raw" if raw: "raw \<in> set (getlines text)" for raw
  proof (cases "space_line raw")
    case True
    then have "normalize_source_line raw = []"
      using normalize_decorated [of "[]" raw] passes_plain [of "[]"] by (simp add: space_line_def)
    then show ?thesis by (simp add: is_ui_line_def)
  next
    case False
    then have "raw \<in> set (filter (\<lambda>l. \<not> space_line l) (getlines text))" using raw by simp
    then obtain i where i: "i < length (filter (\<lambda>l. \<not> space_line l) (getlines text))"
        "filter (\<lambda>l. \<not> space_line l) (getlines text) ! i = raw"
      unfolding in_set_conv_nth by blast
    then have "decorated_by isspace (nstmt_line (ps ! i)) raw" "i < length ps"
      using list_all2_nthD2 [OF assms(3) i(1)] list_all2_lengthD [OF assms(3)] by simp_all
    then obtain st where "st \<in> set ps" "decorated_by isspace (nstmt_line st) raw" by (blast intro: nth_mem)
    then show ?thesis
      using assms(1) native_decorated(1) [of st raw] nstmt_not_ui by (auto simp: is_ui_line_def list_all_iff)
  qed
  then show ?thesis by (auto simp: source_contains_ui_directives_def assms(2) list_ex_iff)
qed

section \<open>Property\<close>

text \<open>
  C6. The native compiler implements its statement language: for every well-formed program, however
  its lines are indented and commented and wherever it has blank lines, an uncached compilation
  succeeds when the output can be written, and leaves an ELF executable that loads, prints what the
  reference semantics says (texts with their escapes, signals by name, port lines, also after a
  \<open>halt\<close>) and exits with status 0.
\<close>

theorem native_program_runs:
  assumes "list_all nstmt_ok ps"
    and "list_all2 (decorated_by isspace) (map nstmt_line ps) (filter (\<lambda>l. \<not> space_line l) (getlines text))"
    and "read_text w src = Some text" and "\<not> cached src out Elf w"
    and "can_create w out" and "disk_room w out = None"
    and "30 * length (concat (map nstmt_output ps)) + length (native_output ps) + 132 < 2 ^ 31"
  shows "\<exists>w' exe m n. compile_native_source src out Elf w = (True, w') \<and> read_file w' out = Some exe \<and>
    elf_load exe = Some m \<and> run n m = Exited 0 (bytes_of (native_output ps))"
proof -
  define s0 where "s0 = \<lparr>prog = NativeProgram_new, line_no = 0, warned_if = False, warned_loop = False, warned_return = False\<rparr>"
  obtain s' where s': "fold_lines native_line (getlines text) s0 = Inr s'"
      "writes (prog s') = map ln (concat (map nstmt_output ps))"
    using native_lines_add [OF assms(1,2), of s0] by (auto simp: adds_def s0_def NativeProgram_new_def)
  have p: "parse_native_program src NativeProgram_new w = (Some (native_finish (prog s')), w)"
    using s'(1) by (simp add: parse_native_program_def assms(3) s0_def)
  have "writes (native_finish (prog s')) = map ln (concat (map nstmt_output ps))"
    using s'(2) by (simp add: native_finish_def)
  then show ?thesis
    using native_program_elf [OF assms(4) p native_program_no_ui [OF assms(1,3,2)] assms(5,6)] assms(7)
    by (simp add: native_output_def)
qed

definition native_source :: string where
  "native_source = unlines [''fn main() {'', ''  say '' @ quote_for_log (''a'' @ [CHR 0x0A] @ ''//b'') @ ''; // text'', [],
     ''  pulse _>_;'', ''  @0x10 = 5;'', ''  halt;'', ''  // done'', ''}'']"

definition native_stmts :: "nstmt list" where
  "native_stmts = [N_silent ''fn main() {'', N_say (''a'' @ [CHR 0x0A] @ ''//b''), N_pulse Falling, N_port ''0x10 = 5;'',
     N_halt, N_silent ''}'']"

lemma native_source_ok:
  "list_all nstmt_ok native_stmts"
  "list_all2 (decorated_by isspace) (map nstmt_line native_stmts) (filter (\<lambda>l. \<not> space_line l) (getlines native_source))"
  by code_simp+

lemma native_program_runs_witness:
  "\<exists>w' exe m n. compile_native_source ''a.nl'' ''out'' Elf (sample_world ''a.nl'' native_source) = (True, w') \<and>
     read_file w' ''out'' = Some exe \<and> elf_load exe = Some m \<and>
     run n m = Exited 0 (bytes_of (unlines [''a'', ''//b'', ''[pulse] FALLING'', ''[mmio] @0x10 = 5;'']))"
proof -
  let ?w = "sample_world ''a.nl'' native_source"
  have "\<not> cached ''a.nl'' ''out'' Elf ?w"
    by (simp add: cached_def fast_cache_mode_enabled_def getenv_def cache_hit_native_def file_exists_nonempty_def
        sample_world_def)
  moreover have "native_output native_stmts = unlines [''a'', ''//b'', ''[pulse] FALLING'', ''[mmio] @0x10 = 5;'']"
    by code_simp
  ultimately show ?thesis
    using native_program_runs [OF native_source_ok, of ?w "''a.nl''" "''out''"]
    by (simp add: native_stmts_def unlines_def)
qed

end
