(* ===== verification/Back_Ends.thy ===== *)
theory Back_Ends
  imports Native_Driver Bytecode_VM Aot_Program
begin

text \<open>
  The three back ends of \<open>nanlang_cpp\<close> on the sources they all accept: programs of \<open>say\<close> statements
  with plain texts. The AOT compiler, the native compiler and the bytecode compiler with its virtual
  machine have parsers of their own; here they are compared through what the results print.
\<close>

definition plain_text :: "string \<Rightarrow> bool" where
  "plain_text t \<longleftrightarrow> list_all (\<lambda>c. c \<notin> set [CHR 0x22, CHR 0x5C, CHR 0x0A, CHR 0x0D, CHR 0x09]) t \<and> find_sub ''=>'' t = None"

definition plain_program :: "string list \<Rightarrow> string" where
  "plain_program ts = unlines (map aot_say ts)"

lemma plain_literal: "plain_text t \<Longrightarrow> literal_text t"
  by (auto simp: plain_text_def literal_text_def list_all_iff quote_def)

lemma plain_escape: "plain_text t \<Longrightarrow> concat (map log_escape t) = t"
proof -
  assume "plain_text t"
  then have "list_all (\<lambda>c. log_escape c = [c]) t"
    by (auto simp: plain_text_def list_all_iff log_escape_def)
  then show ?thesis by (induction t) simp_all
qed

lemma plain_say_line: "plain_text t \<Longrightarrow> say_line t = aot_say t"
  by (simp add: say_line_def aot_say_def quote_for_log_def quote_def plain_escape)

lemma plain_say_program: "list_all plain_text ts \<Longrightarrow> say_program ts = plain_program ts"
  by (simp add: plain_program_def list_all_iff plain_say_line cong: map_cong)

lemma plain_lines: "list_all plain_text ts \<Longrightarrow> getlines (plain_program ts) = map aot_say ts"
  using getlines_say_lines [of ts] by (simp add: plain_program_def list_all_iff plain_say_line cong: map_cong)

lemma aot_say_not_blank: "\<not> blank_line (aot_say t)"
  by (simp add: blank_line_def decorated_by_def Let_def aot_say_def is_blank_def)

lemma decorated_itself: "b \<noteq> [] \<Longrightarrow> \<not> is_blank (hd b) \<Longrightarrow> decorated b b"
  by (simp add: decorated_by_def Let_def dropWhile_id)

lemma plain_stmts:
  assumes "list_all plain_text ts"
  shows "list_all stmt_ok (map Say_stmt ts)"
    and "list_all2 decorated (concat (map stmt_lines (map Say_stmt ts)))
      (filter (\<lambda>l. \<not> blank_line l) (getlines (plain_program ts)))"
    and "program_output (map Say_stmt ts) = concat (map print_line ts)"
    and "concat (map stmt_instrs (map Say_stmt ts)) = map (\<lambda>t. print_instr (print_line t)) ts"
proof -
  show "list_all stmt_ok (map Say_stmt ts)" using assms by (auto simp: list_all_iff plain_literal)
  show "list_all2 decorated (concat (map stmt_lines (map Say_stmt ts)))
      (filter (\<lambda>l. \<not> blank_line l) (getlines (plain_program ts)))"
    unfolding plain_lines [OF assms]
    by (simp add: aot_say_not_blank comp_def list_all2_map1 list_all2_map2 decorated_itself aot_say_parts is_blank_def
        list.rel_refl filter_map)
  show "program_output (map Say_stmt ts) = concat (map print_line ts)"
    using assms by (induction ts) (simp_all add: plain_text_def)
  show "concat (map stmt_instrs (map Say_stmt ts)) = map (\<lambda>t. print_instr (print_line t)) ts"
    using assms by (induction ts) (simp_all add: plain_text_def stmt_instrs_def)
qed

lemma plain_sizes:
  "length (plain_program ts) = length (concat ts) + 8 * length ts"
  "length (concat (map print_line ts)) = length (concat ts) + length ts"
  by (induction ts) (simp_all add: plain_program_def unlines_def aot_say_def print_line_def)

lemma code_size_prints:
  "code_size a b (map (\<lambda>t. Print (f t)) ts @ [Exit]) = a * length ts + b"
  "pool_bytes (map (\<lambda>t. Print (f t)) ts @ [Exit]) = bytes_of (concat (map f ts))"
  by (induction ts) simp_all

lemma plain_code_size:
  assumes "list_all plain_text ts"
  shows "length (source_code match_state_init (plain_program ts)) = 40 * length ts + 23 + length (concat ts)"
proof -
  have "Halt_stmt \<notin> set (map Say_stmt ts)" by auto
  then have "map item_of (parsed_instrs match_state_init (getlines (plain_program ts))) =
      map (\<lambda>t. Print (print_line t)) ts @ [Exit]"
    using program_instrs [OF plain_stmts(1,2) [OF assms]] plain_stmts(4) [OF assms] by (simp add: comp_def)
  then show ?thesis by (simp add: length_source_code code_size_prints plain_sizes)
qed

lemma say_line_common: "plain_text t \<Longrightarrow> length t + 7 < 2 ^ 32 \<Longrightarrow> common_line (aot_say t) \<and> \<not> is_halt_line (aot_say t)"
  using plain_say_line [of t, symmetric]
  by (simp add: common_line_def is_halt_line_def Let_def)
     (simp add: say_line_def quote_for_log_def starts_with_keyword_def plain_escape)


lemma concat_ln: "map ln ts = map print_line ts"
  by (simp add: ln_def print_line_def)

section \<open>Property\<close>

text \<open>
  C15. The three back ends agree: for a program of \<open>say\<close> statements with plain texts, the executable of
  the AOT compiler, the executable of the native compiler and the bytecode on the virtual machine
  all print the texts, one a line, and end with success.
\<close>

theorem back_ends_agree:
  assumes "list_all plain_text ts" and "ts \<noteq> []" and "read_text w src = Some (plain_program ts)"
    and "length (plain_program ts) < 2 ^ 24"
    and "compile_to_elf match_state_init (AOTCompiler_new src) out w = (True, ms', c', w1)"
    and "\<not> cached src out Elf w" and "can_create w out" and "disk_room w out = None"
    and "compile_source src out w = (True, w3)"
  shows "\<exists>exe1 m1 n1 w2 exe2 m2 n2.
    read_file w1 out = Some exe1 \<and> elf_load exe1 = Some m1 \<and> run n1 m1 = Exited 0 (bytes_of (concat (map print_line ts))) \<and>
    compile_native_source src out Elf w = (True, w2) \<and>
    read_file w2 out = Some exe2 \<and> elf_load exe2 = Some m2 \<and> run n2 m2 = Exited 0 (bytes_of (concat (map print_line ts))) \<and>
    run_bytecode out w3 = (True, cout (concat (map print_line ts)) w3)"
proof -
  have bound: "length (concat ts) + 8 * length ts < 2 ^ 24" using assms(4) by (simp add: plain_sizes)
  have lines: "getlines (plain_program ts) \<noteq> []" using assms(2) by (simp add: plain_lines [OF assms(1)])
  have "source_output match_state_init (plain_program ts) = Some (concat (map print_line ts))"
    using source_output_program [OF plain_stmts(1,2) [OF assms(1)]] by (simp add: plain_stmts(3) [OF assms(1)])
  then have aot: "\<exists>exe m n. read_file w1 out = Some exe \<and> elf_load exe = Some m \<and>
      run n m = Exited 0 (bytes_of (concat (map print_line ts)))"
    using compiled_elf_runs [OF assms(3) lines assms(5)] bound by (simp add: plain_code_size [OF assms(1)])
  have src: "read_text w src = Some (say_program ts)" using assms(3) by (simp only: plain_say_program [OF assms(1)])
  have "30 * length ts + length (concat (map ln ts)) + 132 < 2 ^ 31"
    using bound by (simp add: concat_ln plain_sizes)
  then have native: "\<exists>w' exe m n. compile_native_source src out Elf w = (True, w') \<and> read_file w' out = Some exe \<and>
      elf_load exe = Some m \<and> run n m = Exited 0 (bytes_of (concat (map print_line ts)))"
    using native_say_runs [OF assms(6) src assms(7,8)] by (simp only: concat_ln)
  have common: "\<forall>l \<in> set (map aot_say ts). common_line l \<and> \<not> is_halt_line l"
  proof -
    have "length t + 7 < 2 ^ 32" if "t \<in> set ts" for t
      using bound that by (induction ts) auto
    then show ?thesis using assms(1) say_line_common by (auto simp: list_all_iff)
  qed
  obtain p where "parse_native_program src NativeProgram_new w = (Some p, w)"
      "run_bytecode out w3 = (True, cout (concat (writes p)) w3)"
    using vm_prints_writes [OF assms(3) _ common _ assms(9), of "[]"] plain_lines [OF assms(1)] by auto
  then have "run_bytecode out w3 = (True, cout (concat (map print_line ts)) w3)"
    using parse_say_program [OF src] by (auto simp: concat_ln)
  then show ?thesis using aot native by blast
qed

lemma back_ends_agree_witness:
  "\<exists>w1 w2 w3 exe1 exe2 m1 m2 n1 n2. read_file w1 ''out'' = Some exe1 \<and> elf_load exe1 = Some m1 \<and>
     run n1 m1 = Exited 0 (bytes_of (''hi'' @ [CHR 0x0A])) \<and>
     compile_native_source ''a.nl'' ''out'' Elf hi_world = (True, w2) \<and>
     read_file w2 ''out'' = Some exe2 \<and> elf_load exe2 = Some m2 \<and> run n2 m2 = Exited 0 (bytes_of (''hi'' @ [CHR 0x0A])) \<and>
     run_bytecode ''out'' w3 = (True, cout (''hi'' @ [CHR 0x0A]) w3)"
proof -
  have ok: "list_all plain_text [''hi'']" by (simp add: plain_text_def)
  have src: "read_text hi_world ''a.nl'' = Some (plain_program [''hi''])"
    using hi_world_facts(1) by (simp only: plain_say_program [OF ok])
  have size: "length (plain_program [''hi'']) < 2 ^ 24" by (simp add: plain_sizes)
  have "getlines (plain_program [''hi'']) \<noteq> []" by (simp add: plain_lines [OF ok])
  then obtain ms w1 where aot: "compile_to_elf match_state_init (AOTCompiler_new ''a.nl'') ''out'' hi_world =
      (True, ms, AOTCompiler_new ''a.nl'', w1)"
    using compile_to_native_succeeds [of hi_world "AOTCompiler_new ''a.nl''" "plain_program [''hi'']" "''out''" match_state_init True]
      src hi_world_facts(2,3) by (auto simp: compile_to_elf_def AOTCompiler_new_def)
  have "fst (compile_source ''a.nl'' ''out'' hi_world)" by code_simp
  then obtain w3 where bc: "compile_source ''a.nl'' ''out'' hi_world = (True, w3)"
    by (metis prod.collapse)
  show ?thesis
    using back_ends_agree [OF ok _ src size aot hi_world_uncached hi_world_facts(2,3) bc]
    by (fastforce simp: print_line_def)
qed

end
