(* ===== verification/Spec2Isabelle.thy ===== *)
theory Spec2Isabelle
  imports Aot_Compiler Native_Driver Bytecode_VM Ui_Scene Binary_Ops Wait_Free Pulse Perf Compiler_Ops Driver
    Aot_Say Cli_Driver Arch_Correct Toolchain Ui_Drawing Reg_Alloc Engine Launcher Ui_Typing Aot_Program
    Bytecode_Exec Nanlang_Compile Native_Program Back_Ends
begin

text \<open>
  A verification development for NanLang: the native compiler \<open>nanlang_cpp\<close> with its AOT back
  end, its cache, its bytecode virtual machine and its user interface, the command-line tools
  around it, and the library of demonstrations. A definition has the name of the function it
  models unless HOL uses that name; \<open>PROJECT.json\<close> gives the lines of each.

  The program and the theories, in the order of the calls:

  \<^item> Compilation. \<open>Driver\<close> is \<open>main\<close> of \<open>src/src/nanlang_cpp.cpp\<close> with its arguments, fast path and
    slow path. It calls the AOT compiler of \<open>src/src/nan_aot_compiler.cpp\<close>: \<open>Aot_Parser\<close> (the
    line parser, whose two function statics are the state \<open>match_state\<close>), \<open>Aot_Codegen\<close> (the x86-64
    emission helpers, the string pool and the fixups), \<open>Elf\<close> (the three ELF writers of the program and
    what a loader reads back), \<open>Aot_Compiler\<close> (phases, log, error exits, output file). \<open>X86_Machine\<close> is
    the reference machine the code is run on: a decoder for the instructions the program emits, the
    system calls write and exit, memory and registers. \<open>Emitter\<close> holds the contract of an emitter of
    print and exit items, a locale that \<open>Aot_Correct\<close> and \<open>Native_Emit\<close> interpret.
  \<^item> The earlier native back end of \<open>nanlang_cpp.cpp\<close>, with the output modes and the cache: \<open>Text_Tools\<close>
    (trimming, comments, literals, integers, the tokenizer), \<open>Native_Frontend\<close> (\<open>parse_native_program\<close>
    and the ui directives), \<open>Native_Emit\<close> (the payload and its assembly listing), \<open>Base64\<close> (scripts),
    \<open>Cache\<close> (freshness, fingerprints, metadata), \<open>Native_Driver\<close> (\<open>compile_native_source\<close>). \<open>Launcher\<close>
    is the C program \<open>src/src/nanlang_cc.c\<close> in front of \<open>nanlang_cpp\<close>.
  \<^item> \<open>Bytecode_VM\<close>: \<open>compile_source\<close>, the NAN3 format and \<open>run_bytecode\<close>; \<open>Bytecode_Exec\<close>: the machine on
    every file.
  \<^item> \<open>Ui_Scene\<close>, \<open>Ui_Typing\<close> and \<open>Ui_Drawing\<close>: the scene, its parser, the mouse handlers as a state machine,
    the type every reachable scene has, and the drawing as the list of cairo calls it makes.
  \<^item> The command-line tools: \<open>Npi\<close> (\<open>src/src/nan_cli_lib.cpp\<close>), \<open>Npi_Correct\<close>, \<open>Cli\<close>
    (\<open>nanlang_cli.cpp\<close> and \<open>npi_cli.cpp\<close>), \<open>Cli_Driver\<close> (the tools composed with \<open>nanlang_cpp\<close>),
    \<open>Nanlang_Compile\<close> (the command line of \<open>nanlang compile\<close> to the executable that runs).
  \<^item> The libraries under \<open>src/include\<close> with their demonstrations: \<open>Binary_Ops\<close>, \<open>Ring_Buffers\<close>,
    \<open>Wait_Free\<close>, \<open>Pulse\<close>, \<open>Perf\<close>, \<open>Compiler_Ops\<close>, \<open>Arch\<close>, \<open>Arch_Correct\<close>, \<open>Reg_Alloc\<close>, \<open>Engine\<close>;
    \<open>Toolchain\<close> is \<open>src/main.cpp\<close>, which compiles and runs a small bytecode and starts them all.
  \<^item> \<open>Prelude\<close>, \<open>Little_Endian\<close> and \<open>World\<close> are shared: strings and bytes, the byte writers and the
    readers that invert them, and the files, times, environment and output streams a process sees.
    The interfaces are locales: \<open>codec\<close> (a format and its reader), \<open>invariant\<close> (what every step of a
    state machine, or every turn of a loop, keeps), \<open>emitter\<close>, \<open>bounded_fifo\<close> and \<open>drained_fifo\<close>
    (\<open>Ring_Buffers\<close>); each is interpreted on the operations that provide it.

  What the groups of lemmas show. The compilers: from the bytes of a source to the bytes of the
  executable, which a loader accepts and which prints on the reference machine what the source says
  (\<open>Aot_Compiler\<close>, \<open>Aot_Say\<close>, \<open>Native_Driver\<close>, \<open>Driver\<close>, \<open>Nanlang_Compile\<close>),
  where \<open>Aot_Program\<close> and \<open>Native_Program\<close> give the two statement languages a reference
  semantics; the two back ends and the virtual machine agree on the statements they share
  (\<open>Bytecode_VM\<close>, \<open>Back_Ends\<close>), and the machine explains every file (\<open>Bytecode_Exec\<close>). The cache: a
  compilation is found again exactly while the source keeps its size and time, and the fast mode
  forgets the output mode. Formats: every writer is inverted by its reader, or the theorem says
  where it is not. State: the scene under any sequence of events, the queue under every interleaving of
  one producer and one consumer, the spin lock for any number of threads, the statistics of a
  signal stream against their definition on the whole stream, register allocation and colouring.
  Drawing and mouse handling compute the same cards. The tools: quoting survives the shell, dry runs only
  print, temporary files go unless the system refuses, and what the calls to the compiler do. Where a theorem describes behaviour
  that a comment or a help text contradicts, \<open>PROJECT.json\<close> lists it as a finding.

  Bounds. Loops of the source are structural recursion or \<open>function\<close> with a measure, so they end by
  construction; the two demonstrations that drain a queue return an option, proved to be defined. The
  reference machine takes a number of steps: a theorem about a program states that some number
  suffices, from the number of items emitted. Machine integers are words where the source keeps a
  fixed width that matters (bytes, opcodes, hashes, offsets of patches and slices, the register file);
  sizes of containers and line counters are natural numbers, except in bounds tests that wrap.
  Signed overflow, undefined in C++, wraps where a definition has to give a value.

  Idealisations. \<open>double\<close> is the rationals. A stream is good when everything written was stored;
  a path names one file, without links or current directory, and a directory cannot be opened for
  reading (libstdc++ opens it and then reads nothing). Memory is unbounded: no container fails to grow,
  so the exception of \<open>resize\<close> for a chart index no vector can have is left out. Making directories,
  files and temporary names and removing a file may fail, as the host says. What is outside the sources is a
  parameter: starting processes, the shell, \<open>mmap\<close>, \<open>cpuid\<close>, the time stamp counter, the GTK main loop,
  the pixel size of a text.

  Not modelled: \<open>on_ui_activate\<close> and the application start, which only build GTK objects;
  aligned allocation, prefetching and unmapping, which have no effect a result depends on; the
  optimisation passes of the AOT compiler and three methods of its parser, which have empty bodies or
  none; the build files, scripts and documents.
\<close>

end
